(* ===== verification/Tunlet_Prelude.thy ===== *)
theory Tunlet_Prelude
  imports Main "HOL-Library.Word"
begin

text \<open>
  Shared vocabulary of the development.

  \<^item> names for the machine integers and byte strings of the Rust sources;
  \<^item> big-endian conversion (\<open>to_be_bytes\<close> and \<open>from_be_bytes\<close> of the Rust integers) with its two
    round trips, proved once for every width through the bits of the word;
  \<^item> the \<open>Result\<close> type of Rust as a sum whose left side is the error, with the \<open>?\<close> operator
    (\<open>and_then\<close>) and \<open>map_err\<close>;
  \<^item> slices of byte strings at a fixed offset (\<open>slice_at\<close>), the model of the array copies in
    \<open>src/protocol.rs\<close>;
  \<^item> three rewrite collections: \<open>be_simps\<close> for widths, \<open>try_simps\<close> for the error plumbing and
    \<open>slice_simps\<close> for offsets into concatenated fields.
\<close>

named_theorems be_simps \<open>lengths and round trips of big-endian integers\<close>
named_theorems try_simps \<open>unfolding of the error plumbing\<close>
named_theorems slice_simps \<open>fixed slices of concatenated byte fields\<close>

unbundle bit_operations_syntax

subsection \<open>Machine integers and byte strings\<close>

type_synonym u8 = "8 word"
type_synonym u16 = "16 word"
type_synonym u32 = "32 word"
type_synonym u64 = "64 word"
type_synonym bytes = "u8 list"

text \<open>Instants and durations, in milliseconds since an arbitrary origin.\<close>

type_synonym instant = nat
type_synonym duration = nat

text \<open>\<open>to_be_bytes\<close> of an integer of \<open>n\<close> bytes: the most significant byte first.\<close>

definition to_be :: "nat \<Rightarrow> 'a::len word \<Rightarrow> bytes" where
  "to_be n w = map (\<lambda>i. ucast (drop_bit (8 * i) w)) (rev [0..<n])"

definition from_be :: "bytes \<Rightarrow> 'a::len word" where
  "from_be bs = foldl (\<lambda>acc b. push_bit 8 acc OR ucast b) 0 bs"

lemma length_to_be [simp, be_simps]: "length (to_be n w) = n"
  by (simp add: to_be_def)

lemma from_be_snoc:
  "(from_be (bs @ [b]) :: 'a::len word) = push_bit 8 (from_be bs) OR ucast b"
  by (simp add: from_be_def)

lemma bit_from_be:
  "bit (from_be bs :: 'a::len word) i \<longleftrightarrow>
     i < LENGTH('a) \<and> i < 8 * length bs \<and> bit (rev bs ! (i div 8)) (i mod 8)"
proof (induction bs arbitrary: i rule: rev_induct)
  case Nil
  then show ?case by (simp add: from_be_def)
next
  case (snoc b bs)
  show ?case
  proof (cases "i < 8")
    case True
    then show ?thesis by (auto simp: from_be_snoc bit_simps)
  next
    case False
    then obtain j where j: "i = 8 + j" by (metis le_add_diff_inverse not_less)
    have "\<not> bit b i" using False by (auto dest: bit_imp_le_length)
    moreover have "(8 + j) div 8 = Suc (j div 8)" by simp
    ultimately show ?thesis by (auto simp: from_be_snoc bit_simps j snoc.IH)
  qed
qed

lemma from_be_to_be:
  "LENGTH('a) = 8 * n \<Longrightarrow> from_be (to_be n w) = (w :: 'a::len word)"
  by (rule bit_eqI) (auto simp: bit_from_be to_be_def rev_map nth_append bit_simps)

lemma byte_of_from_be:
  assumes "LENGTH('a) = 8 * length bs" and "i < length bs"
  shows "ucast (drop_bit (8 * (length bs - Suc i)) (from_be bs :: 'a::len word)) = bs ! i"
proof (rule bit_word_eqI)
  fix k :: nat
  assume "k < LENGTH(8)"
  then have k: "k < 8" by simp
  define j where "j = length bs - Suc i"
  have "j < length bs" using assms(2) by (simp add: j_def)
  then have "8 * j + k < 8 * length bs" using k by simp
  moreover have "rev bs ! j = bs ! i" using assms(2) by (simp add: rev_nth j_def)
  ultimately show "bit (ucast (drop_bit (8 * (length bs - Suc i)) (from_be bs :: 'a word)) :: u8) k
      = bit (bs ! i) k"
    using k assms(1) by (simp add: bit_simps bit_from_be add.commute flip: j_def)
qed

lemma to_be_from_be:
  assumes "LENGTH('a) = 8 * length bs"
  shows "to_be (length bs) (from_be bs :: 'a::len word) = bs"
  by (rule nth_equalityI) (simp_all add: to_be_def rev_nth byte_of_from_be [OF assms])

lemma from_be_u16 [simp, be_simps]: "from_be (to_be 2 w) = (w :: u16)"
  and from_be_u32 [simp, be_simps]: "from_be (to_be 4 v) = (v :: u32)"
  and from_be_u64 [simp, be_simps]: "from_be (to_be 8 q) = (q :: u64)"
  by (simp_all add: from_be_to_be)

lemma to_be_u16 [be_simps]: "length bs = 2 \<Longrightarrow> to_be 2 (from_be bs :: u16) = bs"
  and to_be_u32 [be_simps]: "length bs = 4 \<Longrightarrow> to_be 4 (from_be bs :: u32) = bs"
  and to_be_u64 [be_simps]: "length bs = 8 \<Longrightarrow> to_be 8 (from_be bs :: u64) = bs"
  using to_be_from_be [where 'a = 16, of bs] to_be_from_be [where 'a = 32, of bs]
    to_be_from_be [where 'a = 64, of bs]
  by simp_all

lemma to_be_inject_u16 [simp]: "to_be 2 (v :: u16) = to_be 2 w \<longleftrightarrow> v = w"
  by (metis from_be_u16)

lemma to_be_inject_u32 [simp]: "to_be 4 (v :: u32) = to_be 4 w \<longleftrightarrow> v = w"
  by (metis from_be_u32)

lemma to_be_inject_u64 [simp]: "to_be 8 (v :: u64) = to_be 8 w \<longleftrightarrow> v = w"
  by (metis from_be_u64)

subsection \<open>Results and the question-mark operator\<close>

type_synonym ('e, 'a) result = "'e + 'a"

definition and_then :: "('e, 'a) result \<Rightarrow> ('a \<Rightarrow> ('e, 'b) result) \<Rightarrow> ('e, 'b) result" where
  "and_then r f = (case r of Inl e \<Rightarrow> Inl e | Inr a \<Rightarrow> f a)"

definition map_err :: "('e \<Rightarrow> 'f) \<Rightarrow> ('e, 'a) result \<Rightarrow> ('f, 'a) result" where
  "map_err g r = (case r of Inl e \<Rightarrow> Inl (g e) | Inr a \<Rightarrow> Inr a)"

definition ok_or :: "'e \<Rightarrow> 'a option \<Rightarrow> ('e, 'a) result" where
  "ok_or e o' = (case o' of None \<Rightarrow> Inl e | Some a \<Rightarrow> Inr a)"

definition is_ok :: "('e, 'a) result \<Rightarrow> bool" where
  "is_ok r = (case r of Inl _ \<Rightarrow> False | Inr _ \<Rightarrow> True)"

lemma and_then_simps [simp, try_simps]:
  "and_then (Inl e) f = Inl e" "and_then (Inr a) f = f a"
  by (simp_all add: and_then_def)

lemma map_err_simps [simp, try_simps]:
  "map_err g (Inl e) = Inl (g e)" "map_err g (Inr a) = Inr a"
  by (simp_all add: map_err_def)

lemma ok_or_simps [simp, try_simps]:
  "ok_or e None = Inl e" "ok_or e (Some a) = Inr a"
  by (simp_all add: ok_or_def)

lemma is_ok_simps [simp, try_simps]: "is_ok (Inr a)" "\<not> is_ok (Inl e)"
  by (simp_all add: is_ok_def)

lemma and_then_eq_Inr: "and_then r f = Inr b \<longleftrightarrow> (\<exists>a. r = Inr a \<and> f a = Inr b)"
  by (cases r) auto

lemma and_then_eq_Inl: "and_then r f = Inl e \<longleftrightarrow> r = Inl e \<or> (\<exists>a. r = Inr a \<and> f a = Inl e)"
  by (cases r) auto

lemma map_err_eq_Inr [simp]: "map_err g r = Inr a \<longleftrightarrow> r = Inr a"
  by (cases r) auto

lemma map_err_eq_Inl: "map_err g r = Inl f \<longleftrightarrow> (\<exists>e. r = Inl e \<and> f = g e)"
  by (cases r) auto

lemma ok_or_eq_Inr [simp]: "ok_or e r = Inr a \<longleftrightarrow> r = Some a"
  by (cases r) auto

lemma is_ok_iff: "is_ok r \<longleftrightarrow> (\<exists>a. r = Inr a)"
  by (cases r) auto

subsection \<open>Slices at fixed offsets\<close>

text \<open>
  \<open>slice_at n bs at\<close> is \<open>&bytes[at..at + n]\<close>. Rust panics when \<open>at + n\<close> exceeds the length; here
  the slice is then shorter than \<open>n\<close>, so a proof that every slice has its full length
  (\<open>slice_full\<close>) is a proof that the code does not panic.
\<close>

definition slice_at :: "nat \<Rightarrow> bytes \<Rightarrow> nat \<Rightarrow> bytes" where
  "slice_at n bs at = take n (drop at bs)"

lemma slice_full: "length (slice_at n bs at) = n \<longleftrightarrow> n = 0 \<or> at + n \<le> length bs"
  by (auto simp: slice_at_def min_def)

lemma length_slice [simp]: "at + n \<le> length bs \<Longrightarrow> length (slice_at n bs at) = n"
  by (simp add: slice_at_def)

lemma slice_append_here [simp, slice_simps]:
  "length as = n \<Longrightarrow> slice_at n (as @ bs) 0 = as"
  by (simp add: slice_at_def)

lemma slice_append_skip [slice_simps]:
  "length as \<le> at \<Longrightarrow> slice_at n (as @ bs) at = slice_at n bs (at - length as)"
  by (simp add: slice_at_def)

lemma slice_all [simp, slice_simps]: "length bs = n \<Longrightarrow> slice_at n bs 0 = bs"
  by (simp add: slice_at_def)

lemma slice_join:
  "slice_at m bs at @ slice_at n bs (at + m) = slice_at (m + n) bs at"
  by (simp add: slice_at_def take_add add.commute)

lemma slice_whole: "length bs = n \<Longrightarrow> slice_at n bs 0 = bs"
  by (simp add: slice_at_def)

lemma slice_one: "at < length bs \<Longrightarrow> [bs ! at] = slice_at 1 bs at"
  by (simp add: slice_at_def take_Suc_conv_app_nth hd_drop_conv_nth take_Suc)

lemma nth_append_skip [slice_simps]:
  "length as \<le> i \<Longrightarrow> (as @ bs) ! i = bs ! (i - length as)"
  by (simp add: nth_append)

lemma slice_two: "Suc at < length bs \<Longrightarrow> [bs ! at, bs ! Suc at] = slice_at 2 bs at"
  using slice_join [of 1 bs at 1, symmetric] by (simp add: numeral_2_eq_2 flip: slice_one [unfolded One_nat_def])

end
