(* ===== verification/Assoc_Maps.thy ===== *)
theory Assoc_Maps
  imports Tunlet_Prelude
begin

text \<open>
  The two map types of the Rust standard library that the registry uses, as association lists.

  \<^item> \<open>BTreeMap\<close>: the list is kept in strictly ascending key order (\<open>bt_wf\<close>), because the code
    relies on the order of \<open>iter\<close> (\<open>allocate_automatic\<close> takes the first match).
  \<^item> \<open>HashMap\<close>: keys are distinct (\<open>hm_wf\<close>); the code never depends on its iteration order.

  Both meet one contract, the locale \<open>finite_map\<close>: what a lookup returns after each update, and that
  every update keeps the representation invariant. The lemmas the registry needs are proved inside
  the locale and reach the components through the interpretations \<open>bt\<close> and \<open>hm\<close>.
\<close>

named_theorems map_simps \<open>lookup after update, for both map types\<close>

subsection \<open>The interface\<close>

locale finite_map =
  fixes wf :: "'m \<Rightarrow> bool"
    and get :: "'m \<Rightarrow> 'k \<Rightarrow> 'v option"
    and ins :: "'k \<Rightarrow> 'v \<Rightarrow> 'm \<Rightarrow> 'm"
    and rem :: "'k \<Rightarrow> 'm \<Rightarrow> 'm"
    and retain :: "('k \<Rightarrow> 'v \<Rightarrow> bool) \<Rightarrow> 'm \<Rightarrow> 'm"
    and len :: "'m \<Rightarrow> nat"
  assumes get_ins: "get (ins k v m) j = (if j = k then Some v else get m j)"
    and get_rem: "get (rem k m) j = (if j = k then None else get m j)"
    and get_retain: "wf m \<Longrightarrow>
      get (retain P m) j = (case get m j of None \<Rightarrow> None | Some v \<Rightarrow> if P j v then Some v else None)"
    and wf_ins: "wf m \<Longrightarrow> wf (ins k v m)"
    and wf_rem: "wf m \<Longrightarrow> wf (rem k m)"
    and wf_retain: "wf m \<Longrightarrow> wf (retain P m)"
    and len_ins: "wf m \<Longrightarrow> len (ins k v m) = (if get m k = None then Suc (len m) else len m)"
    and len_rem: "len (rem k m) \<le> len m"
begin

lemma get_ins_same: "get (ins k v m) k = Some v"
  by (simp add: get_ins)

lemma get_rem_same: "get (rem k m) k = None"
  by (simp add: get_rem)

lemma rem_Some: "get (rem k m) j = Some v \<longleftrightarrow> j \<noteq> k \<and> get m j = Some v"
  by (simp add: get_rem)

lemma ins_Some: "get (ins k v m) j = Some w \<longleftrightarrow> (j = k \<and> w = v) \<or> (j \<noteq> k \<and> get m j = Some w)"
  by (auto simp: get_ins)

lemma retain_Some: "wf m \<Longrightarrow> get (retain P m) j = Some v \<longleftrightarrow> get m j = Some v \<and> P j v"
  by (auto simp: get_retain split: option.splits)

lemma retain_None: "wf m \<Longrightarrow> get m j = None \<Longrightarrow> get (retain P m) j = None"
  by (simp add: get_retain)

lemma len_overwrite: "wf m \<Longrightarrow> get m k = Some u \<Longrightarrow> len (ins k v m) = len m"
  by (simp add: len_ins)

lemma len_ins_le: "wf m \<Longrightarrow> len (ins k v m) \<le> Suc (len m)"
  by (simp add: len_ins)

lemma len_fresh: "wf m \<Longrightarrow> get m k = None \<Longrightarrow> len (ins k v m) = Suc (len m)"
  by (simp add: len_ins)

end

subsection \<open>Operations shared by both representations\<close>

definition mget :: "('k \<times> 'v) list \<Rightarrow> 'k \<Rightarrow> 'v option" where
  "mget m k = map_of m k"

definition mcontains :: "('k \<times> 'v) list \<Rightarrow> 'k \<Rightarrow> bool" where
  "mcontains m k = (mget m k \<noteq> None)"

definition mrem :: "'k \<Rightarrow> ('k \<times> 'v) list \<Rightarrow> ('k \<times> 'v) list" where
  "mrem k m = filter (\<lambda>(j, _). j \<noteq> k) m"

definition mretain :: "('k \<Rightarrow> 'v \<Rightarrow> bool) \<Rightarrow> ('k \<times> 'v) list \<Rightarrow> ('k \<times> 'v) list" where
  "mretain P m = filter (\<lambda>(j, v). P j v) m"

definition mvalues :: "('k \<times> 'v) list \<Rightarrow> 'v list" where
  "mvalues m = map snd m"

lemma mget_Nil [simp]: "mget [] k = None"
  by (simp add: mget_def)

lemma mget_Cons [simp]: "mget ((j, v) # m) k = (if k = j then Some v else mget m k)"
  by (auto simp: mget_def)

lemma mget_mrem [map_simps]: "mget (mrem k m) j = (if j = k then None else mget m j)"
  by (induction m) (auto simp: mrem_def)

lemma mget_in_set: "mget m k = Some v \<Longrightarrow> (k, v) \<in> set m"
  unfolding mget_def by (rule map_of_SomeD)

lemma mget_None_iff: "mget m k = None \<longleftrightarrow> k \<notin> fst ` set m"
  by (simp add: mget_def map_of_eq_None_iff)

lemma mget_mretain:
  "distinct (map fst m) \<Longrightarrow>
   mget (mretain P m) j = (case mget m j of None \<Rightarrow> None | Some v \<Rightarrow> if P j v then Some v else None)"
proof (induction m arbitrary: j)
  case (Cons a m)
  obtain i w where a: "a = (i, w)" by (cases a)
  have fresh: "mget m i = None" using Cons.prems a by (simp add: mget_None_iff)
  have "mretain P (a # m) = (if P i w then a # mretain P m else mretain P m)"
    by (simp add: mretain_def a)
  moreover have "mget (mretain P m) i = None" using Cons.IH [of i] Cons.prems fresh by simp
  ultimately show ?case using Cons.IH [of j] Cons.prems a fresh by auto
qed (simp add: mretain_def)

lemma mget_eq_set: "distinct (map fst m) \<Longrightarrow> mget m k = Some v \<longleftrightarrow> (k, v) \<in> set m"
  by (simp add: mget_def)

lemma length_mrem: "length (mrem k m) \<le> length m"
  by (simp add: mrem_def)

lemma distinct_mrem: "distinct (map fst m) \<Longrightarrow> distinct (map fst (mrem k m))"
  by (induction m) (auto simp: mrem_def)

lemma distinct_mretain: "distinct (map fst m) \<Longrightarrow> distinct (map fst (mretain P m))"
  by (induction m) (auto simp: mretain_def)

lemma key_not_in_mrem: "k \<notin> fst ` set (mrem k m)"
  by (auto simp: mrem_def)

lemma mcontains_iff: "mcontains m k \<longleftrightarrow> (\<exists>v. mget m k = Some v)"
  by (auto simp: mcontains_def)

subsection \<open>BTreeMap\<close>

definition bt_wf :: "('k::linorder \<times> 'v) list \<Rightarrow> bool" where
  "bt_wf m = sorted_wrt (<) (map fst m)"

fun bt_insert :: "'k::linorder \<Rightarrow> 'v \<Rightarrow> ('k \<times> 'v) list \<Rightarrow> ('k \<times> 'v) list" where
  "bt_insert k v [] = [(k, v)]"
| "bt_insert k v ((j, w) # m) =
     (if k < j then (k, v) # (j, w) # m
      else if k = j then (k, v) # m
      else (j, w) # bt_insert k v m)"

lemma bt_wf_distinct: "bt_wf m \<Longrightarrow> distinct (map fst m)"
  unfolding bt_wf_def using strict_sorted_iff by blast

lemma bt_wf_Nil [simp]: "bt_wf []"
  by (simp add: bt_wf_def)

lemma mget_bt_insert [map_simps]:
  "mget (bt_insert k v m) j = (if j = k then Some v else mget m j)"
  by (induction k v m rule: bt_insert.induct) auto

lemma keys_bt_insert: "fst ` set (bt_insert k v m) = insert k (fst ` set m)"
  by (induction k v m rule: bt_insert.induct) auto

lemma bt_wf_insert: "bt_wf m \<Longrightarrow> bt_wf (bt_insert k v m)"
proof (induction k v m rule: bt_insert.induct)
  case (2 k v j w m)
  then have tail: "bt_wf m" and above: "\<forall>i \<in> fst ` set m. j < i"
    by (auto simp: bt_wf_def)
  have "j < k \<Longrightarrow> \<forall>i \<in> fst ` set (bt_insert k v m). j < i"
    using above by (simp add: keys_bt_insert)
  with 2 tail above show ?case by (fastforce simp: bt_wf_def)
qed (simp add: bt_wf_def)

lemma bt_wf_filter: "bt_wf m \<Longrightarrow> bt_wf (filter P m)"
  unfolding bt_wf_def by (induction m) auto

lemma bt_wf_rem: "bt_wf m \<Longrightarrow> bt_wf (mrem k m)"
  and bt_wf_retain: "bt_wf m \<Longrightarrow> bt_wf (mretain Q m)"
  by (simp_all add: mrem_def mretain_def bt_wf_filter)

lemma length_bt_insert:
  "bt_wf m \<Longrightarrow>
   length (bt_insert k v m) = (if mget m k = None then Suc (length m) else length m)"
proof (induction k v m rule: bt_insert.induct)
  case (2 k v j w m)
  then have "bt_wf m" and "k < j \<Longrightarrow> mget m k = None"
    by (auto simp: bt_wf_def mget_None_iff)
  with 2 show ?case by auto
qed simp

lemma mrem_bt_insert: "bt_wf m \<Longrightarrow> mrem k (bt_insert k v m) = mrem k m"
proof (induction k v m rule: bt_insert.induct)
  case (2 k v j w m)
  then have "bt_wf m" by (simp add: bt_wf_def)
  with 2 show ?case by (auto simp: mrem_def)
qed (simp add: mrem_def)

interpretation bt: finite_map bt_wf mget bt_insert mrem mretain length
  by unfold_locales
    (simp_all add: map_simps mget_mretain bt_wf_distinct bt_wf_insert bt_wf_rem bt_wf_retain
      length_bt_insert length_mrem)

subsection \<open>HashMap\<close>

definition hm_wf :: "('k \<times> 'v) list \<Rightarrow> bool" where
  "hm_wf m = distinct (map fst m)"

definition hm_insert :: "'k \<Rightarrow> 'v \<Rightarrow> ('k \<times> 'v) list \<Rightarrow> ('k \<times> 'v) list" where
  "hm_insert k v m = (k, v) # mrem k m"

lemma hm_wf_Nil [simp]: "hm_wf []"
  by (simp add: hm_wf_def)

lemma mget_hm_insert [map_simps]:
  "mget (hm_insert k v m) j = (if j = k then Some v else mget m j)"
  by (simp add: hm_insert_def mget_mrem)

lemma hm_wf_insert: "hm_wf m \<Longrightarrow> hm_wf (hm_insert k v m)"
  by (simp add: hm_wf_def hm_insert_def distinct_mrem key_not_in_mrem)

lemma length_mrem_distinct:
  "distinct (map fst m) \<Longrightarrow>
   length (mrem k m) = (if mget m k = None then length m else length m - 1)"
proof (induction m)
  case (Cons a m)
  obtain j w where a: "a = (j, w)" by (cases a)
  have "mget m k \<noteq> None \<Longrightarrow> 0 < length m" by (cases m) auto
  moreover have "k = j \<Longrightarrow> mget m k = None" using Cons.prems a by (simp add: mget_None_iff)
  ultimately show ?case using Cons a by (auto simp: mrem_def)
qed (simp add: mrem_def)

lemma mget_Some_length: "mget m k = Some v \<Longrightarrow> 0 < length m"
  by (cases m) auto

interpretation hm: finite_map hm_wf mget hm_insert mrem mretain length
proof (unfold_locales, goal_cases)
  case (7 m k v)
  then show ?case
    by (auto simp: hm_insert_def hm_wf_def length_mrem_distinct dest: mget_Some_length)
qed (simp_all add: map_simps mget_mretain hm_wf_insert [unfolded hm_wf_def] hm_wf_def distinct_mrem
    distinct_mretain length_mrem)

lemmas map_wf_intros =
  bt.wf_ins bt.wf_rem bt.wf_retain hm.wf_ins hm.wf_rem hm.wf_retain

lemmas map_Some_iffs = bt.ins_Some hm.ins_Some bt.rem_Some

end
