(* ===== verification/Error_Codes.thy ===== *)
theory Error_Codes
  imports Tunlet_Prelude
begin

text \<open>
  \<open>src/error.rs\<close>: the wire error codes, protocol violations, the application error type and the
  process exit codes. \<open>io_error\<close> stands for \<open>std::io::Error\<close>, reduced to the error kinds the
  sources inspect and an opaque message.
\<close>

subsection \<open>Wire error codes\<close>

datatype error_code =
    AuthFailed
  | ProtocolErr
  | UnsupportedVersion
  | InvalidPort
  | PortUnavailable
  | NoPortAvailable
  | Replaced
  | ServerBusy
  | RequestUnavailable
  | InternalError

definition error_code_from_u16 :: "u16 \<Rightarrow> error_code option" where
  "error_code_from_u16 value =
     (if value = 1 then Some AuthFailed
      else if value = 2 then Some ProtocolErr
      else if value = 3 then Some UnsupportedVersion
      else if value = 4 then Some InvalidPort
      else if value = 5 then Some PortUnavailable
      else if value = 6 then Some NoPortAvailable
      else if value = 7 then Some Replaced
      else if value = 8 then Some ServerBusy
      else if value = 9 then Some RequestUnavailable
      else if value = 10 then Some InternalError
      else None)"

fun as_u16 :: "error_code \<Rightarrow> u16" where
  "as_u16 AuthFailed = 1"
| "as_u16 ProtocolErr = 2"
| "as_u16 UnsupportedVersion = 3"
| "as_u16 InvalidPort = 4"
| "as_u16 PortUnavailable = 5"
| "as_u16 NoPortAvailable = 6"
| "as_u16 Replaced = 7"
| "as_u16 ServerBusy = 8"
| "as_u16 RequestUnavailable = 9"
| "as_u16 InternalError = 10"

fun error_code_message :: "error_code \<Rightarrow> string" where
  "error_code_message AuthFailed = ''authentication failed''"
| "error_code_message ProtocolErr = ''protocol error''"
| "error_code_message UnsupportedVersion = ''unsupported protocol version''"
| "error_code_message InvalidPort = ''requested port is invalid''"
| "error_code_message PortUnavailable = ''requested port is unavailable or already occupied''"
| "error_code_message NoPortAvailable = ''no automatic port available in the configured range''"
| "error_code_message Replaced = ''another process owns this tunnel''"
| "error_code_message ServerBusy = ''server is at capacity''"
| "error_code_message RequestUnavailable = ''connection request is no longer available''"
| "error_code_message InternalError = ''server internal error''"

definition is_fatal_for_client :: "error_code \<Rightarrow> bool" where
  "is_fatal_for_client code = (\<not> (case code of ServerBusy \<Rightarrow> True | _ \<Rightarrow> False))"

lemma from_u16_as_u16 [simp]: "error_code_from_u16 (as_u16 c) = Some c"
  by (cases c) (simp_all add: error_code_from_u16_def)

lemma as_u16_from_u16: "error_code_from_u16 v = Some c \<Longrightarrow> as_u16 c = v"
  by (auto simp: error_code_from_u16_def split: if_splits)

lemma is_fatal_iff: "is_fatal_for_client c \<longleftrightarrow> c \<noteq> ServerBusy"
  by (cases c) (simp_all add: is_fatal_for_client_def)

subsection \<open>Protocol violations\<close>

record protocol_error =
  code :: error_code
  detail :: string

definition protocol_error_new :: "string \<Rightarrow> protocol_error" where
  "protocol_error_new d = \<lparr>code = ProtocolErr, detail = d\<rparr>"

definition protocol_error_with_code :: "error_code \<Rightarrow> string \<Rightarrow> protocol_error" where
  "protocol_error_with_code c d = \<lparr>code = c, detail = d\<rparr>"

lemma protocol_error_simps [simp]:
  "code (protocol_error_new d) = ProtocolErr"
  "code (protocol_error_with_code c d) = c"
  by (simp_all add: protocol_error_new_def protocol_error_with_code_def)

subsection \<open>Application errors and exit codes\<close>

datatype io_kind =
    NotFound
  | PermissionDenied
  | AddrInUse
  | ConnectionAborted
  | UnexpectedEof
  | OtherKind

record io_error =
  kind :: io_kind
  io_text :: string

datatype app_error =
    Cli string
  | Config string
  | Protocol protocol_error
  | Auth
  | Registration error_code
  | Runtime string
  | Io io_error

definition app_error_protocol :: "string \<Rightarrow> app_error" where
  "app_error_protocol d = Protocol (protocol_error_new d)"

fun exit_code :: "app_error \<Rightarrow> int" where
  "exit_code (Cli _) = 2"
| "exit_code (Config _) = 2"
| "exit_code (Protocol _) = 3"
| "exit_code Auth = 3"
| "exit_code (Registration _) = 3"
| "exit_code (Runtime _) = 1"
| "exit_code (Io _) = 1"

fun app_error_display :: "app_error \<Rightarrow> string" where
  "app_error_display (Cli message) = message"
| "app_error_display (Config message) = message"
| "app_error_display (Runtime message) = message"
| "app_error_display (Protocol e) = ''protocol error: '' @ detail e"
| "app_error_display Auth = ''authentication failed''"
| "app_error_display (Registration c) = ''registration failed: '' @ error_code_message c"
| "app_error_display (Io e) = ''I/O error: '' @ io_text e"

text \<open>\<open>From<ProtocolError> for AppError\<close>, the conversion the \<open>?\<close> operator inserts.\<close>

definition lift_protocol :: "(protocol_error, 'a) result \<Rightarrow> (app_error, 'a) result" where
  "lift_protocol r = map_err Protocol r"

lemma lift_protocol_simps [simp, try_simps]:
  "lift_protocol (Inl e) = Inl (Protocol e)" "lift_protocol (Inr a) = Inr a"
  by (simp_all add: lift_protocol_def)

lemma lift_protocol_eq_Inr [simp]: "lift_protocol r = Inr a \<longleftrightarrow> r = Inr a"
  by (cases r) auto

end
