(* ===== verification/Settings.thy ===== *)
theory Settings
  imports Error_Codes
begin

text \<open>
  The typed settings the two programs run with: \<open>src/timing.rs\<close>, the log level of
  \<open>src/logging.rs\<close>, socket addresses and endpoints (\<open>src/net.rs\<close>) and the two configuration
  structures of \<open>src/config.rs\<close>. A Rust string is its UTF-8 bytes, that is, a HOL \<open>string\<close>.
\<close>

subsection \<open>Timing\<close>

record timing =
  handshake :: duration
  control_attempt :: duration
  reconnect_delay :: duration
  reservation :: duration
  request_wait :: duration
  target_connect :: duration
  heartbeat_interval :: duration
  heartbeat_timeout :: duration
  write_timeout :: duration
  shutdown_grace :: duration
  takeover_flush :: duration
  sweep_interval :: duration

definition from_secs :: "nat \<Rightarrow> duration" where
  "from_secs n = 1000 * n"

definition from_millis :: "nat \<Rightarrow> duration" where
  "from_millis n = n"

definition timing_default :: timing where
  "timing_default =
     \<lparr>handshake = from_secs 10,
      control_attempt = from_secs 10,
      reconnect_delay = from_secs 5,
      reservation = from_secs 300,
      request_wait = from_secs 10,
      target_connect = from_secs 10,
      heartbeat_interval = from_secs 20,
      heartbeat_timeout = from_secs 10,
      write_timeout = from_secs 10,
      shutdown_grace = from_secs 5,
      takeover_flush = from_secs 1,
      sweep_interval = from_millis 100\<rparr>"

definition timing_fast :: timing where
  "timing_fast =
     \<lparr>handshake = from_secs 2,
      control_attempt = from_secs 2,
      reconnect_delay = from_millis 100,
      reservation = from_millis 600,
      request_wait = from_millis 700,
      target_connect = from_millis 600,
      heartbeat_interval = from_millis 200,
      heartbeat_timeout = from_millis 300,
      write_timeout = from_secs 2,
      shutdown_grace = from_secs 2,
      takeover_flush = from_millis 100,
      sweep_interval = from_millis 20\<rparr>"

subsection \<open>Log level\<close>

datatype level = LevelError | LevelInfo | LevelDebug

fun level_as_u8 :: "level \<Rightarrow> u8" where
  "level_as_u8 LevelError = 0"
| "level_as_u8 LevelInfo = 1"
| "level_as_u8 LevelDebug = 2"

definition level_parse :: "string \<Rightarrow> level option" where
  "level_parse value =
     (if value = ''error'' then Some LevelError
      else if value = ''info'' then Some LevelInfo
      else if value = ''debug'' then Some LevelDebug
      else None)"

fun level_label :: "level \<Rightarrow> string" where
  "level_label LevelError = ''error''"
| "level_label LevelInfo = ''info''"
| "level_label LevelDebug = ''debug''"

text \<open>The two process-wide atomics of the logger, set once by \<open>init\<close>.\<close>

record log_state =
  log_level_now :: u8
  log_quiet :: bool

definition log_initial :: log_state where
  "log_initial = \<lparr>log_level_now = level_as_u8 LevelInfo, log_quiet = False\<rparr>"

definition log_init :: "level \<Rightarrow> bool \<Rightarrow> log_state \<Rightarrow> log_state" where
  "log_init l q st = st\<lparr>log_level_now := level_as_u8 l, log_quiet := q\<rparr>"

definition log_enabled :: "log_state \<Rightarrow> level \<Rightarrow> bool" where
  "log_enabled st l = (\<not> log_quiet st \<and> level_as_u8 l \<le> log_level_now st)"

definition log_line :: "log_state \<Rightarrow> level \<Rightarrow> string \<Rightarrow> string option" where
  "log_line st l message =
     (if log_enabled st l then Some (''['' @ level_label l @ ''] '' @ message) else None)"

text \<open>The logging macros test the level themselves before they format and log.\<close>

definition log_macro :: "level \<Rightarrow> log_state \<Rightarrow> string \<Rightarrow> string option" where
  "log_macro l st message = (if log_enabled st l then log_line st l message else None)"

lemma log_macro_line: "log_macro l st message = log_line st l message"
  by (simp add: log_macro_def log_line_def)

lemma level_parse_label [simp]: "level_parse (level_label l) = Some l"
  by (cases l) (simp_all add: level_parse_def)

subsection \<open>Addresses\<close>

datatype ip_addr = V4 u32 | V6 "128 word"

record socket_addr =
  sa_ip :: ip_addr
  sa_port :: u16

record endpoint =
  host :: string
  port :: u16

subsection \<open>Configuration structures\<close>

record server_config =
  sc_key :: string
  sc_listen :: socket_addr
  sc_data_bind :: ip_addr
  sc_allowed_ports :: "u16 \<times> u16"
  sc_max_connections :: u32
  sc_log_level :: level
  sc_quiet :: bool

record expose_config =
  ec_key :: string
  ec_server :: endpoint
  ec_remote_port :: "u16 option"
  ec_target :: endpoint
  ec_log_level :: level
  ec_quiet :: bool

text \<open>What \<open>config::server\<close> guarantees of the numeric settings.\<close>

definition wf_server_config :: "server_config \<Rightarrow> bool" where
  "wf_server_config c =
     (1024 \<le> sa_port (sc_listen c) \<and>
      1024 \<le> fst (sc_allowed_ports c) \<and> fst (sc_allowed_ports c) \<le> snd (sc_allowed_ports c) \<and>
      sc_max_connections c \<noteq> 0 \<and> sc_max_connections c \<le> 65535)"

text \<open>What \<open>config::expose\<close> guarantees.\<close>

definition wf_expose_config :: "expose_config \<Rightarrow> bool" where
  "wf_expose_config c =
     (host (ec_server c) \<noteq> [] \<and> 1024 \<le> port (ec_server c) \<and>
      host (ec_target c) \<noteq> [] \<and> port (ec_target c) \<noteq> 0 \<and>
      (case ec_remote_port c of None \<Rightarrow> True | Some p \<Rightarrow> 1024 \<le> p))"

end
