(* ===== verification/Wire_Protocol.thy ===== *)
theory Wire_Protocol
  imports Error_Codes
begin

text \<open>
  \<open>src/protocol.rs\<close>: constants, message types, the preamble, frames and the fixed-layout payloads
  of wire protocol version 1.

  Arrays such as \<open>[u8; 16]\<close> are byte lists; their lengths are part of the well-formedness predicate
  of each payload (\<open>wf_control_hello\<close> and its kin). Every payload type meets one contract, the
  locale \<open>payload_codec\<close>: decoding inverts encoding, decoding accepts only the canonical encoding,
  every decoded value is well formed, and every encoding has the length the frame reader demands for
  its type.
\<close>

named_theorems codec_defs \<open>encoders, decoders and well-formedness of payloads\<close>

subsection \<open>Constants\<close>

definition MAGIC :: bytes where
  "MAGIC = [0x54, 0x54, 0x55, 0x4e]"

definition VERSION :: u8 where
  "VERSION = 1"

definition MAX_PAYLOAD :: nat where
  "MAX_PAYLOAD = 1024"

definition PREAMBLE_LEN :: nat where
  "PREAMBLE_LEN = 8"

definition HEADER_LEN :: nat where
  "HEADER_LEN = 3"

type_synonym instance_id = bytes
type_synonym session_id = bytes
type_synonym request_id = bytes
type_synonym nonce = bytes
type_synonym mac = bytes

subsection \<open>Enumerations\<close>

datatype conn_kind = Control | Data

fun kind_as_u8 :: "conn_kind \<Rightarrow> u8" where
  "kind_as_u8 Control = 1"
| "kind_as_u8 Data = 2"

definition kind_from_u8 :: "u8 \<Rightarrow> (protocol_error, conn_kind) result" where
  "kind_from_u8 value =
     (if value = 1 then Inr Control
      else if value = 2 then Inr Data
      else Inl (protocol_error_new ''invalid connection kind''))"

datatype msg_type =
    ControlHello
  | ControlChallenge
  | ControlProof
  | Registered
  | Open
  | OpenFailed
  | Ping
  | Pong
  | Goodbye
  | GoodbyeAck
  | ServerShutdown
  | DataHello
  | DataChallenge
  | DataProof
  | DataReady
  | Error

fun type_as_u8 :: "msg_type \<Rightarrow> u8" where
  "type_as_u8 ControlHello = 0x01"
| "type_as_u8 ControlChallenge = 0x02"
| "type_as_u8 ControlProof = 0x03"
| "type_as_u8 Registered = 0x04"
| "type_as_u8 Open = 0x05"
| "type_as_u8 OpenFailed = 0x06"
| "type_as_u8 Ping = 0x07"
| "type_as_u8 Pong = 0x08"
| "type_as_u8 Goodbye = 0x09"
| "type_as_u8 GoodbyeAck = 0x0a"
| "type_as_u8 ServerShutdown = 0x0b"
| "type_as_u8 DataHello = 0x20"
| "type_as_u8 DataChallenge = 0x21"
| "type_as_u8 DataProof = 0x22"
| "type_as_u8 DataReady = 0x23"
| "type_as_u8 Error = 0x7f"

definition type_from_u8 :: "u8 \<Rightarrow> (protocol_error, msg_type) result" where
  "type_from_u8 value =
     (if value = 0x01 then Inr ControlHello
      else if value = 0x02 then Inr ControlChallenge
      else if value = 0x03 then Inr ControlProof
      else if value = 0x04 then Inr Registered
      else if value = 0x05 then Inr Open
      else if value = 0x06 then Inr OpenFailed
      else if value = 0x07 then Inr Ping
      else if value = 0x08 then Inr Pong
      else if value = 0x09 then Inr Goodbye
      else if value = 0x0a then Inr GoodbyeAck
      else if value = 0x0b then Inr ServerShutdown
      else if value = 0x20 then Inr DataHello
      else if value = 0x21 then Inr DataChallenge
      else if value = 0x22 then Inr DataProof
      else if value = 0x23 then Inr DataReady
      else if value = 0x7f then Inr Error
      else Inl (protocol_error_new ''unknown message type''))"

fun payload_len :: "msg_type \<Rightarrow> nat" where
  "payload_len ControlHello = 51"
| "payload_len ControlChallenge = 80"
| "payload_len ControlProof = 32"
| "payload_len Registered = 38"
| "payload_len Open = 16"
| "payload_len OpenFailed = 17"
| "payload_len Ping = 8"
| "payload_len Pong = 8"
| "payload_len Goodbye = 0"
| "payload_len GoodbyeAck = 0"
| "payload_len ServerShutdown = 0"
| "payload_len DataReady = 0"
| "payload_len DataHello = 64"
| "payload_len DataChallenge = 64"
| "payload_len DataProof = 32"
| "payload_len Error = 2"

definition is_control :: "msg_type \<Rightarrow> bool" where
  "is_control ty =
     (ty \<in> {ControlHello, ControlChallenge, ControlProof, Registered, Open, OpenFailed, Ping, Pong,
            Goodbye, GoodbyeAck, ServerShutdown, Error})"

definition is_data :: "msg_type \<Rightarrow> bool" where
  "is_data ty = (ty \<in> {DataHello, DataChallenge, DataProof, DataReady, Error})"

datatype mode = Fresh | Resume

fun mode_as_u8 :: "mode \<Rightarrow> u8" where
  "mode_as_u8 Fresh = 0"
| "mode_as_u8 Resume = 1"

definition mode_from_u8 :: "u8 \<Rightarrow> (protocol_error, mode) result" where
  "mode_from_u8 value =
     (if value = 0 then Inr Fresh
      else if value = 1 then Inr Resume
      else Inl (protocol_error_new ''invalid registration mode''))"

datatype open_failure = TargetConnect | SetupTimeout | DataAuth | LocalCapacity

fun open_failure_as_u8 :: "open_failure \<Rightarrow> u8" where
  "open_failure_as_u8 TargetConnect = 1"
| "open_failure_as_u8 SetupTimeout = 2"
| "open_failure_as_u8 DataAuth = 3"
| "open_failure_as_u8 LocalCapacity = 4"

definition open_failure_from_u8 :: "u8 \<Rightarrow> (protocol_error, open_failure) result" where
  "open_failure_from_u8 value =
     (if value = 1 then Inr TargetConnect
      else if value = 2 then Inr SetupTimeout
      else if value = 3 then Inr DataAuth
      else if value = 4 then Inr LocalCapacity
      else Inl (protocol_error_new ''invalid OPEN_FAILED reason''))"

fun open_failure_message :: "open_failure \<Rightarrow> string" where
  "open_failure_message TargetConnect = ''client could not connect to its local target''"
| "open_failure_message SetupTimeout = ''client setup timed out''"
| "open_failure_message DataAuth = ''client data connection or authentication failed''"
| "open_failure_message LocalCapacity = ''client is at capacity or shutting down''"

lemma kind_from_as [simp]: "kind_from_u8 (kind_as_u8 k) = Inr k"
  by (cases k) (simp_all add: kind_from_u8_def)

lemma type_from_as [simp]: "type_from_u8 (type_as_u8 t) = Inr t"
  by (cases t) (simp_all add: type_from_u8_def)

lemma mode_from_as [simp]: "mode_from_u8 (mode_as_u8 m) = Inr m"
  by (cases m) (simp_all add: mode_from_u8_def)

lemma open_failure_from_as [simp]: "open_failure_from_u8 (open_failure_as_u8 f) = Inr f"
  by (cases f) (simp_all add: open_failure_from_u8_def)

lemma kind_as_from: "kind_from_u8 v = Inr k \<Longrightarrow> kind_as_u8 k = v"
  by (auto simp: kind_from_u8_def split: if_splits)

lemma type_as_from: "type_from_u8 v = Inr t \<Longrightarrow> type_as_u8 t = v"
  by (auto simp: type_from_u8_def split: if_splits)

lemma mode_as_from: "mode_from_u8 v = Inr m \<Longrightarrow> mode_as_u8 m = v"
  by (auto simp: mode_from_u8_def split: if_splits)

lemma open_failure_as_from: "open_failure_from_u8 v = Inr f \<Longrightarrow> open_failure_as_u8 f = v"
  by (auto simp: open_failure_from_u8_def split: if_splits)

lemma payload_len_max: "payload_len t \<le> MAX_PAYLOAD"
  by (cases t) (simp_all add: MAX_PAYLOAD_def)

lemma is_control_or_data: "is_control t \<or> is_data t"
  by (cases t) (simp_all add: is_control_def is_data_def)

lemma control_and_data_iff: "is_control t \<and> is_data t \<longleftrightarrow> t = Error"
  by (cases t) (simp_all add: is_control_def is_data_def)

subsection \<open>Preamble\<close>

definition encode_preamble :: "conn_kind \<Rightarrow> bytes" where
  "encode_preamble k =
     [MAGIC ! 0, MAGIC ! 1, MAGIC ! 2, MAGIC ! 3, VERSION, kind_as_u8 k, 0, 0]"

text \<open>The argument is an array of \<open>PREAMBLE_LEN\<close> bytes in the source.\<close>

definition decode_preamble :: "bytes \<Rightarrow> (protocol_error, conn_kind) result" where
  "decode_preamble bytes =
     (if slice_at 4 bytes 0 \<noteq> MAGIC then Inl (protocol_error_new ''bad magic'')
      else if bytes ! 4 \<noteq> VERSION then
        Inl (protocol_error_with_code UnsupportedVersion ''unsupported protocol version'')
      else if bytes ! 6 \<noteq> 0 \<or> bytes ! 7 \<noteq> 0 then
        Inl (protocol_error_new ''reserved bits must be zero'')
      else kind_from_u8 (bytes ! 5))"

lemma length_encode_preamble [simp]: "length (encode_preamble k) = 8"
  by (simp add: encode_preamble_def)

lemma preamble_roundtrip [simp]: "decode_preamble (encode_preamble k) = Inr k"
  by (simp add: decode_preamble_def encode_preamble_def MAGIC_def slice_at_def eval_nat_numeral)

lemma length_8_conv:
  "length xs = 8 \<longleftrightarrow> (\<exists>a b c d e f g h. xs = [a, b, c, d, e, f, g, h])"
  by (auto simp: length_Suc_conv eval_nat_numeral)

lemma preamble_canonical:
  assumes "length bs = PREAMBLE_LEN" and "decode_preamble bs = Inr k"
  shows "bs = encode_preamble k"
proof -
  from assms(1) obtain a b c d e f g h where bs: "bs = [a, b, c, d, e, f, g, h]"
    by (auto simp: PREAMBLE_LEN_def length_8_conv)
  with assms(2) show ?thesis
    by (auto simp: decode_preamble_def encode_preamble_def slice_at_def MAGIC_def eval_nat_numeral
        dest: kind_as_from split: if_splits)
qed

subsection \<open>Frames\<close>

record frame =
  ty :: msg_type
  payload :: bytes

definition frame_new :: "msg_type \<Rightarrow> bytes \<Rightarrow> frame" where
  "frame_new t p = \<lparr>ty = t, payload = p\<rparr>"

definition frame_empty :: "msg_type \<Rightarrow> frame" where
  "frame_empty t = \<lparr>ty = t, payload = []\<rparr>"

text \<open>\<open>self.payload.len() as u16\<close> truncates; \<open>of_nat\<close> into \<open>16 word\<close> does the same.\<close>

definition frame_encode :: "frame \<Rightarrow> bytes" where
  "frame_encode f = type_as_u8 (ty f) # to_be 2 (of_nat (length (payload f)) :: u16) @ payload f"

definition require_kind :: "frame \<Rightarrow> conn_kind \<Rightarrow> (protocol_error, unit) result" where
  "require_kind f k =
     (let ok = (case k of Control \<Rightarrow> is_control (ty f) | Data \<Rightarrow> is_data (ty f))
      in if ok then Inr () else Inl (protocol_error_new ''message type illegal on this connection''))"

definition require_type :: "frame \<Rightarrow> msg_type \<Rightarrow> (protocol_error, unit) result" where
  "require_type f expected =
     (if ty f = expected then Inr ()
      else if ty f = Error then Inl (protocol_error_new ''peer reported an error'')
      else Inl (protocol_error_new ''unexpected message for this state''))"

definition wf_frame :: "frame \<Rightarrow> bool" where
  "wf_frame f = (length (payload f) = payload_len (ty f))"

lemma frame_new_sel [simp]: "ty (frame_new t p) = t" "payload (frame_new t p) = p"
  by (simp_all add: frame_new_def)

lemma frame_empty_sel [simp]: "ty (frame_empty t) = t" "payload (frame_empty t) = []"
  by (simp_all add: frame_empty_def)

lemma frame_new_inject [simp]: "frame_new t p = frame_new t' p' \<longleftrightarrow> t = t' \<and> p = p'"
  by (simp add: frame_new_def)

lemma frame_new_eta [simp]: "frame_new (ty f) (payload f) = f"
  by (simp add: frame_new_def)

lemma frame_new_collapse: "ty f = t \<Longrightarrow> payload f = p \<Longrightarrow> f = frame_new t p"
  by auto

lemma wf_frame_new [simp]: "wf_frame (frame_new t p) \<longleftrightarrow> length p = payload_len t"
  by (simp add: wf_frame_def)

lemma require_type_ok [simp]: "require_type f t = Inr u \<longleftrightarrow> ty f = t"
  by (simp add: require_type_def)

lemma require_kind_ok [simp]:
  "require_kind f Control = Inr u \<longleftrightarrow> is_control (ty f)"
  "require_kind f Data = Inr u \<longleftrightarrow> is_data (ty f)"
  by (simp_all add: require_kind_def)

subsection \<open>The contract of a fixed-layout payload\<close>

locale payload_codec =
  fixes wf :: "'a \<Rightarrow> bool"
    and enc :: "'a \<Rightarrow> bytes"
    and dec :: "bytes \<Rightarrow> (protocol_error, 'a) result"
    and len :: nat
  assumes enc_len: "wf x \<Longrightarrow> length (enc x) = len"
    and dec_enc: "wf x \<Longrightarrow> dec (enc x) = Inr x"
    and enc_dec: "dec bs = Inr x \<Longrightarrow> enc x = bs"
    and dec_wf: "dec bs = Inr x \<Longrightarrow> wf x"
begin

lemma dec_iff: "dec bs = Inr x \<longleftrightarrow> wf x \<and> bs = enc x"
  using dec_enc enc_dec dec_wf by blast

lemma dec_len: "dec bs = Inr x \<Longrightarrow> length bs = len"
  by (auto simp: dec_iff enc_len)

lemma enc_inject: "wf x \<Longrightarrow> wf y \<Longrightarrow> enc x = enc y \<longleftrightarrow> x = y"
  by (metis dec_enc sum.inject(2))

lemma enc_append_inject:
  "wf x \<Longrightarrow> wf y \<Longrightarrow> enc x @ as = enc y @ bs \<longleftrightarrow> x = y \<and> as = bs"
  by (metis append_eq_append_conv enc_inject enc_len)

end

subsection \<open>Payloads\<close>

record control_hello =
  ch_instance_id :: instance_id
  ch_client_nonce :: nonce
  ch_mode :: mode
  ch_requested_port :: u16

definition control_hello_encode :: "control_hello \<Rightarrow> bytes" where
  "control_hello_encode h =
     ch_instance_id h @ ch_client_nonce h @ mode_as_u8 (ch_mode h) # to_be 2 (ch_requested_port h)"

definition control_hello_decode :: "bytes \<Rightarrow> (protocol_error, control_hello) result" where
  "control_hello_decode pl =
     (if length pl \<noteq> 51 then Inl (protocol_error_new ''CONTROL_HELLO length'')
      else and_then (mode_from_u8 (pl ! 48)) (\<lambda>mode.
        let requested_port = from_be [pl ! 49, pl ! 50] in
        if mode = Resume \<and> requested_port = 0 then
          Inl (protocol_error_with_code InvalidPort ''resume must request a specific port'')
        else if requested_port \<noteq> 0 \<and> requested_port < 1024 then
          Inl (protocol_error_with_code InvalidPort ''requested port must be 1024-65535'')
        else Inr \<lparr>ch_instance_id = slice_at 16 pl 0,
                  ch_client_nonce = slice_at 32 pl 16,
                  ch_mode = mode,
                  ch_requested_port = requested_port\<rparr>))"

definition wf_control_hello :: "control_hello \<Rightarrow> bool" where
  "wf_control_hello h =
     (length (ch_instance_id h) = 16 \<and> length (ch_client_nonce h) = 32 \<and>
      (ch_mode h = Resume \<longrightarrow> ch_requested_port h \<noteq> 0) \<and>
      (ch_requested_port h = 0 \<or> 1024 \<le> ch_requested_port h))"

record control_challenge =
  cc_server_nonce :: nonce
  cc_session_id :: session_id
  cc_server_mac :: mac

definition control_challenge_encode :: "control_challenge \<Rightarrow> bytes" where
  "control_challenge_encode c = cc_server_nonce c @ cc_session_id c @ cc_server_mac c"

definition control_challenge_decode :: "bytes \<Rightarrow> (protocol_error, control_challenge) result" where
  "control_challenge_decode pl =
     (if length pl \<noteq> 80 then Inl (protocol_error_new ''CONTROL_CHALLENGE length'')
      else Inr \<lparr>cc_server_nonce = slice_at 32 pl 0,
                cc_session_id = slice_at 16 pl 32,
                cc_server_mac = slice_at 32 pl 48\<rparr>)"

definition wf_control_challenge :: "control_challenge \<Rightarrow> bool" where
  "wf_control_challenge c =
     (length (cc_server_nonce c) = 32 \<and> length (cc_session_id c) = 16 \<and> length (cc_server_mac c) = 32)"

record registered =
  rg_assigned_port :: u16
  rg_max_connections :: u32
  rg_ready_mac :: mac

definition registered_encode :: "registered \<Rightarrow> bytes" where
  "registered_encode r =
     to_be 2 (rg_assigned_port r) @ to_be 4 (rg_max_connections r) @ rg_ready_mac r"

definition registered_decode :: "bytes \<Rightarrow> (protocol_error, registered) result" where
  "registered_decode pl =
     (if length pl \<noteq> 38 then Inl (protocol_error_new ''REGISTERED length'')
      else let assigned_port = from_be [pl ! 0, pl ! 1] in
        if assigned_port < 1024 then
          Inl (protocol_error_with_code InvalidPort ''assigned port must be 1024-65535'')
        else let max_connections = from_be (slice_at 4 pl 2) in
          if max_connections = 0 then
            Inl (protocol_error_new ''advertised maximum must be nonzero'')
          else Inr \<lparr>rg_assigned_port = assigned_port,
                    rg_max_connections = max_connections,
                    rg_ready_mac = slice_at 32 pl 6\<rparr>)"

definition wf_registered :: "registered \<Rightarrow> bool" where
  "wf_registered r =
     (1024 \<le> rg_assigned_port r \<and> rg_max_connections r \<noteq> 0 \<and> length (rg_ready_mac r) = 32)"

record open_failed =
  of_request_id :: request_id
  of_reason :: open_failure

definition open_failed_encode :: "open_failed \<Rightarrow> bytes" where
  "open_failed_encode m = of_request_id m @ [open_failure_as_u8 (of_reason m)]"

definition open_failed_decode :: "bytes \<Rightarrow> (protocol_error, open_failed) result" where
  "open_failed_decode pl =
     (if length pl \<noteq> 17 then Inl (protocol_error_new ''OPEN_FAILED length'')
      else and_then (open_failure_from_u8 (pl ! 16)) (\<lambda>reason.
        Inr \<lparr>of_request_id = slice_at 16 pl 0, of_reason = reason\<rparr>))"

definition wf_open_failed :: "open_failed \<Rightarrow> bool" where
  "wf_open_failed m = (length (of_request_id m) = 16)"

record data_hello =
  dh_session_id :: session_id
  dh_request_id :: request_id
  dh_client_nonce :: nonce

definition data_hello_encode :: "data_hello \<Rightarrow> bytes" where
  "data_hello_encode h = dh_session_id h @ dh_request_id h @ dh_client_nonce h"

definition data_hello_decode :: "bytes \<Rightarrow> (protocol_error, data_hello) result" where
  "data_hello_decode pl =
     (if length pl \<noteq> 64 then Inl (protocol_error_new ''DATA_HELLO length'')
      else Inr \<lparr>dh_session_id = slice_at 16 pl 0,
                dh_request_id = slice_at 16 pl 16,
                dh_client_nonce = slice_at 32 pl 32\<rparr>)"

definition wf_data_hello :: "data_hello \<Rightarrow> bool" where
  "wf_data_hello h =
     (length (dh_session_id h) = 16 \<and> length (dh_request_id h) = 16 \<and> length (dh_client_nonce h) = 32)"

record data_challenge =
  dc_server_nonce :: nonce
  dc_server_mac :: mac

definition data_challenge_encode :: "data_challenge \<Rightarrow> bytes" where
  "data_challenge_encode c = dc_server_nonce c @ dc_server_mac c"

definition data_challenge_decode :: "bytes \<Rightarrow> (protocol_error, data_challenge) result" where
  "data_challenge_decode pl =
     (if length pl \<noteq> 64 then Inl (protocol_error_new ''DATA_CHALLENGE length'')
      else Inr \<lparr>dc_server_nonce = slice_at 32 pl 0, dc_server_mac = slice_at 32 pl 32\<rparr>)"

definition wf_data_challenge :: "data_challenge \<Rightarrow> bool" where
  "wf_data_challenge c = (length (dc_server_nonce c) = 32 \<and> length (dc_server_mac c) = 32)"

definition decode_request_id :: "bytes \<Rightarrow> (protocol_error, request_id) result" where
  "decode_request_id pl =
     (if length pl \<noteq> 16 then Inl (protocol_error_new ''OPEN length'')
      else Inr (slice_at 16 pl 0))"

definition decode_sequence :: "bytes \<Rightarrow> (protocol_error, u64) result" where
  "decode_sequence pl =
     (if length pl \<noteq> 8 then Inl (protocol_error_new ''PING/PONG length'')
      else Inr (from_be (slice_at 8 pl 0)))"

definition decode_error :: "bytes \<Rightarrow> (protocol_error, error_code) result" where
  "decode_error pl =
     (if length pl \<noteq> 2 then Inl (protocol_error_new ''ERROR length'')
      else ok_or (protocol_error_new ''unknown error code'')
             (error_code_from_u16 (from_be [pl ! 0, pl ! 1])))"

text \<open>The \<open>ERROR\<close> payload, as \<open>write_error\<close> and \<open>Outbound::error\<close> build it.\<close>

definition encode_error :: "error_code \<Rightarrow> bytes" where
  "encode_error c = to_be 2 (as_u16 c)"

lemmas [codec_defs] =
  control_hello_encode_def control_hello_decode_def wf_control_hello_def
  control_challenge_encode_def control_challenge_decode_def wf_control_challenge_def
  registered_encode_def registered_decode_def wf_registered_def
  open_failed_encode_def open_failed_decode_def wf_open_failed_def
  data_hello_encode_def data_hello_decode_def wf_data_hello_def
  data_challenge_encode_def data_challenge_decode_def wf_data_challenge_def
  decode_request_id_def decode_sequence_def decode_error_def encode_error_def

subsection \<open>Every payload meets the contract\<close>

lemma to_be_2_nth: "[to_be 2 w ! 0, to_be 2 w ! Suc 0] = to_be 2 w"
  using slice_two [of 0 "to_be 2 w"] by (simp add: slice_whole)

lemma from_be_two: "Suc at < length bs \<Longrightarrow> to_be 2 (from_be [bs ! at, bs ! Suc at] :: u16) = slice_at 2 bs at"
  by (simp add: be_simps slice_two)

interpretation open_msg: payload_codec "\<lambda>r. length r = 16" "\<lambda>r. r" decode_request_id 16
  by unfold_locales (auto simp: codec_defs slice_whole split: if_splits)

interpretation ping: payload_codec "\<lambda>_. True" "to_be 8" decode_sequence 8
  by unfold_locales (auto simp: codec_defs slice_whole be_simps split: if_splits)

interpretation error_msg: payload_codec "\<lambda>_. True" encode_error decode_error 2
proof (unfold_locales, goal_cases)
  case (2 x)
  show ?case by (simp add: codec_defs to_be_2_nth)
next
  case (3 bs x)
  then have "length bs = 2" and "as_u16 x = from_be [bs ! 0, bs ! Suc 0]"
    by (auto simp: codec_defs dest: as_u16_from_u16 split: if_splits)
  then show ?case
    using from_be_two [of 0 bs] by (simp add: encode_error_def slice_whole)
qed (simp_all add: codec_defs)

interpretation data_challenge: payload_codec
  wf_data_challenge data_challenge_encode data_challenge_decode 64
  by unfold_locales
    (auto simp: codec_defs slice_simps slice_whole slice_join [where at = 0, simplified] split: if_splits)

interpretation data_hello: payload_codec wf_data_hello data_hello_encode data_hello_decode 64
proof (unfold_locales, goal_cases)
  case (3 bs x)
  then show ?case
    using slice_join [of 16 bs 16 32] slice_join [of 16 bs 0 48]
    by (auto simp: codec_defs slice_whole split: if_splits)
qed (auto simp: codec_defs slice_simps split: if_splits)

interpretation control_challenge: payload_codec
  wf_control_challenge control_challenge_encode control_challenge_decode 80
proof (unfold_locales, goal_cases)
  case (3 bs x)
  then show ?case
    using slice_join [of 16 bs 32 32] slice_join [of 32 bs 0 48]
    by (auto simp: codec_defs slice_whole split: if_splits)
qed (auto simp: codec_defs slice_simps split: if_splits)

interpretation open_failed: payload_codec wf_open_failed open_failed_encode open_failed_decode 17
proof (unfold_locales, goal_cases)
  case (3 bs x)
  then show ?case
    using slice_join [of 16 bs 0 1] slice_one [of 16 bs]
    by (auto simp: codec_defs slice_whole and_then_eq_Inr open_failure_as_from split: if_splits)
qed (auto simp: codec_defs slice_simps and_then_eq_Inr split: if_splits)

interpretation registered: payload_codec wf_registered registered_encode registered_decode 38
proof (unfold_locales, goal_cases)
  case (2 x)
  then show ?case
    using to_be_2_nth [of "rg_assigned_port x"]
    by (simp add: codec_defs slice_simps nth_append Let_def not_less)
next
  case (3 bs x)
  then have "length bs = 38" by (auto simp: codec_defs split: if_splits)
  with 3 show ?case
    using slice_join [of 4 bs 2 32] slice_join [of 2 bs 0 36] from_be_two [of 0 bs]
    by (auto simp: codec_defs slice_whole be_simps Let_def simp flip: numeral_2_eq_2 split: if_splits)
qed (auto simp: codec_defs Let_def not_less split: if_splits)

interpretation control_hello: payload_codec
  wf_control_hello control_hello_encode control_hello_decode 51
proof (unfold_locales, goal_cases)
  case (2 x)
  then show ?case
    using to_be_2_nth [of "ch_requested_port x"]
    by (auto simp: codec_defs slice_simps nth_append Let_def not_less)
next
  case (3 bs x)
  then have "length bs = 51" by (auto simp: codec_defs split: if_splits)
  moreover from this have "bs ! 48 # slice_at 2 bs 49 = slice_at 3 bs 48"
    using slice_join [of 1 bs 48 2] slice_one [of 48 bs, symmetric] by (simp add: numeral_3_eq_3)
  ultimately show ?case
    using 3 slice_join [of 32 bs 16 3] slice_join [of 16 bs 0 35] from_be_two [of 49 bs]
    by (auto simp: codec_defs slice_whole and_then_eq_Inr mode_as_from Let_def split: if_splits)
qed (auto simp: codec_defs Let_def not_less and_then_eq_Inr split: if_splits)

end
