(* ===== verification/Handshake_Auth.thy ===== *)
theory Handshake_Auth
  imports Wire_Protocol
begin

text \<open>
  \<open>src/auth.rs\<close>: transcripts, message authentication codes and random identifiers.

  HMAC-SHA-256 comes from the \<open>hmac\<close> and \<open>sha2\<close> packages and is a parameter
  \<open>hmac :: bytes \<Rightarrow> bytes \<Rightarrow> bytes\<close> (key, message) of every definition that authenticates. Feeding
  it a label and then a transcript authenticates their concatenation, and verifying compares the
  whole code; those two facts of the packages' interface are in the definitions of \<open>mac\<close> and
  \<open>verify\<close>. The outcome of a call to the entropy source is an argument too (\<open>draw\<close>).
\<close>

type_synonym hmac = "bytes \<Rightarrow> bytes \<Rightarrow> bytes"
type_synonym draw = "(string, bytes) result"

definition bytes_of :: "string \<Rightarrow> bytes" where
  "bytes_of s = map of_char s"

definition LABEL_CONTROL_SERVER :: bytes where
  "LABEL_CONTROL_SERVER = bytes_of ''tunlet/v1/control/server'' @ [0]"

definition LABEL_CONTROL_CLIENT :: bytes where
  "LABEL_CONTROL_CLIENT = bytes_of ''tunlet/v1/control/client'' @ [0]"

definition LABEL_CONTROL_READY :: bytes where
  "LABEL_CONTROL_READY = bytes_of ''tunlet/v1/control/ready'' @ [0]"

definition LABEL_DATA_SERVER :: bytes where
  "LABEL_DATA_SERVER = bytes_of ''tunlet/v1/data/server'' @ [0]"

definition LABEL_DATA_CLIENT :: bytes where
  "LABEL_DATA_CLIENT = bytes_of ''tunlet/v1/data/client'' @ [0]"

lemmas label_defs = LABEL_CONTROL_SERVER_def LABEL_CONTROL_CLIENT_def LABEL_CONTROL_READY_def
  LABEL_DATA_SERVER_def LABEL_DATA_CLIENT_def

definition random :: "draw \<Rightarrow> (app_error, bytes) result" where
  "random d = map_err (\<lambda>e. Runtime (''operating-system entropy unavailable: '' @ e)) d"

text \<open>The array type \<open>[u8; N]\<close> of a successful draw.\<close>

definition wf_draw :: "nat \<Rightarrow> draw \<Rightarrow> bool" where
  "wf_draw n d = (case d of Inl _ \<Rightarrow> True | Inr b \<Rightarrow> length b = n)"

definition mac :: "hmac \<Rightarrow> bytes \<Rightarrow> bytes \<Rightarrow> bytes \<Rightarrow> bytes" where
  "mac hmac key label transcript = hmac key (label @ transcript)"

definition verify :: "hmac \<Rightarrow> bytes \<Rightarrow> bytes \<Rightarrow> bytes \<Rightarrow> bytes \<Rightarrow> bool" where
  "verify hmac key label transcript proof' = (hmac key (label @ transcript) = proof')"

definition control_transcript :: "control_hello \<Rightarrow> nonce \<Rightarrow> session_id \<Rightarrow> bytes" where
  "control_transcript hello server_nonce session_id =
     encode_preamble Control @ control_hello_encode hello @ server_nonce @ session_id"

definition ready_transcript :: "bytes \<Rightarrow> u16 \<Rightarrow> u32 \<Rightarrow> bytes" where
  "ready_transcript transcript assigned_port max_connections =
     transcript @ to_be 2 assigned_port @ to_be 4 max_connections"

definition data_transcript :: "data_hello \<Rightarrow> nonce \<Rightarrow> bytes" where
  "data_transcript hello server_nonce =
     encode_preamble Data @ data_hello_encode hello @ server_nonce"

subsection \<open>Random draws\<close>

lemma random_Inr [simp]: "random d = Inr b \<longleftrightarrow> d = Inr b"
  by (simp add: random_def)

lemma random_simps [simp]:
  "random (Inr b) = Inr b"
  "random (Inl e) = Inl (Runtime (''operating-system entropy unavailable: '' @ e))"
  by (simp_all add: random_def)

lemma wf_draw_Inr [simp]: "wf_draw n (Inr b) \<longleftrightarrow> length b = n"
  by (simp add: wf_draw_def)

subsection \<open>Domain separation and transcript injectivity\<close>

text \<open>No label contains a zero byte before its last one, so a label can be read off any message.\<close>

definition is_label :: "bytes \<Rightarrow> bool" where
  "is_label l = (l \<noteq> [] \<and> last l = 0 \<and> 0 \<notin> set (butlast l))"

lemma label_cut:
  assumes "is_label l"
  shows "takeWhile (\<lambda>b. b \<noteq> 0) (l @ t) = butlast l"
proof -
  have "l = butlast l @ [0]" and nz: "\<forall>b \<in> set (butlast l). b \<noteq> 0"
    using assms by (metis append_butlast_last_id is_label_def) (use assms in \<open>auto simp: is_label_def\<close>)
  then have "l @ t = butlast l @ 0 # t"
    by (metis append_Cons append_Nil append_assoc)
  moreover have "takeWhile (\<lambda>b. b \<noteq> 0) (butlast l @ 0 # t) = butlast l"
    using nz by (simp add: takeWhile_append2)
  ultimately show ?thesis by (simp only:)
qed

lemma label_append_inject:
  assumes "is_label l" and "is_label l'"
  shows "l @ t = l' @ t' \<longleftrightarrow> l = l' \<and> t = t'"
proof
  assume eq: "l @ t = l' @ t'"
  then have "butlast l = butlast l'" using assms label_cut by metis
  then have "l = l'" using assms by (metis append_butlast_last_id is_label_def)
  with eq show "l = l' \<and> t = t'" by simp
qed simp

lemma labels_ok [simp]:
  "is_label LABEL_CONTROL_SERVER" "is_label LABEL_CONTROL_CLIENT" "is_label LABEL_CONTROL_READY"
  "is_label LABEL_DATA_SERVER" "is_label LABEL_DATA_CLIENT"
  by (simp_all add: is_label_def label_defs bytes_of_def)

lemma labels_distinct:
  "distinct [LABEL_CONTROL_SERVER, LABEL_CONTROL_CLIENT, LABEL_CONTROL_READY,
     LABEL_DATA_SERVER, LABEL_DATA_CLIENT]"
  by (simp add: label_defs bytes_of_def)

lemma control_transcript_inject:
  assumes "wf_control_hello h" and "wf_control_hello h'"
    and "length n = 32" and "length n' = 32"
  shows "control_transcript h n s = control_transcript h' n' s' \<longleftrightarrow> h = h' \<and> n = n' \<and> s = s'"
  using assms by (auto simp: control_transcript_def control_hello.enc_append_inject)

lemma data_transcript_inject:
  assumes "wf_data_hello h" and "wf_data_hello h'"
  shows "data_transcript h n = data_transcript h' n' \<longleftrightarrow> h = h' \<and> n = n'"
  using assms by (auto simp: data_transcript_def data_hello.enc_append_inject)

lemma ready_transcript_inject:
  "ready_transcript t p m = ready_transcript t' p' m' \<longleftrightarrow> t = t' \<and> p = p' \<and> m = m'"
  by (auto simp: ready_transcript_def)

lemma length_control_transcript:
  "wf_control_hello h \<Longrightarrow> length n = 32 \<Longrightarrow> length s = 16 \<Longrightarrow> length (control_transcript h n s) = 107"
  by (simp add: control_transcript_def control_hello.enc_len)

text \<open>
  What a successful verification says about a code made for another purpose or transcript: either it
  was made for exactly this one, or HMAC collides on two different messages.
\<close>

definition hmac_collision :: "hmac \<Rightarrow> bytes \<Rightarrow> bytes \<Rightarrow> bytes \<Rightarrow> bool" where
  "hmac_collision hmac key m m' = (m \<noteq> m' \<and> hmac key m = hmac key m')"

lemma verify_mac [simp]: "verify hmac key l t (mac hmac key l t)"
  by (simp add: verify_def mac_def)

lemma verify_other:
  assumes "is_label l" and "is_label l'" and "verify hmac key l t (mac hmac key l' t')"
  shows "l = l' \<and> t = t' \<or> hmac_collision hmac key (l @ t) (l' @ t')"
  using assms by (auto simp: verify_def mac_def hmac_collision_def label_append_inject)

end
