(* ===== verification/Server_Registry.thy ===== *)
theory Server_Registry
  imports Assoc_Maps Settings Handshake_Auth
begin

text \<open>
  \<open>src/server/registry.rs\<close>: the actor that owns every public port, session and pending request.

  Each method of \<open>Registry\<close> is a function from the actor's state to its reply, its new state and
  the effects it has on objects that other tasks share. Sockets, queues, cancellation tokens and
  one-shot channels belong to tokio and to the operating system; the actor only holds handles to them
  (numbers here), and what a call on one of them answers is an argument, collected in \<open>env\<close>:
  \<^item> \<open>now\<close>: the clock, read at most once per command;
  \<^item> \<open>bind_outcome\<close>: \<open>net::bind_listener\<close> at an address and port;
  \<^item> \<open>send_ok\<close>: whether \<open>try_send\<close> of a message on a writer queue succeeds;
  \<^item> \<open>acquire_ok\<close>: whether \<open>try_acquire_owned\<close> on a semaphore succeeds;
  \<^item> \<open>draws\<close>: the successive answers of the entropy source;
  \<^item> \<open>deliver_ok\<close>: whether the task behind a one-shot sender still waits;
  \<^item> \<open>fresh_token\<close>, \<open>fresh_sender\<close>: handles for newly created objects.

  A result \<open>None\<close> of a handler means that it does not return: the generation counter overflowed
  (a panic, which aborts the process) or the entropy source repeats pending identifiers for ever.
\<close>

named_theorems registry_defs \<open>the actor's operations\<close>

type_synonym token = nat
type_synonym writer = nat
type_synonym sock = nat
type_synonym sender = nat

definition MAX_SLOTS :: nat where
  "MAX_SLOTS = 1024"

definition MAX_GLOBAL_CONNECTIONS :: nat where
  "MAX_GLOBAL_CONNECTIONS = 8192"

definition MAX_HANDSHAKES :: nat where
  "MAX_HANDSHAKES = 1024"

definition COMMAND_CAPACITY :: nat where
  "COMMAND_CAPACITY = 1024"

definition WRITER_CAPACITY :: nat where
  "WRITER_CAPACITY = 512"

subsection \<open>Messages\<close>

datatype outbound = OutFrame frame | CloseAfterFlush

definition outbound_frame :: "msg_type \<Rightarrow> bytes \<Rightarrow> outbound" where
  "outbound_frame t p = OutFrame (frame_new t p)"

definition outbound_error :: "error_code \<Rightarrow> outbound" where
  "outbound_error c = outbound_frame Error (to_be 2 (as_u16 c))"

record register_request =
  rq_session_id :: session_id
  rq_instance_id :: instance_id
  rq_mode :: mode
  rq_requested_port :: u16
  rq_writer :: writer
  rq_data_cancel :: token
  rq_control_cancel :: token

record registration =
  rn_assigned_port :: u16
  rn_max_connections :: u32
  rn_generation :: u64

datatype claim_outcome = Delivered | Rejected error_code "sock option"

datatype command =
    CmdRegister register_request
  | CmdAcceptedPublic u64 u16 sock socket_addr instant
  | CmdClaimData session_id request_id sock
  | CmdPeekData session_id request_id
  | CmdOpenFailed session_id request_id open_failure
  | CmdSessionLost session_id u64
  | CmdGoodbye session_id u64
  | CmdRequestFinished session_id request_id
  | CmdShutdown

datatype reply =
    NoReply
  | RegisterReply "(error_code, registration) result"
  | ClaimReply claim_outcome
  | PeekReply bool
  | UnitReply

subsection \<open>State\<close>

text \<open>A semaphore handle carries the number of permits it was created with.\<close>

datatype semaphore = SessionPermits u64 nat | GlobalPermits nat

record session_ref =
  sr_session_id :: session_id
  sr_instance_id :: instance_id
  sr_generation :: u64
  sr_port :: u16
  sr_writer :: writer
  sr_data_cancel :: token
  sr_control_cancel :: token
  sr_permits :: semaphore

datatype slot_state =
    Active session_ref
  | Reserved instance_id u64 instant

record port_slot =
  ps_listener_id :: u64
  ps_listener_cancel :: token
  ps_state :: slot_state

record pending_request =
  pr_generation :: u64
  pr_deadline :: instant
  pr_sender :: sender

record registry =
  reg_config :: server_config
  reg_timing :: timing
  ports :: "(u16 \<times> port_slot) list"
  sessions :: "(session_id \<times> session_ref) list"
  pending :: "((session_id \<times> request_id) \<times> pending_request) list"
  global_connections :: semaphore
  next_generation :: u64
  next_listener_id :: u64

definition registry_new :: "server_config \<Rightarrow> timing \<Rightarrow> registry" where
  "registry_new config timing =
     \<lparr>reg_config = config, reg_timing = timing, ports = [], sessions = [], pending = [],
      global_connections = GlobalPermits MAX_GLOBAL_CONNECTIONS,
      next_generation = 1, next_listener_id = 1\<rparr>"

record env =
  now :: instant
  bind_outcome :: "ip_addr \<Rightarrow> u16 \<Rightarrow> (io_error, unit) result"
  send_ok :: "writer \<Rightarrow> outbound \<Rightarrow> bool"
  acquire_ok :: "semaphore \<Rightarrow> bool"
  draws :: "nat \<Rightarrow> draw"
  deliver_ok :: "sender \<Rightarrow> bool"
  fresh_token :: token
  fresh_sender :: sender

datatype effect =
    Sent writer outbound
  | CancelToken token
  | ListenerSpawned u64 u16 token
  | PublicSpawned session_id request_id sock instant token sender
  | DelayedCancel duration token
  | SocketDropped sock
  | SocketHanded sender sock

definition try_send :: "env \<Rightarrow> writer \<Rightarrow> outbound \<Rightarrow> effect list" where
  "try_send env w m = (if send_ok env w m then [Sent w m] else [])"

subsection \<open>Operations\<close>

definition take_generation :: "registry \<Rightarrow> (u64 \<times> registry) option" where
  "take_generation r =
     (if next_generation r = - 1 then None
      else Some (next_generation r, r\<lparr>next_generation := next_generation r + 1\<rparr>))"

definition drop_pending_for :: "session_id \<Rightarrow> registry \<Rightarrow> registry" where
  "drop_pending_for sid r = r\<lparr>pending := mretain (\<lambda>(s, _) _. s \<noteq> sid) (pending r)\<rparr>"

definition is_port_taken :: "io_error \<Rightarrow> bool" where
  "is_port_taken e = (kind e \<in> {AddrInUse, PermissionDenied})"

text \<open>\<open>next_listener_id += 1\<close> wraps in a release build, as word addition does.\<close>

definition bind_slot :: "env \<Rightarrow> u16 \<Rightarrow> registry \<Rightarrow> (error_code, u64) result \<times> registry \<times> effect list" where
  "bind_slot env p r =
     (case bind_outcome env (sc_data_bind (reg_config r)) p of
        Inl e \<Rightarrow> (Inl (if is_port_taken e then PortUnavailable else InternalError), r, [])
      | Inr _ \<Rightarrow>
          let listener_id = next_listener_id r;
              slot = \<lparr>ps_listener_id = listener_id, ps_listener_cancel = fresh_token env,
                      ps_state = Reserved (replicate 16 0) 0 (now env + reservation (reg_timing r))\<rparr>
          in (Inr listener_id,
              r\<lparr>next_listener_id := next_listener_id r + 1, ports := bt_insert p slot (ports r)\<rparr>,
              [ListenerSpawned listener_id p (fresh_token env)]))"

definition ensure_slot ::
  "env \<Rightarrow> u16 \<Rightarrow> instance_id \<Rightarrow> bool \<Rightarrow> registry \<Rightarrow> (error_code, unit) result \<times> registry \<times> effect list" where
  "ensure_slot env p instance_id exclusive_new r =
     (if mcontains (ports r) p then
        (if exclusive_new then (Inl Replaced, r, []) else (Inr (), r, []))
      else if length (ports r) \<ge> MAX_SLOTS then (Inl ServerBusy, r, [])
      else case bind_slot env p r of
          (Inl c, r', es) \<Rightarrow> (Inl c, r', es)
        | (Inr _, r', es) \<Rightarrow> (Inr (), r', es))"

fun slot_owner :: "slot_state \<Rightarrow> instance_id" where
  "slot_owner (Active session) = sr_instance_id session"
| "slot_owner (Reserved instance_id _ _) = instance_id"

definition port_range :: "u16 \<times> u16 \<Rightarrow> u16 list" where
  "port_range r = map of_nat [unat (fst r)..<Suc (unat (snd r))]"

fun scan_ports :: "env \<Rightarrow> u16 list \<Rightarrow> registry \<Rightarrow> (error_code, u16) result \<times> registry \<times> effect list" where
  "scan_ports env [] r = (Inl NoPortAvailable, r, [])"
| "scan_ports env (p # ps) r =
     (if p = sa_port (sc_listen (reg_config r)) \<or> mcontains (ports r) p then scan_ports env ps r
      else case bind_slot env p r of
          (Inr _, r', es) \<Rightarrow> (Inr p, r', es)
        | (Inl PortUnavailable, r', es) \<Rightarrow> scan_ports env ps r'
        | (Inl c, r', es) \<Rightarrow> (Inl c, r', es))"

definition allocate_automatic ::
  "env \<Rightarrow> instance_id \<Rightarrow> registry \<Rightarrow> (error_code, u16) result \<times> registry \<times> effect list" where
  "allocate_automatic env instance_id r =
     (case find (\<lambda>(p, slot). slot_owner (ps_state slot) = instance_id) (ports r) of
        Some (p, _) \<Rightarrow> (Inr p, r, [])
      | None \<Rightarrow>
          if length (ports r) \<ge> MAX_SLOTS then (Inl ServerBusy, r, [])
          else scan_ports env (port_range (sc_allowed_ports (reg_config r))) r)"

definition displace :: "env \<Rightarrow> session_ref \<Rightarrow> registry \<Rightarrow> registry \<times> effect list" where
  "displace env previous r =
     (drop_pending_for (sr_session_id previous)
        (r\<lparr>sessions := mrem (sr_session_id previous) (sessions r)\<rparr>),
      [CancelToken (sr_data_cancel previous)] @
      try_send env (sr_writer previous) (outbound_error Replaced) @
      try_send env (sr_writer previous) CloseAfterFlush @
      [DelayedCancel (takeover_flush (reg_timing r)) (sr_control_cancel previous)])"

text \<open>The choice of the port, the first half of \<open>register\<close>.\<close>

definition select_port ::
  "env \<Rightarrow> register_request \<Rightarrow> registry \<Rightarrow> (error_code, u16) result \<times> registry \<times> effect list" where
  "select_port env req r =
     (let p = rq_requested_port req in
      if rq_mode req = Fresh \<and> p = 0 then allocate_automatic env (rq_instance_id req) r
      else if rq_mode req = Fresh then
        (case ensure_slot env p (rq_instance_id req) False r of
           (Inl c, r', es) \<Rightarrow> (Inl c, r', es)
         | (Inr _, r', es) \<Rightarrow> (Inr p, r', es))
      else
        (case mget (ports r) p of
           Some slot \<Rightarrow>
             if slot_owner (ps_state slot) \<noteq> rq_instance_id req then (Inl Replaced, r, [])
             else (Inr p, r, [])
         | None \<Rightarrow>
             (case ensure_slot env p (rq_instance_id req) True r of
                (Inl c, r', es) \<Rightarrow> (Inl c, r', es)
              | (Inr _, r', es) \<Rightarrow> (Inr p, r', es))))"

text \<open>
  The second half: install the new owner on the chosen port. \<open>None\<close> is the panic of
  \<open>expect("slot exists after allocation")\<close> or of the generation counter.
\<close>

definition install ::
  "env \<Rightarrow> register_request \<Rightarrow> u16 \<Rightarrow> registry \<Rightarrow> (registration \<times> registry \<times> effect list) option" where
  "install env req p r =
     (case take_generation r of
        None \<Rightarrow> None
      | Some (generation, r1) \<Rightarrow>
          let session =
                \<lparr>sr_session_id = rq_session_id req, sr_instance_id = rq_instance_id req,
                 sr_generation = generation, sr_port = p, sr_writer = rq_writer req,
                 sr_data_cancel = rq_data_cancel req, sr_control_cancel = rq_control_cancel req,
                 sr_permits = SessionPermits generation (unat (sc_max_connections (reg_config r)))\<rparr>
          in case mget (ports r1) p of
               None \<Rightarrow> None
             | Some slot \<Rightarrow>
                 let r2 = r1\<lparr>ports := bt_insert p (slot\<lparr>ps_state := Active session\<rparr>) (ports r1)\<rparr>;
                     (r3, es) = (case ps_state slot of
                                   Active previous \<Rightarrow> displace env previous r2
                                 | Reserved _ _ _ \<Rightarrow> (r2, []));
                     r4 = r3\<lparr>sessions := hm_insert (rq_session_id req) session (sessions r3)\<rparr>
                 in Some (\<lparr>rn_assigned_port = p, rn_max_connections = sc_max_connections (reg_config r),
                           rn_generation = generation\<rparr>, r4, es))"

definition register ::
  "env \<Rightarrow> register_request \<Rightarrow> registry \<Rightarrow>
     ((error_code, registration) result \<times> registry \<times> effect list) option" where
  "register env req r =
     (if rq_requested_port req \<noteq> 0 \<and> rq_requested_port req = sa_port (sc_listen (reg_config r))
      then Some (Inl InvalidPort, r, [])
      else case select_port env req r of
          (Inl c, r', es) \<Rightarrow> Some (Inl c, r', es)
        | (Inr p, r', es) \<Rightarrow>
            (case install env req p r' of
               None \<Rightarrow> None
             | Some (registration, r'', es') \<Rightarrow> Some (Inr registration, r'', es @ es')))"

text \<open>
  The identifier loop of \<open>accepted_public\<close>: draw until the identifier is not pending for the
  session. The inner result is \<open>None\<close> when the entropy source fails.
\<close>

partial_function (option) fresh_request_id ::
  "(nat \<Rightarrow> draw) \<Rightarrow> (request_id \<Rightarrow> bool) \<Rightarrow> nat \<Rightarrow> request_id option option" where
  "fresh_request_id ds taken i =
     (case random (ds i) of
        Inl _ \<Rightarrow> Some None
      | Inr rid \<Rightarrow> if taken rid then fresh_request_id ds taken (Suc i) else Some (Some rid))"

definition session_lost :: "env \<Rightarrow> session_id \<Rightarrow> u64 \<Rightarrow> registry \<Rightarrow> registry \<times> effect list" where
  "session_lost env sid generation r =
     (case mget (sessions r) sid of
        None \<Rightarrow> (r, [])
      | Some session \<Rightarrow>
          if sr_generation session \<noteq> generation then (r, [])
          else
            let p = sr_port session;
                still_current = (case map_option ps_state (mget (ports r) p) of
                                   Some (Active current) \<Rightarrow> sr_generation current = generation
                                 | _ \<Rightarrow> False);
                r1 = drop_pending_for sid (r\<lparr>sessions := mrem sid (sessions r)\<rparr>);
                es = [CancelToken (sr_data_cancel session), CancelToken (sr_control_cancel session)]
            in if \<not> still_current then (r1, es)
               else
                 let expires_at = now env + reservation (reg_timing r)
                 in (case mget (ports r1) p of
                       None \<Rightarrow> (r1, es)
                     | Some slot \<Rightarrow>
                         (r1\<lparr>ports := bt_insert p
                              (slot\<lparr>ps_state := Reserved (sr_instance_id session) generation expires_at\<rparr>)
                              (ports r1)\<rparr>, es)))"

definition accepted_public ::
  "env \<Rightarrow> u64 \<Rightarrow> u16 \<Rightarrow> sock \<Rightarrow> instant \<Rightarrow> registry \<Rightarrow> (registry \<times> effect list) option" where
  "accepted_public env listener_id p socket at r =
     (case mget (ports r) p of
        None \<Rightarrow> Some (r, [SocketDropped socket])
      | Some slot \<Rightarrow>
          if ps_listener_id slot \<noteq> listener_id then Some (r, [SocketDropped socket])
          else case ps_state slot of
              Reserved _ _ _ \<Rightarrow> Some (r, [SocketDropped socket])
            | Active session \<Rightarrow>
                if \<not> acquire_ok env (sr_permits session) then Some (r, [SocketDropped socket])
                else if \<not> acquire_ok env (global_connections r) then Some (r, [SocketDropped socket])
                else case fresh_request_id (draws env)
                       (\<lambda>rid. mcontains (pending r) (sr_session_id session, rid)) 0 of
                    None \<Rightarrow> None
                  | Some None \<Rightarrow> Some (r, [SocketDropped socket])
                  | Some (Some request_id) \<Rightarrow>
                      let deadline = at + request_wait (reg_timing r);
                          message = outbound_frame Open request_id
                      in if \<not> send_ok env (sr_writer session) message then
                           (case session_lost env (sr_session_id session) (sr_generation session) r of
                              (r', es) \<Rightarrow> Some (r', es @ [SocketDropped socket]))
                         else
                           let entry = \<lparr>pr_generation = sr_generation session, pr_deadline = deadline,
                                        pr_sender = fresh_sender env\<rparr>
                           in Some (r\<lparr>pending := hm_insert (sr_session_id session, request_id) entry (pending r)\<rparr>,
                                    [Sent (sr_writer session) message,
                                     PublicSpawned (sr_session_id session) request_id socket deadline
                                       (sr_data_cancel session) (fresh_sender env)]))"

definition claim ::
  "env \<Rightarrow> session_id \<Rightarrow> request_id \<Rightarrow> sock \<Rightarrow> registry \<Rightarrow> claim_outcome \<times> registry \<times> effect list" where
  "claim env sid rid socket r =
     (let reject = (Rejected RequestUnavailable (Some socket), r, []) in
      case mget (sessions r) sid of
        None \<Rightarrow> reject
      | Some session \<Rightarrow>
          (case mget (pending r) (sid, rid) of
             None \<Rightarrow> reject
           | Some entry \<Rightarrow>
               if pr_generation entry \<noteq> sr_generation session \<or> pr_deadline entry \<le> now env then reject
               else
                 let r1 = r\<lparr>pending := mrem (sid, rid) (pending r)\<rparr>
                 in if deliver_ok env (pr_sender entry)
                    then (Delivered, r1, [SocketHanded (pr_sender entry) socket])
                    else (Rejected RequestUnavailable (Some socket), r1, [])))"

definition goodbye :: "env \<Rightarrow> session_id \<Rightarrow> u64 \<Rightarrow> registry \<Rightarrow> registry \<times> effect list" where
  "goodbye env sid generation r =
     (case mget (sessions r) sid of
        None \<Rightarrow> (r, [])
      | Some session \<Rightarrow>
          if sr_generation session \<noteq> generation then (r, [])
          else
            let p = sr_port session;
                r1 = drop_pending_for sid (r\<lparr>sessions := mrem sid (sessions r)\<rparr>);
                es = [CancelToken (sr_data_cancel session)];
                release = (case map_option ps_state (mget (ports r1) p) of
                             Some (Active current) \<Rightarrow> sr_generation current = generation
                           | _ \<Rightarrow> False)
            in if release then
                 (case mget (ports r1) p of
                    None \<Rightarrow> (r1, es)
                  | Some slot \<Rightarrow>
                      (r1\<lparr>ports := mrem p (ports r1)\<rparr>, es @ [CancelToken (ps_listener_cancel slot)]))
               else (r1, es))"

fun slot_expired :: "instant \<Rightarrow> slot_state \<Rightarrow> bool" where
  "slot_expired t (Reserved _ _ expires_at) = (expires_at \<le> t)"
| "slot_expired t (Active _) = False"

fun release_ports :: "u16 list \<Rightarrow> registry \<Rightarrow> registry \<times> effect list" where
  "release_ports [] r = (r, [])"
| "release_ports (p # ps) r =
     (case mget (ports r) p of
        None \<Rightarrow> release_ports ps r
      | Some slot \<Rightarrow>
          (case release_ports ps (r\<lparr>ports := mrem p (ports r)\<rparr>) of
             (r', es) \<Rightarrow> (r', CancelToken (ps_listener_cancel slot) # es)))"

definition sweep :: "instant \<Rightarrow> registry \<Rightarrow> registry \<times> effect list" where
  "sweep t r =
     (let r1 = r\<lparr>pending := mretain (\<lambda>_ entry. pr_deadline entry > t) (pending r)\<rparr>;
          expired = map fst (filter (\<lambda>(p, slot). slot_expired t (ps_state slot)) (ports r1))
      in release_ports expired r1)"

definition shutdown_all :: "env \<Rightarrow> registry \<Rightarrow> registry \<times> effect list" where
  "shutdown_all env r =
     (r\<lparr>pending := [], ports := [], sessions := []\<rparr>,
      concat (map (\<lambda>session.
          try_send env (sr_writer session) (outbound_frame ServerShutdown []) @
          try_send env (sr_writer session) CloseAfterFlush @
          [CancelToken (sr_data_cancel session)]) (mvalues (sessions r))) @
      map (\<lambda>slot. CancelToken (ps_listener_cancel slot)) (mvalues (ports r)))"

definition peek :: "env \<Rightarrow> session_id \<Rightarrow> request_id \<Rightarrow> registry \<Rightarrow> bool" where
  "peek env sid rid r =
     (case mget (pending r) (sid, rid) of None \<Rightarrow> False | Some entry \<Rightarrow> pr_deadline entry > now env)"

text \<open>The dispatcher: the reply, whether the actor stops, the new state and the effects.\<close>

fun handle_command ::
  "env \<Rightarrow> command \<Rightarrow> registry \<Rightarrow> (reply \<times> bool \<times> registry \<times> effect list) option" where
  "handle_command env (CmdRegister req) r =
     (case register env req r of
        None \<Rightarrow> None
      | Some (outcome, r', es) \<Rightarrow> Some (RegisterReply outcome, False, r', es))"
| "handle_command env (CmdAcceptedPublic listener_id p socket peer at) r =
     (case accepted_public env listener_id p socket at r of
        None \<Rightarrow> None
      | Some (r', es) \<Rightarrow> Some (NoReply, False, r', es))"
| "handle_command env (CmdPeekData sid rid) r =
     Some (PeekReply (peek env sid rid r), False, r, [])"
| "handle_command env (CmdClaimData sid rid socket) r =
     (case claim env sid rid socket r of
        (outcome, r', es) \<Rightarrow> Some (ClaimReply outcome, False, r', es))"
| "handle_command env (CmdOpenFailed sid rid reason) r =
     Some (NoReply, False, r\<lparr>pending := mrem (sid, rid) (pending r)\<rparr>, [])"
| "handle_command env (CmdSessionLost sid generation) r =
     (case session_lost env sid generation r of (r', es) \<Rightarrow> Some (NoReply, False, r', es))"
| "handle_command env (CmdGoodbye sid generation) r =
     (case goodbye env sid generation r of (r', es) \<Rightarrow> Some (UnitReply, False, r', es))"
| "handle_command env (CmdRequestFinished sid rid) r =
     Some (NoReply, False, r\<lparr>pending := mrem (sid, rid) (pending r)\<rparr>, [])"
| "handle_command env CmdShutdown r =
     (case shutdown_all env r of (r', es) \<Rightarrow> Some (UnitReply, True, r', es))"

text \<open>
  \<open>Registry::run\<close>: sweeps and commands in the order they are taken, until a shutdown command or the
  end of the channel (the end of the list); then \<open>shutdown_all\<close> once more.
\<close>

datatype input = Tick instant | Cmd env command

fun run_loop :: "input list \<Rightarrow> registry \<Rightarrow> (reply list \<times> registry \<times> effect list) option" where
  "run_loop [] r = Some ([], r, [])"
| "run_loop (Tick t # is) r =
     (case sweep t r of (r1, es) \<Rightarrow>
        map_option (\<lambda>(reps, r2, es2). (reps, r2, es @ es2)) (run_loop is r1))"
| "run_loop (Cmd env c # is) r =
     (case handle_command env c r of
        None \<Rightarrow> None
      | Some (rep, stop, r1, es) \<Rightarrow>
          if stop then Some ([rep], r1, es)
          else map_option (\<lambda>(reps, r2, es2). (rep # reps, r2, es @ es2)) (run_loop is r1))"

definition registry_run ::
  "env \<Rightarrow> input list \<Rightarrow> registry \<Rightarrow> (reply list \<times> registry \<times> effect list) option" where
  "registry_run final is r =
     (case run_loop is r of
        None \<Rightarrow> None
      | Some (reps, r1, es) \<Rightarrow>
          (case shutdown_all final r1 of (r2, es2) \<Rightarrow> Some (reps, r2, es @ es2)))"

lemmas [registry_defs] =
  take_generation_def drop_pending_for_def bind_slot_def ensure_slot_def allocate_automatic_def
  displace_def select_port_def install_def register_def session_lost_def accepted_public_def
  claim_def goodbye_def sweep_def shutdown_all_def peek_def

end
