(* ===== verification/Registry_Handle.thy ===== *)
theory Registry_Handle
  imports Server_Registry
begin

text \<open>
  The \<open>RegistryHandle\<close> of \<open>src/server/registry.rs\<close>, through which the other tasks talk to the actor.
  A request with an answer makes of what came back (the actor's reply, or \<open>None\<close> when the channel is
  closed or the actor dropped the reply) the answer its caller sees. The other methods send one command
  and ignore whether it arrived; they are that command.
\<close>

subsection \<open>Requests with an answer\<close>

fun handle_register :: "reply option \<Rightarrow> (error_code, registration) result" where
  "handle_register (Some (RegisterReply r)) = r"
| "handle_register _ = Inl InternalError"

fun handle_peek :: "reply option \<Rightarrow> bool" where
  "handle_peek (Some (PeekReply b)) = b"
| "handle_peek _ = False"

fun handle_claim :: "reply option \<Rightarrow> claim_outcome" where
  "handle_claim (Some (ClaimReply out)) = out"
| "handle_claim _ = Rejected InternalError None"

subsection \<open>Notices\<close>

definition handle_session_lost :: "session_id \<Rightarrow> u64 \<Rightarrow> command" where
  [simp]: "handle_session_lost sid generation = CmdSessionLost sid generation"

definition handle_goodbye :: "session_id \<Rightarrow> u64 \<Rightarrow> command" where
  [simp]: "handle_goodbye sid generation = CmdGoodbye sid generation"

definition handle_open_failed :: "session_id \<Rightarrow> request_id \<Rightarrow> open_failure \<Rightarrow> command" where
  [simp]: "handle_open_failed sid rid reason = CmdOpenFailed sid rid reason"

definition handle_shutdown :: command where
  [simp]: "handle_shutdown = CmdShutdown"

end
