(* ===== verification/Frame_IO.thy ===== *)
theory Frame_IO
  imports Wire_Protocol
begin

text \<open>
  The asynchronous readers and writers of \<open>src/protocol.rs\<close> over a socket.

  A socket seen by one handshake (\<open>conn\<close>) is the bytes the peer will deliver, the I/O error an exact
  read reports when they run out, the outcome of the writes to come, the bytes written so far and
  whether the write side was shut down. A failing write says how many of its bytes still went out. Since everything a peer may send, in
  reaction to what it receives or not, is some byte string, a statement for all \<open>incoming\<close> is a
  statement for every peer.

  Operations are functions \<open>conn \<Rightarrow> result \<times> conn\<close>, sequenced by \<open>io_bind\<close>, which stops at the
  first error as the \<open>?\<close> operator does.
\<close>

named_theorems io_simps \<open>evaluation of socket operations\<close>

record conn =
  incoming :: bytes
  read_fail :: io_error
  write_fails :: "(nat \<times> io_error) option list"
  outgoing :: bytes
  write_closed :: bool

type_synonym ('e, 'a) eio = "conn \<Rightarrow> ('e, 'a) result \<times> conn"
type_synonym 'a io = "(app_error, 'a) eio"

definition io_return :: "'a \<Rightarrow> ('e, 'a) eio" where
  "io_return a c = (Inr a, c)"

definition io_fail :: "'e \<Rightarrow> ('e, 'a) eio" where
  "io_fail e c = (Inl e, c)"

definition io_lift :: "('e, 'a) result \<Rightarrow> ('e, 'a) eio" where
  "io_lift r c = (r, c)"

definition io_bind :: "('e, 'a) eio \<Rightarrow> ('a \<Rightarrow> ('e, 'b) eio) \<Rightarrow> ('e, 'b) eio" where
  "io_bind m f c = (case m c of (Inl e, d) \<Rightarrow> (Inl e, d) | (Inr a, d) \<Rightarrow> f a d)"

text \<open>\<open>map_err\<close> on the outcome of an operation.\<close>

definition io_map_err :: "('e \<Rightarrow> 'f) \<Rightarrow> ('e, 'a) eio \<Rightarrow> ('f, 'a) eio" where
  "io_map_err g m c = (case m c of (r, d) \<Rightarrow> (map_err g r, d))"

text \<open>Clean up after a failure, which is then passed on.\<close>

definition io_or_else :: "('e, 'a) eio \<Rightarrow> ('e, unit) eio \<Rightarrow> ('e, 'a) eio" where
  "io_or_else m cleanup c =
     (case m c of (Inr a, d) \<Rightarrow> (Inr a, d) | (Inl e, d) \<Rightarrow> (Inl e, snd (cleanup d)))"

lemma io_or_else_Inr: "io_or_else m cl c = (Inr a, d) \<longleftrightarrow> m c = (Inr a, d)"
  by (auto simp: io_or_else_def split: prod.splits sum.splits)

lemma io_or_else_Inl: "io_or_else m cl c = (Inl e, d) \<longleftrightarrow> (\<exists>d'. m c = (Inl e, d') \<and> d = snd (cl d'))"
  by (auto simp: io_or_else_def split: prod.splits sum.splits)

lemma io_simps1 [simp, io_simps]:
  "io_return a c = (Inr a, c)" "io_fail e c = (Inl e, c)" "io_lift r c = (r, c)"
  by (simp_all add: io_return_def io_fail_def io_lift_def)

lemma io_bind_eq:
  "m c = (Inr a, d) \<Longrightarrow> io_bind m f c = f a d"
  "m c = (Inl e, d) \<Longrightarrow> io_bind m f c = (Inl e, d)"
  by (simp_all add: io_bind_def)

lemma io_bind_lift [simp, io_simps]:
  "io_bind (io_lift (Inr a)) f c = f a c" "io_bind (io_lift (Inl e)) f c = (Inl e, c)"
  by (simp_all add: io_bind_def)

lemma io_bind_Inr:
  "io_bind m f c = (Inr b, d) \<longleftrightarrow> (\<exists>a c'. m c = (Inr a, c') \<and> f a c' = (Inr b, d))"
  by (auto simp: io_bind_def split: prod.splits sum.splits)

lemma io_bind_Inl:
  "io_bind m f c = (Inl e, d) \<longleftrightarrow>
     m c = (Inl e, d) \<or> (\<exists>a c'. m c = (Inr a, c') \<and> f a c' = (Inl e, d))"
  by (auto simp: io_bind_def split: prod.splits sum.splits)

lemma io_map_err_Inr: "io_map_err g m c = (Inr a, d) \<longleftrightarrow> m c = (Inr a, d)"
  by (auto simp: io_map_err_def map_err_def split: prod.splits sum.splits)

lemma io_map_err_eq:
  "m c = (Inr a, d) \<Longrightarrow> io_map_err g m c = (Inr a, d)"
  "m c = (Inl e, d) \<Longrightarrow> io_map_err g m c = (Inl (g e), d)"
  by (simp_all add: io_map_err_def map_err_def)

subsection \<open>Exact reads and complete writes\<close>

definition read_exact :: "nat \<Rightarrow> bytes io" where
  "read_exact n c =
     (if n \<le> length (incoming c)
      then (Inr (take n (incoming c)), c\<lparr>incoming := drop n (incoming c)\<rparr>)
      else (Inl (Io (read_fail c)), c\<lparr>incoming := []\<rparr>))"

definition write_all :: "bytes \<Rightarrow> unit io" where
  "write_all bs c =
     (case write_fails c of
        [] \<Rightarrow> (Inr (), c\<lparr>outgoing := outgoing c @ bs\<rparr>)
      | None # ws \<Rightarrow> (Inr (), c\<lparr>outgoing := outgoing c @ bs, write_fails := ws\<rparr>)
      | Some (n, e) # ws \<Rightarrow>
          (Inl (Io e), c\<lparr>outgoing := outgoing c @ take n bs, write_fails := ws\<rparr>))"

definition flush :: "unit io" where
  "flush = write_all []"

text \<open>\<open>let _ = socket.shutdown().await\<close>: an error is ignored.\<close>

definition shutdown :: "('e, unit) eio" where
  "shutdown c = (Inr (), c\<lparr>write_closed := True\<rparr>)"

lemma shutdown_eq [simp, io_simps]: "shutdown c = (Inr (), c\<lparr>write_closed := True\<rparr>)"
  by (simp add: shutdown_def)

lemma read_exact_ok:
  "read_exact n c = (Inr bs, d) \<longleftrightarrow>
     incoming c = bs @ incoming d \<and> length bs = n \<and> d = c\<lparr>incoming := incoming d\<rparr>"
  by (auto simp: read_exact_def)

lemma read_exact_append [simp, io_simps]:
  "incoming c = bs @ rest \<Longrightarrow> length bs = n \<Longrightarrow>
   read_exact n c = (Inr bs, c\<lparr>incoming := rest\<rparr>)"
  by (simp add: read_exact_def)

lemma read_exact_err:
  "read_exact n c = (Inl e, d) \<longleftrightarrow>
     length (incoming c) < n \<and> e = Io (read_fail c) \<and> d = c\<lparr>incoming := []\<rparr>"
  by (auto simp: read_exact_def)

lemma write_all_ok [simp, io_simps]:
  "write_fails c = [] \<Longrightarrow> write_all bs c = (Inr (), c\<lparr>outgoing := outgoing c @ bs\<rparr>)"
  by (simp add: write_all_def)

lemma write_all_incoming: "write_all bs c = (r, d) \<Longrightarrow> incoming d = incoming c"
  by (auto simp: write_all_def split: list.splits option.splits)

lemma write_all_Io: "write_all bs c = (Inl e, d) \<Longrightarrow> \<exists>i. e = Io i"
  by (auto simp: write_all_def split: list.splits option.splits)

subsection \<open>Preamble and frames on a socket\<close>

definition write_preamble :: "conn_kind \<Rightarrow> unit io" where
  "write_preamble k = write_all (encode_preamble k)"

definition read_preamble :: "conn_kind io" where
  "read_preamble =
     io_bind (read_exact PREAMBLE_LEN) (\<lambda>bytes. io_lift (lift_protocol (decode_preamble bytes)))"

definition read_frame :: "frame io" where
  "read_frame =
     io_bind (read_exact HEADER_LEN) (\<lambda>header.
       let declared = unat (from_be [header ! 1, header ! 2] :: u16) in
       if declared > MAX_PAYLOAD then io_fail (app_error_protocol ''payload length too large'')
       else io_bind (io_lift (lift_protocol (type_from_u8 (header ! 0)))) (\<lambda>t.
         if declared \<noteq> payload_len t then
           io_fail (app_error_protocol ''payload length does not match message type'')
         else io_bind (read_exact declared) (\<lambda>p. io_return (frame_new t p))))"

definition write_frame :: "frame \<Rightarrow> unit io" where
  "write_frame f =
     (if length (payload f) > MAX_PAYLOAD then io_fail (app_error_protocol ''payload too large'')
      else io_bind (write_all (frame_encode f)) (\<lambda>_. flush))"

definition write_message :: "msg_type \<Rightarrow> bytes \<Rightarrow> unit io" where
  "write_message t p = write_frame (frame_new t p)"

definition write_error :: "error_code \<Rightarrow> unit io" where
  "write_error c = write_message Error (to_be 2 (as_u16 c))"

subsection \<open>Behaviour of the frame reader\<close>

lemma small_len_u16: "n \<le> MAX_PAYLOAD \<Longrightarrow> unat (of_nat n :: u16) = n"
  by (simp add: MAX_PAYLOAD_def unat_of_nat take_bit_nat_eq_self)

lemma frame_encode_header:
  "frame_encode f = [type_as_u8 (ty f), to_be 2 (of_nat (length (payload f)) :: u16) ! 0,
      to_be 2 (of_nat (length (payload f)) :: u16) ! 1] @ payload f"
  using to_be_2_nth [of "of_nat (length (payload f)) :: u16"]
  by (simp add: frame_encode_def)

lemma read_frame_encode:
  assumes "wf_frame f" and "incoming c = frame_encode f @ rest"
  shows "read_frame c = (Inr f, c\<lparr>incoming := rest\<rparr>)"
proof -
  let ?n = "of_nat (length (payload f)) :: u16"
  let ?h = "[type_as_u8 (ty f), to_be 2 ?n ! 0, to_be 2 ?n ! 1]"
  have len: "length (payload f) = payload_len (ty f)" using assms(1) by (simp add: wf_frame_def)
  then have decl: "unat (from_be [?h ! 1, ?h ! 2] :: u16) = payload_len (ty f)"
    using to_be_2_nth [of ?n] payload_len_max [of "ty f"] by (simp add: small_len_u16)
  have hdr: "read_exact HEADER_LEN c = (Inr ?h, c\<lparr>incoming := payload f @ rest\<rparr>)"
    using assms(2) by (subst read_exact_append) (simp_all add: frame_encode_header HEADER_LEN_def)
  have body: "read_exact (payload_len (ty f)) (c\<lparr>incoming := payload f @ rest\<rparr>) =
      (Inr (payload f), c\<lparr>incoming := rest\<rparr>)"
    using len by simp
  show ?thesis
    unfolding read_frame_def io_bind_eq(1) [where m = "read_exact HEADER_LEN", OF hdr] Let_def decl
    using payload_len_max [of "ty f"]
    by (simp add: io_bind_eq(1) [where m = "read_exact (payload_len (ty f))", OF body])
qed

lemma header_decode:
  assumes "length header = HEADER_LEN"
    and "type_from_u8 (header ! 0) = Inr t"
    and "unat (from_be [header ! 1, header ! 2] :: u16) = length p"
  shows "header @ p = frame_encode (frame_new t p)"
proof -
  obtain a b d where h: "header = [a, b, d]"
    using assms(1) by (auto simp: HEADER_LEN_def length_Suc_conv eval_nat_numeral)
  have "to_be 2 (of_nat (length p) :: u16) = [b, d]"
    using assms(3) by (simp add: h be_simps flip: assms(3))
  then show ?thesis
    using assms(2) by (simp add: h frame_encode_def type_as_from)
qed

lemma read_frame_Inr:
  assumes "read_frame c = (Inr f, d)"
  shows "wf_frame f \<and> incoming c = frame_encode f @ incoming d \<and> d = c\<lparr>incoming := incoming d\<rparr>"
proof -
  from assms obtain header c1 t where
    hdr: "read_exact HEADER_LEN c = (Inr header, c1)"
    and t: "type_from_u8 (header ! 0) = Inr t"
    and decl: "unat (from_be [header ! 1, header ! 2] :: u16) = payload_len t"
    and body: "read_exact (payload_len t) c1 = (Inr (payload f), d)" and f: "ty f = t"
    by (auto simp: read_frame_def io_bind_Inr Let_def split: if_splits)
  have len: "length (payload f) = payload_len t" using body by (simp add: read_exact_ok)
  have "header @ payload f = frame_encode (frame_new t (payload f))"
    using hdr t decl len by (intro header_decode) (simp_all add: read_exact_ok)
  then show ?thesis
    using hdr body f len by (auto simp: read_exact_ok wf_frame_def)
qed

lemma read_frame_iff:
  "read_frame c = (Inr f, d) \<longleftrightarrow>
     wf_frame f \<and> incoming c = frame_encode f @ incoming d \<and> d = c\<lparr>incoming := incoming d\<rparr>"
proof
  assume "wf_frame f \<and> incoming c = frame_encode f @ incoming d \<and> d = c\<lparr>incoming := incoming d\<rparr>"
  then show "read_frame c = (Inr f, d)"
    using read_frame_encode [of f c "incoming d"] by simp
qed (rule read_frame_Inr)

lemma read_frame_outgoing: "read_frame c = (r, d) \<Longrightarrow> outgoing d = outgoing c \<and> write_fails d = write_fails c"
  by (auto simp: read_frame_def io_bind_def read_exact_def Let_def split: if_splits sum.splits prod.splits)

lemma write_frame_ok [simp, io_simps]:
  assumes "write_fails c = []" and "length (payload f) \<le> MAX_PAYLOAD"
  shows "write_frame f c = (Inr (), c\<lparr>outgoing := outgoing c @ frame_encode f\<rparr>)"
  using assms by (simp add: write_frame_def flush_def io_bind_eq)

lemma write_frame_incoming: "write_frame f c = (r, d) \<Longrightarrow> incoming d = incoming c"
  by (auto simp: write_frame_def flush_def io_bind_def
      dest!: write_all_incoming split: if_splits sum.splits prod.splits)

lemma write_preamble_ok [simp, io_simps]:
  "write_fails c = [] \<Longrightarrow>
   write_preamble k c = (Inr (), c\<lparr>outgoing := outgoing c @ encode_preamble k\<rparr>)"
  by (simp add: write_preamble_def)

lemma read_preamble_encode [simp, io_simps]:
  "incoming c = encode_preamble k @ rest \<Longrightarrow>
   read_preamble c = (Inr k, c\<lparr>incoming := rest\<rparr>)"
  by (simp add: read_preamble_def io_bind_def PREAMBLE_LEN_def)

lemma frame_encode_append_inject:
  assumes "wf_frame f" and "wf_frame g"
  shows "frame_encode f @ as = frame_encode g @ bs \<longleftrightarrow> f = g \<and> as = bs"
proof
  let ?c = "\<lparr>incoming = frame_encode f @ as, read_fail = undefined, write_fails = [], outgoing = [],
    write_closed = False\<rparr>"
  assume eq: "frame_encode f @ as = frame_encode g @ bs"
  have "read_frame ?c = (Inr f, ?c\<lparr>incoming := as\<rparr>)"
    using assms(1) by (rule read_frame_encode) simp
  moreover have "read_frame ?c = (Inr g, ?c\<lparr>incoming := bs\<rparr>)"
    using assms(2) by (rule read_frame_encode) (simp add: eq)
  ultimately show "f = g \<and> as = bs" by simp
qed simp

end
