(* ===== verification/Heartbeat.thy ===== *)
theory Heartbeat
  imports Registry_Handle Frame_IO
begin

text \<open>
  What the session loops of \<open>src/server/control.rs\<close> and \<open>src/client/control.rs\<close> have in common: the
  two ends run the same writer task, the same reader task and the same heartbeat inside a biased
  \<open>select!\<close>. One turn of a loop is a function of a snapshot of what is ready (\<open>poll\<close>); the locale
  \<open>heartbeat_loop\<close> is the contract a turn keeps towards the heartbeat, and what both ends get from it:
  at most one ping is unanswered, and a peer that stops answering is noticed at its deadline.
\<close>

subsection \<open>Snapshots and turns\<close>

text \<open>
  A snapshot: whether the loop's cancellation token is set, the clock, whether the ping interval has
  elapsed, the head of the frame channel (\<open>None\<close>: nothing yet; \<open>Some None\<close>: closed) and the answers of
  \<open>try_send\<close> on the outbound queue.
\<close>

record poll =
  po_cancelled :: bool
  po_now :: instant
  po_tick :: bool
  po_incoming :: "(app_error, frame) result option option"
  po_send_ok :: "outbound \<Rightarrow> bool"

record heartbeat =
  sequence :: u64
  outstanding :: "(u64 \<times> instant) option"

text \<open>What the client's loop hands to the task that answers an OPEN (\<open>src/client/data.rs\<close>).\<close>

record open_context =
  oc_request_id :: request_id
  oc_session_id :: session_id
  oc_server_addr :: socket_addr
  oc_target :: endpoint
  oc_key :: string
  oc_writer :: writer
  oc_timing :: timing
  oc_cancel :: token

text \<open>What a handler does to the objects it shares with other tasks.\<close>

datatype action =
    Queue outbound
  | Request command
  | SpawnOpen open_context
  | Cancel token

datatype 'a turn = Continue heartbeat | Break 'a

definition heartbeat_initial :: heartbeat where
  "heartbeat_initial = \<lparr>sequence = 0, outstanding = None\<rparr>"

definition queue_if :: "'p poll_scheme \<Rightarrow> outbound \<Rightarrow> action list" where
  "queue_if po m = (if po_send_ok po m then [Queue m] else [])"

definition pong_due :: "'p poll_scheme \<Rightarrow> heartbeat \<Rightarrow> bool" where
  "pong_due po hb = (case outstanding hb of None \<Rightarrow> False | Some (_, deadline) \<Rightarrow> deadline \<le> po_now po)"

definition ping_frame :: "u64 \<Rightarrow> outbound" where
  "ping_frame n = outbound_frame Ping (to_be 8 n)"

definition pong_frame :: "u64 \<Rightarrow> outbound" where
  "pong_frame n = outbound_frame Pong (to_be 8 n)"

definition accept_pong :: "u64 \<Rightarrow> heartbeat \<Rightarrow> heartbeat" where
  "accept_pong v hb =
     (case outstanding hb of
        Some (expected, _) \<Rightarrow> if expected = v then hb\<lparr>outstanding := None\<rparr> else hb
      | None \<Rightarrow> hb)"

text \<open>The ping branch: at most one unacknowledged ping, numbered with a wrapping counter.\<close>

definition ping_turn :: "timing \<Rightarrow> 'a \<Rightarrow> 'p poll_scheme \<Rightarrow> heartbeat \<Rightarrow> 'a turn \<times> action list" where
  "ping_turn tm lost po hb =
     (if outstanding hb \<noteq> None then (Continue hb, [])
      else
        let n = sequence hb + 1 in
        if \<not> po_send_ok po (ping_frame n) then (Break lost, [])
        else (Continue \<lparr>sequence = n, outstanding = Some (n, po_now po + heartbeat_timeout tm)\<rparr>,
              [Queue (ping_frame n)]))"

text \<open>A loop over the snapshots to come. \<open>None\<close>: still running when they end.\<close>

fun select_loop ::
  "('p \<Rightarrow> heartbeat \<Rightarrow> 'a turn \<times> action list) \<Rightarrow> 'p list \<Rightarrow> heartbeat \<Rightarrow> 'a option \<times> action list" where
  "select_loop iter [] hb = (None, [])"
| "select_loop iter (po # pos) hb =
     (case iter po hb of
        (Break x, as) \<Rightarrow> (Some x, as)
      | (Continue hb', as) \<Rightarrow>
          (case select_loop iter pos hb' of (r, as') \<Rightarrow> (r, as @ as')))"

text \<open>The heartbeat with which the loop goes on after these snapshots; \<open>None\<close>: it ended in one of them.\<close>

fun loop_state :: "('p \<Rightarrow> heartbeat \<Rightarrow> 'a turn \<times> action list) \<Rightarrow> 'p list \<Rightarrow> heartbeat \<Rightarrow> heartbeat option" where
  "loop_state iter [] hb = Some hb"
| "loop_state iter (po # pos) hb =
     (case fst (iter po hb) of Break _ \<Rightarrow> None | Continue hb' \<Rightarrow> loop_state iter pos hb')"

lemma select_loop_last:
  assumes "select_loop iter pos hb = (Some x, as)"
  shows "\<exists>pre po post hb' as'. pos = pre @ po # post \<and> loop_state iter pre hb = Some hb' \<and> iter po hb' = (Break x, as')"
  using assms
proof (induction pos arbitrary: hb as)
  case (Cons po pos)
  obtain t bs where it: "iter po hb = (t, bs)" by fastforce
  show ?case
  proof (cases t)
    case (Continue hb')
    then obtain bs' where "select_loop iter pos hb' = (Some x, bs')" using Cons.prems it by (auto split: prod.splits)
    from Cons.IH [OF this] obtain pre po' post hb'' as' where
      "pos = pre @ po' # post" "loop_state iter pre hb' = Some hb''" "iter po' hb'' = (Break x, as')" by blast
    then show ?thesis using it Continue
      by (intro exI [of _ "po # pre"] exI [of _ po'] exI [of _ post] exI [of _ hb''] exI [of _ as']) simp
  next
    case (Break y)
    then show ?thesis using Cons.prems it
      by (intro exI [of _ "[]"] exI [of _ po] exI [of _ pos] exI [of _ hb] exI [of _ bs]) simp
  qed
qed simp

lemma select_loop_break:
  assumes "loop_state iter pre hb = Some hb'" and "iter po hb' = (Break x, as)"
  shows "fst (select_loop iter (pre @ po # post) hb) = Some x"
  using assms
proof (induction pre arbitrary: hb)
  case (Cons q pre)
  then obtain hb1 bs where it: "iter q hb = (Continue hb1, bs)" "loop_state iter pre hb1 = Some hb'"
    by (cases "iter q hb") (auto split: turn.splits)
  from Cons.IH [OF this(2) Cons.prems(2)] show ?case using it(1) by (simp add: case_prod_beta)
qed simp

subsection \<open>Writer and reader tasks\<close>

text \<open>
  The messages are those taken from the queue until it closes. For each write, \<open>stalls\<close> says whether
  it outlasts the write deadline, and how many of its bytes went out by then. \<open>write_queue\<close> is the
  loop; afterwards the half is shut down and the token cancelled.
\<close>

definition stall :: "nat \<Rightarrow> frame \<Rightarrow> conn \<Rightarrow> conn" where
  "stall n f c = c\<lparr>outgoing := outgoing c @ take n (frame_encode f)\<rparr>"

fun write_queue :: "nat option list \<Rightarrow> outbound list \<Rightarrow> conn \<Rightarrow> conn" where
  "write_queue stalls [] c = c"
| "write_queue stalls (CloseAfterFlush # ms) c = c"
| "write_queue stalls (OutFrame f # ms) c =
     (case stalls of
        Some n # _ \<Rightarrow> stall n f c
      | _ \<Rightarrow>
          (case write_frame f c of
             (Inl e, d) \<Rightarrow> d
           | (Inr _, d) \<Rightarrow> write_queue (tl stalls) ms d))"

definition writer_loop :: "token \<Rightarrow> nat option list \<Rightarrow> outbound list \<Rightarrow> conn \<Rightarrow> conn \<times> action list" where
  "writer_loop tok stalls ms c = ((write_queue stalls ms c)\<lparr>write_closed := True\<rparr>, [Cancel tok])"

text \<open>\<open>turns\<close> is the number of frames read before the token is cancelled or the receiver is gone.\<close>

definition check_control :: "(app_error, frame) result \<Rightarrow> (app_error, frame) result" where
  "check_control r =
     and_then r (\<lambda>frame. and_then (lift_protocol (require_kind frame Control)) (\<lambda>_. Inr frame))"

fun read_frames :: "nat \<Rightarrow> conn \<Rightarrow> (app_error, frame) result list \<times> conn" where
  "read_frames 0 c = ([], c)"
| "read_frames (Suc turns) c =
     (case read_frame c of
        (Inl e, d) \<Rightarrow> ([check_control (Inl e)], d)
      | (Inr f, d) \<Rightarrow>
          (case read_frames turns d of (rs, d') \<Rightarrow> (check_control (Inr f) # rs, d')))"

fun frames_until_close :: "outbound list \<Rightarrow> frame list" where
  "frames_until_close [] = []"
| "frames_until_close (CloseAfterFlush # ms) = []"
| "frames_until_close (OutFrame f # ms) = f # frames_until_close ms"

lemma write_queue_complete:
  assumes "\<forall>f \<in> set (frames_until_close ms). length (payload f) \<le> MAX_PAYLOAD"
    and "write_fails c = []" and "set stalls \<subseteq> {None}"
  shows "write_queue stalls ms c =
    c\<lparr>outgoing := outgoing c @ concat (map frame_encode (frames_until_close ms))\<rparr>"
  using assms
proof (induction stalls ms c rule: write_queue.induct)
  case (3 stalls f ms c)
  have "set (tl stalls) \<subseteq> {None}" using 3(5) by (cases stalls) auto
  moreover have "stalls = [] \<or> hd stalls = None" using 3(5) by (cases stalls) auto
  ultimately show ?case using 3 by (cases stalls) simp_all
qed simp_all

text \<open>Whatever fails, the peer sees a prefix of the queued frames, the last one possibly cut short.\<close>

lemma write_all_prefix:
  "write_all bs c = (r, d) \<Longrightarrow> \<exists>n. outgoing d = outgoing c @ take n bs"
  by (auto simp: write_all_def split: list.splits option.splits intro: exI [of _ "length bs"])

lemma write_frame_prefix:
  assumes "write_frame f c = (r, d)"
  shows "\<exists>n. outgoing d = outgoing c @ take n (frame_encode f)"
proof (cases "length (payload f) > MAX_PAYLOAD")
  case True
  then show ?thesis using assms by (auto simp: write_frame_def intro: exI [of _ 0])
next
  case False
  obtain r1 d1 where w: "write_all (frame_encode f) c = (r1, d1)" by (cases "write_all (frame_encode f) c")
  obtain n where n: "outgoing d1 = outgoing c @ take n (frame_encode f)" using write_all_prefix [OF w] by blast
  have "outgoing d = outgoing d1"
    using assms False w write_all_prefix [of "[]" d1]
    by (auto simp: write_frame_def flush_def io_bind_def split: sum.splits)
  with n show ?thesis by auto
qed

lemma write_frame_complete:
  assumes "write_frame f c = (Inr u, d)"
  shows "outgoing d = outgoing c @ frame_encode f"
proof -
  have whole: "outgoing d' = outgoing c' @ bs" if "write_all bs c' = (Inr v, d')" for bs c' d' v
    using that by (auto simp: write_all_def split: list.splits option.splits)
  show ?thesis
    using assms by (auto simp: write_frame_def flush_def io_bind_Inr dest!: whole split: if_splits)
qed

lemma write_queue_prefix:
  "\<exists>k n. outgoing (write_queue stalls ms c) =
     outgoing c @ concat (map frame_encode (take k (frames_until_close ms))) @
     take n (concat (map frame_encode (take 1 (drop k (frames_until_close ms)))))"
proof (induction stalls ms c rule: write_queue.induct)
  case (3 stalls f ms c)
  have first: "\<exists>k n. outgoing c @ take m (frame_encode f) =
      outgoing c @ concat (map frame_encode (take k (f # frames_until_close ms))) @
      take n (concat (map frame_encode (take 1 (drop k (f # frames_until_close ms)))))" for m
    by (rule exI [of _ 0], rule exI [of _ m]) simp
  show ?case
  proof (cases "\<exists>n rest. stalls = Some n # rest")
    case True
    then show ?thesis using first by (auto simp: stall_def)
  next
    case False
    obtain r d where w: "write_frame f c = (r, d)" by (cases "write_frame f c")
    have eq: "write_queue stalls (OutFrame f # ms) c =
        (case write_frame f c of (Inl e, d) \<Rightarrow> d | (Inr _, d) \<Rightarrow> write_queue (tl stalls) ms d)"
      using False by (auto split: list.splits option.splits)
    show ?thesis
    proof (cases r)
      case (Inl e)
      then show ?thesis using write_frame_prefix [OF w] first unfolding eq w by auto
    next
      case (Inr u)
      then have out: "outgoing d = outgoing c @ frame_encode f" using write_frame_complete w by blast
      have "\<exists>k n. outgoing (write_queue (tl stalls) ms d) =
          outgoing d @ concat (map frame_encode (take k (frames_until_close ms))) @
          take n (concat (map frame_encode (take 1 (drop k (frames_until_close ms)))))"
        using 3 False w Inr by (cases stalls) (auto split: option.splits)
      then obtain k n where "outgoing (write_queue (tl stalls) ms d) =
          outgoing c @ frame_encode f @ concat (map frame_encode (take k (frames_until_close ms))) @
          take n (concat (map frame_encode (take 1 (drop k (frames_until_close ms)))))"
        unfolding out by auto
      then show ?thesis
        using w Inr by (intro exI [of _ "Suc k"] exI [of _ n]) (simp add: eq del: write_queue.simps)
    qed
  qed
qed (auto intro: exI [of _ 0])

lemma read_frames_control:
  "\<forall>r \<in> set (fst (read_frames n c)). \<forall>f. r = Inr f \<longrightarrow> is_control (ty f)"
  by (induction n c rule: read_frames.induct)
    (auto simp: check_control_def and_then_eq_Inr split: prod.splits sum.splits)

subsection \<open>The contract of a turn\<close>

definition pong_in :: "'p poll_scheme \<Rightarrow> u64 \<Rightarrow> bool" where
  "pong_in po v =
     (\<exists>f. po_incoming po = Some (Some (Inr f)) \<and> ty f = Pong \<and> decode_sequence (payload f) = Inr v)"

definition ping_sent :: "action \<Rightarrow> bool" where
  "ping_sent a = (case a of Queue (OutFrame f) \<Rightarrow> ty f = Ping | _ \<Rightarrow> False)"

text \<open>
  The PINGs of a session are numbered from 1 on, and all but the last one were answered: at most one is
  in flight. \<open>n\<close> is the number before the first of them.
\<close>

definition one_in_flight :: "u64 \<Rightarrow> 'p poll_scheme list \<Rightarrow> action list \<Rightarrow> bool" where
  "one_in_flight n pos as =
     (\<exists>k. filter ping_sent as = map (\<lambda>i. Queue (ping_frame (n + of_nat i))) [1..<Suc k] \<and>
        (\<forall>i \<in> {1..<k}. \<exists>po \<in> set pos. pong_in po (n + of_nat i)))"

text \<open>A turn sends PING only if none is unanswered, with the next number, and then waits for its PONG.\<close>

definition pings_if_idle :: "timing \<Rightarrow> 'p poll_scheme \<Rightarrow> heartbeat \<Rightarrow> 'a turn \<times> action list \<Rightarrow> bool" where
  "pings_if_idle tm po hb res =
     (\<forall>a \<in> set (snd res). ping_sent a \<longrightarrow>
        outstanding hb = None \<and>
        res = (Continue \<lparr>sequence = sequence hb + 1,
                         outstanding = Some (sequence hb + 1, po_now po + heartbeat_timeout tm)\<rparr>,
               [Queue (ping_frame (sequence hb + 1))]))"

lemma ping_sent_simps [simp]:
  "ping_sent (Queue (ping_frame n))" "\<not> ping_sent (Queue (pong_frame n))" "\<not> ping_sent (Queue (outbound_error c))"
  "\<not> ping_sent (Queue CloseAfterFlush)" "ping_sent (Queue (outbound_frame t p)) \<longleftrightarrow> t = Ping"
  "\<not> ping_sent (Request cmd)" "\<not> ping_sent (SpawnOpen ctx)" "\<not> ping_sent (Cancel tok)"
  by (simp_all add: ping_sent_def ping_frame_def pong_frame_def outbound_error_def outbound_frame_def)

lemma pings_if_idle_none: "\<forall>a \<in> set (snd res). \<not> ping_sent a \<Longrightarrow> pings_if_idle tm po hb res"
  by (simp add: pings_if_idle_def)

lemma ping_turn_idle: "pings_if_idle tm po hb (ping_turn tm lost po hb)"
  by (cases "outstanding hb") (simp_all add: pings_if_idle_def ping_turn_def Let_def)

lemma one_in_flight_more:
  assumes "one_in_flight n pos as" and "filter ping_sent bs = []"
  shows "one_in_flight n (po # pos) (bs @ as)"
  using assms unfolding one_in_flight_def by (simp del: upt_Suc) blast

lemma one_in_flight_ping:
  fixes pos :: "'p poll_scheme list"
  assumes "one_in_flight (n + 1) pos as"
    and last: "filter ping_sent as = [] \<or> (\<exists>po \<in> set pos. pong_in po (n + 1))"
  shows "one_in_flight n (po # pos) (Queue (ping_frame (n + 1)) # as)"
proof -
  obtain k where k: "filter ping_sent as = map (\<lambda>i. Queue (ping_frame (n + 1 + of_nat i))) [1..<Suc k]"
    and answered: "\<forall>i \<in> {1..<k}. \<exists>po \<in> set pos. pong_in po (n + 1 + of_nat i)"
    using assms(1) unfolding one_in_flight_def by blast
  have "[1..<Suc (Suc k)] = 1 # map Suc [1..<Suc k]" by (simp add: upt_conv_Cons map_Suc_upt del: upt_Suc)
  then have sent: "filter ping_sent (Queue (ping_frame (n + 1)) # as) =
      map (\<lambda>i. Queue (ping_frame (n + of_nat i))) [1..<Suc (Suc k)]"
    using k by (simp add: add.assoc del: upt_Suc)
  have "\<exists>po \<in> set pos. pong_in po (n + of_nat i)" if i: "i \<in> {1..<Suc k}" for i
  proof (cases "i = 1")
    case True
    then show ?thesis using i last k by (auto simp del: upt_Suc)
  next
    case False
    then obtain j where "i = Suc j" "j \<in> {1..<k}" using i by (cases i) auto
    then show ?thesis using answered by (simp add: add.assoc)
  qed
  then show ?thesis using sent unfolding one_in_flight_def by (intro exI [of _ "Suc k"]) auto
qed

definition hb_ok :: "heartbeat \<Rightarrow> bool" where
  "hb_ok hb = (case outstanding hb of None \<Rightarrow> True | Some (n, _) \<Rightarrow> n = sequence hb)"

locale heartbeat_loop =
  fixes iter :: "'p poll_scheme \<Rightarrow> heartbeat \<Rightarrow> 'a turn \<times> action list"
    and tm :: timing
  assumes overdue: "pong_due po hb \<Longrightarrow> \<exists>x as. iter po hb = (Break x, as)"
    and heart: "iter po hb = (Continue hb', as) \<Longrightarrow>
      hb' = hb \<or> (\<exists>v. pong_in po v \<and> hb' = accept_pong v hb) \<or>
      outstanding hb = None \<and>
      hb' = \<lparr>sequence = sequence hb + 1,
             outstanding = Some (sequence hb + 1, po_now po + heartbeat_timeout tm)\<rparr> \<and>
      as = [Queue (ping_frame (sequence hb + 1))]"
    and idle: "pings_if_idle tm po hb (iter po hb)"
begin

lemma turn_ok: "hb_ok hb \<Longrightarrow> iter po hb = (Continue hb', as) \<Longrightarrow> hb_ok hb'"
  using heart by (fastforce simp: hb_ok_def accept_pong_def split: option.splits prod.splits if_splits)

lemma unanswered_stays:
  assumes "outstanding hb = Some (n, d)" and "\<not> pong_in po n" and "iter po hb = (Continue hb', as)"
  shows "hb' = hb"
  using heart [OF assms(3)] assms(1,2) by (auto simp: accept_pong_def)

text \<open>The three kinds of turns that go on, with the PINGs they send.\<close>

lemma turn_cases:
  assumes "iter po hb = (Continue hb', as)"
  obtains (same) "hb' = hb" "filter ping_sent as = []"
  | (pong) v where "pong_in po v" "hb' = accept_pong v hb" "filter ping_sent as = []"
  | (ping) "outstanding hb = None" "sequence hb' = sequence hb + 1" "as = [Queue (ping_frame (sequence hb'))]"
      "\<exists>d. outstanding hb' = Some (sequence hb', d)"
proof (cases "filter ping_sent as = []")
  case True
  from heart [OF assms] show thesis
  proof (elim disjE exE conjE)
    fix v
    assume "pong_in po v" "hb' = accept_pong v hb"
    with True show thesis by (intro pong)
  next
    assume "as = [Queue (ping_frame (sequence hb + 1))]"
    with True show thesis by simp
  qed (use True in \<open>intro same\<close>)
next
  case False
  then obtain a where "a \<in> set as" "ping_sent a" by (auto simp: filter_empty_conv)
  then have "outstanding hb = None \<and> hb' = \<lparr>sequence = sequence hb + 1,
      outstanding = Some (sequence hb + 1, po_now po + heartbeat_timeout tm)\<rparr> \<and>
      as = [Queue (ping_frame (sequence hb + 1))]"
    using idle [of po hb] assms unfolding pings_if_idle_def by auto
  then show thesis by (intro ping) simp_all
qed

lemma loop_pings:
  assumes "select_loop iter pos hb = (r, as)" and "hb_ok hb"
  shows "one_in_flight (sequence hb) pos as \<and>
    (outstanding hb = None \<or> filter ping_sent as = [] \<or> (\<exists>po \<in> set pos. pong_in po (sequence hb)))"
  using assms
proof (induction pos arbitrary: hb as)
  case Nil
  then show ?case by (auto simp: one_in_flight_def intro: exI [of _ 0])
next
  case (Cons po pos)
  obtain t bs where it: "iter po hb = (t, bs)" by fastforce
  show ?case
  proof (cases t)
    case (Break x)
    then have "filter ping_sent as = []"
      using idle [of po hb] Cons.prems(1) it by (auto simp: pings_if_idle_def filter_empty_conv)
    then show ?thesis by (auto simp: one_in_flight_def intro: exI [of _ 0])
  next
    case (Continue hb')
    then obtain cs where cs: "select_loop iter pos hb' = (r, cs)" "as = bs @ cs"
      using Cons.prems(1) it by (auto split: prod.splits)
    have it': "iter po hb = (Continue hb', bs)" using it Continue by simp
    have ih: "one_in_flight (sequence hb') pos cs"
      "outstanding hb' = None \<or> filter ping_sent cs = [] \<or> (\<exists>po \<in> set pos. pong_in po (sequence hb'))"
      using Cons.IH [OF cs(1) turn_ok [OF Cons.prems(2) it']] by blast+
    from it' show ?thesis
    proof (cases rule: turn_cases)
      case same
      then show ?thesis using ih cs(2) by (auto intro: one_in_flight_more)
    next
      case (pong v)
      have "sequence hb' = sequence hb" "outstanding hb' = outstanding hb \<or> pong_in po (sequence hb)"
        using pong(1,2) Cons.prems(2) by (auto simp: accept_pong_def hb_ok_def split: option.splits if_splits)
      then show ?thesis using ih cs(2) pong(3) by (auto intro: one_in_flight_more)
    next
      case ping
      have "one_in_flight (sequence hb) (po # pos) (Queue (ping_frame (sequence hb + 1)) # cs)"
        using ih ping by (intro one_in_flight_ping) auto
      then show ?thesis using cs(2) ping by simp
    qed
  qed
qed

lemma dead_peer_noticed:
  assumes "outstanding hb = Some (n, d)" and "\<forall>po \<in> set pos. \<not> pong_in po n"
    and "\<exists>po \<in> set pos. d \<le> po_now po"
  shows "\<exists>x as. select_loop iter pos hb = (Some x, as)"
  using assms
proof (induction pos arbitrary: hb)
  case (Cons po pos)
  show ?case
  proof (cases "iter po hb")
    case (Pair t as)
    show ?thesis
    proof (cases t)
      case (Continue hb')
      have same: "hb' = hb"
        by (rule unanswered_stays [OF Cons.prems(1)]) (use Cons.prems(2) Pair Continue in auto)
      have "\<not> pong_due po hb" using overdue [of po hb] Pair Continue by auto
      then have "\<not> d \<le> po_now po" using Cons.prems(1) by (simp add: pong_due_def)
      then have "\<exists>x as. select_loop iter pos hb = (Some x, as)"
        using Cons.prems by (intro Cons.IH) auto
      then show ?thesis using Pair Continue same by auto
    qed (use Pair in simp)
  qed
qed simp

end

end
