(* ===== verification/Server_Control.thy ===== *)
theory Server_Control
  imports Heartbeat
begin

text \<open>
  \<open>src/server/control.rs\<close>: one control connection on the server.

  The handshake is an operation on the socket. After it the handler, its writer task and its reader
  task share the socket's halves, the outbound queue and the cancellation token; the two tasks are in
  \<open>Heartbeat\<close>, and \<open>session_iteration\<close> is one turn of the handler's \<open>select!\<close>. \<open>control_serve\<close> is
  the sequence of actions the handler takes, given the answers of the other tasks.

  A \<open>timeout\<close> of tokio is an argument that says whether the time ran out.
\<close>

subsection \<open>Handshake\<close>

record authenticated =
  au_hello :: control_hello
  au_session_id :: session_id
  au_transcript :: bytes

text \<open>Read a frame and check that it is legal on the connection and the one expected.\<close>

definition expect_frame :: "conn_kind \<Rightarrow> msg_type \<Rightarrow> frame io" where
  "expect_frame k t =
     io_bind read_frame (\<lambda>frame.
     io_bind (io_lift (lift_protocol (require_kind frame k))) (\<lambda>_.
     io_bind (io_lift (lift_protocol (require_type frame t))) (\<lambda>_.
     io_return frame)))"

definition control_handshake :: "hmac \<Rightarrow> string \<Rightarrow> draw \<Rightarrow> draw \<Rightarrow> authenticated io" where
  "control_handshake hmac key nonce_draw session_draw =
     io_bind (expect_frame Control ControlHello) (\<lambda>frame.
     io_bind (io_lift (lift_protocol (control_hello_decode (payload frame)))) (\<lambda>hello.
     io_bind (io_lift (random nonce_draw)) (\<lambda>server_nonce.
     io_bind (io_lift (random session_draw)) (\<lambda>session_id.
     let transcript = control_transcript hello server_nonce session_id;
         challenge = \<lparr>cc_server_nonce = server_nonce, cc_session_id = session_id,
                      cc_server_mac = mac hmac (bytes_of key) LABEL_CONTROL_SERVER transcript\<rparr> in
     io_bind (write_frame (frame_new ControlChallenge (control_challenge_encode challenge))) (\<lambda>_.
     io_bind (expect_frame Control ControlProof) (\<lambda>frame.
     if \<not> verify hmac (bytes_of key) LABEL_CONTROL_CLIENT transcript (payload frame) then io_fail Auth
     else io_return \<lparr>au_hello = hello, au_session_id = session_id, au_transcript = transcript\<rparr>))))))"

fun handshake_error_code :: "app_error \<Rightarrow> error_code" where
  "handshake_error_code Auth = AuthFailed"
| "handshake_error_code (Protocol e) = code e"
| "handshake_error_code _ = InternalError"

subsection \<open>Session loop\<close>

definition control_frame :: "session_id \<Rightarrow> poll \<Rightarrow> frame \<Rightarrow> heartbeat \<Rightarrow> bool turn \<times> action list" where
  "control_frame sid po frame hb =
     (case ty frame of
        Ping \<Rightarrow>
          (case decode_sequence (payload frame) of
             Inl _ \<Rightarrow> (Break False, [])
           | Inr v \<Rightarrow>
               if po_send_ok po (pong_frame v) then (Continue hb, [Queue (pong_frame v)])
               else (Break False, []))
      | Pong \<Rightarrow>
          (case decode_sequence (payload frame) of
             Inl _ \<Rightarrow> (Break False, [])
           | Inr v \<Rightarrow> (Continue (accept_pong v hb), []))
      | OpenFailed \<Rightarrow>
          (case open_failed_decode (payload frame) of
             Inl _ \<Rightarrow> (Break False, [])
           | Inr m \<Rightarrow> (Continue hb, [Request (handle_open_failed sid (of_request_id m) (of_reason m))]))
      | Goodbye \<Rightarrow>
          (Break True, queue_if po (outbound_frame GoodbyeAck []) @ queue_if po CloseAfterFlush)
      | Error \<Rightarrow> (Break False, [])
      | _ \<Rightarrow> (Break False, queue_if po (outbound_error ProtocolErr) @ queue_if po CloseAfterFlush))"

text \<open>One turn; a snapshot with nothing ready leaves the loop waiting.\<close>

definition session_iteration ::
  "timing \<Rightarrow> session_id \<Rightarrow> poll \<Rightarrow> heartbeat \<Rightarrow> bool turn \<times> action list" where
  "session_iteration tm sid po hb =
     (if po_cancelled po then (Break False, [])
      else if pong_due po hb then (Break False, [])
      else if po_tick po then ping_turn tm False po hb
      else case po_incoming po of
          None \<Rightarrow> (Continue hb, [])
        | Some None \<Rightarrow> (Break False, [])
        | Some (Some (Inl e)) \<Rightarrow> (Break False, [])
        | Some (Some (Inr frame)) \<Rightarrow> control_frame sid po frame hb)"

definition session_loop ::
  "timing \<Rightarrow> session_id \<Rightarrow> token \<Rightarrow> poll list \<Rightarrow> bool option \<times> action list" where
  "session_loop tm sid control_cancel pos =
     (case select_loop (session_iteration tm sid) pos heartbeat_initial of
        (None, as) \<Rightarrow> (None, as)
      | (Some clean, as) \<Rightarrow> (Some clean, as @ [Cancel control_cancel]))"

subsection \<open>The handler\<close>

definition control_request :: "authenticated \<Rightarrow> writer \<Rightarrow> token \<Rightarrow> token \<Rightarrow> register_request" where
  "control_request a w data_cancel control_cancel =
     \<lparr>rq_session_id = au_session_id a, rq_instance_id = ch_instance_id (au_hello a),
      rq_mode = ch_mode (au_hello a), rq_requested_port = ch_requested_port (au_hello a),
      rq_writer = w, rq_data_cancel = data_cancel, rq_control_cancel = control_cancel\<rparr>"

definition registered_message :: "hmac \<Rightarrow> string \<Rightarrow> authenticated \<Rightarrow> registration \<Rightarrow> outbound" where
  "registered_message hmac key a rn =
     (let ready_mac = mac hmac (bytes_of key) LABEL_CONTROL_READY
            (ready_transcript (au_transcript a) (rn_assigned_port rn) (rn_max_connections rn))
      in outbound_frame Registered (registered_encode
           \<lparr>rg_assigned_port = rn_assigned_port rn, rg_max_connections = rn_max_connections rn,
            rg_ready_mac = ready_mac\<rparr>))"

text \<open>
  The handler after the handshake: what it sends to its writer queue and to the registry. The
  arguments are the registry's answer to the registration, whether the queue still takes the
  announcement, and the snapshots of the session loop. \<open>None\<close> as the first result: the session goes
  on.
\<close>

definition control_session ::
  "hmac \<Rightarrow> string \<Rightarrow> timing \<Rightarrow> authenticated \<Rightarrow> register_request \<Rightarrow>
     (error_code, registration) result \<Rightarrow> bool \<Rightarrow> poll list \<Rightarrow> bool option \<times> action list" where
  "control_session hmac key tm a req answer announce_ok pos =
     (case answer of
        Inl c \<Rightarrow>
          (Some False, [Request (CmdRegister req), Queue (outbound_error c), Queue CloseAfterFlush])
      | Inr rn \<Rightarrow>
          if \<not> announce_ok then
            (Some False, [Request (CmdRegister req),
               Request (handle_session_lost (au_session_id a) (rn_generation rn))])
          else
            (case session_loop tm (au_session_id a) (rq_control_cancel req) pos of
               (None, as) \<Rightarrow>
                 (None, [Request (CmdRegister req), Queue (registered_message hmac key a rn)] @ as)
             | (Some clean, as) \<Rightarrow>
                 (Some clean, [Request (CmdRegister req), Queue (registered_message hmac key a rn)] @ as @
                    [Request (if clean then handle_goodbye (au_session_id a) (rn_generation rn)
                              else handle_session_lost (au_session_id a) (rn_generation rn)),
                     Cancel (rq_data_cancel req), Cancel (rq_control_cancel req)])))"

text \<open>
  \<open>serve\<close>: \<open>elapsed\<close> says that the handshake deadline passed when so many bytes had been written,
  \<open>error_stall\<close> the same for the error message.
\<close>

definition cut :: "nat \<Rightarrow> conn \<Rightarrow> conn \<Rightarrow> conn" where
  "cut n c d = d\<lparr>outgoing := take (length (outgoing c) + n) (outgoing d)\<rparr>"

definition control_serve ::
  "hmac \<Rightarrow> string \<Rightarrow> timing \<Rightarrow> draw \<Rightarrow> draw \<Rightarrow> nat option \<Rightarrow> nat option \<Rightarrow> (writer \<times> token \<times> token) \<Rightarrow>
     (error_code, registration) result \<Rightarrow> bool \<Rightarrow> poll list \<Rightarrow> conn \<Rightarrow> (bool option \<times> action list) \<times> conn" where
  "control_serve hmac key tm nonce_draw session_draw elapsed error_stall handles answer announce_ok pos c =
     (case (elapsed, control_handshake hmac key nonce_draw session_draw c) of
        (Some n, (_, d)) \<Rightarrow> ((Some False, []), cut n c d)
      | (None, (Inl e, d)) \<Rightarrow>
          (case error_stall of
             Some n \<Rightarrow> ((Some False, []),
                (stall n (frame_new Error (to_be 2 (as_u16 (handshake_error_code e)))) d)\<lparr>write_closed := True\<rparr>)
           | None \<Rightarrow> ((Some False, []),
                (snd (write_error (handshake_error_code e) d))\<lparr>write_closed := True\<rparr>))
      | (None, (Inr a, d)) \<Rightarrow>
          (case handles of (w, data_cancel, control_cancel) \<Rightarrow>
            (control_session hmac key tm a (control_request a w data_cancel control_cancel)
               answer announce_ok pos, d)))"

subsection \<open>The session loop keeps the heartbeat contract\<close>

lemma ping_turn_Continue:
  "ping_turn tm lost po hb = (Continue hb', as) \<Longrightarrow>
     hb' = hb \<or> outstanding hb = None \<and>
     hb' = \<lparr>sequence = sequence hb + 1,
            outstanding = Some (sequence hb + 1, po_now po + heartbeat_timeout tm)\<rparr> \<and>
     as = [Queue (ping_frame (sequence hb + 1))]"
  by (auto simp: ping_turn_def Let_def split: if_splits)

lemma control_frame_Continue:
  assumes "control_frame sid po f hb = (Continue hb', as)" and "po_incoming po = Some (Some (Inr f))"
  shows "hb' = hb \<or> (\<exists>v. pong_in po v \<and> hb' = accept_pong v hb)"
  using assms by (auto simp: control_frame_def pong_in_def split: msg_type.splits sum.splits if_splits)

lemma control_frame_no_ping: "a \<in> set (snd (control_frame sid po f hb)) \<Longrightarrow> \<not> ping_sent a"
  by (auto simp: control_frame_def queue_if_def split: msg_type.splits sum.splits if_splits)

interpretation server_heart: heartbeat_loop "session_iteration tm sid" tm
proof (unfold_locales, goal_cases)
  case (1 po hb)
  then show ?case by (auto simp: session_iteration_def)
next
  case (2 po hb hb' as)
  then show ?case
    unfolding session_iteration_def
    by (auto dest: ping_turn_Continue control_frame_Continue split: if_splits option.splits sum.splits)
next
  case (3 po hb)
  show ?case
    unfolding session_iteration_def
    by (auto intro: ping_turn_idle pings_if_idle_none dest: control_frame_no_ping split: option.splits sum.splits)
qed

end
