(* ===== verification/Ip_Text.thy ===== *)
theory Ip_Text
  imports Settings Decimal_Text
begin

text \<open>
  IP addresses as text: \<open>FromStr\<close> and \<open>Display\<close> of the address types of the Rust standard library,
  which \<open>src/net.rs\<close> and \<open>src/config.rs\<close> call. Reading follows the library's recursive-descent parser
  (a reader returns its value and the rest of the text, \<open>None\<close> leaves the text as it was); printing
  follows its rules for the compressed form of IPv6. What is printed is read back, for both families.
\<close>

subsection \<open>Numbers in a positional system\<close>

fun limbs :: "nat \<Rightarrow> nat \<Rightarrow> nat \<Rightarrow> nat list" where
  "limbs b 0 n = []"
| "limbs b (Suc k) n = limbs b k (n div b) @ [n mod b]"

definition unlimbs :: "nat \<Rightarrow> nat list \<Rightarrow> nat" where
  "unlimbs b ls = foldl (\<lambda>acc l. acc * b + l) 0 ls"

lemma length_limbs [simp]: "length (limbs b k n) = k"
  by (induction k arbitrary: n) auto

lemma unlimbs_snoc [simp]: "unlimbs b (ls @ [l]) = unlimbs b ls * b + l"
  by (simp add: unlimbs_def)

lemma unlimbs_limbs: "unlimbs b (limbs b k n) = n mod b ^ k"
  by (induction k arbitrary: n) (simp_all add: unlimbs_def [of _ "[]"] mod_mult2_eq add.commute mult.commute)

lemma limbs_less: "b > 0 \<Longrightarrow> list_all (\<lambda>l. l < b) (limbs b k n)"
  by (induction k arbitrary: n) auto

lemma limbs_zero: "limbs b k 0 = replicate k 0"
  by (induction k) (simp_all add: replicate_append_same)

text \<open>\<open>to_digit\<close> and \<open>{:x}\<close>.\<close>

definition to_digit :: "nat \<Rightarrow> char \<Rightarrow> nat option" where
  "to_digit radix c =
     (let n = (of_char c :: nat);
          d = (if 48 \<le> n \<and> n \<le> 57 then n - 48
               else if 97 \<le> n \<and> n \<le> 122 then n - 87
               else if 65 \<le> n \<and> n \<le> 90 then n - 55
               else radix)
      in if d < radix then Some d else None)"

definition from_digit :: "nat \<Rightarrow> char" where
  "from_digit d = char_of (if d < 10 then 48 + d else 87 + d)"

fun show_radix :: "nat \<Rightarrow> nat \<Rightarrow> string" where
  "show_radix b n =
     (if b < 2 \<or> n < b then [from_digit n] else show_radix b (n div b) @ [from_digit (n mod b)])"

declare show_radix.simps [simp del]

lemma to_from_digit [simp]: "d < radix \<Longrightarrow> radix \<le> 36 \<Longrightarrow> to_digit radix (from_digit d) = Some d"
  by (simp add: to_digit_def from_digit_def)

definition is_radix :: "nat \<Rightarrow> char \<Rightarrow> bool" where
  "is_radix b c = (to_digit b c \<noteq> None)"

definition radix_value :: "nat \<Rightarrow> string \<Rightarrow> nat" where
  "radix_value b s = unlimbs b (map (\<lambda>c. the (to_digit b c)) s)"

lemma show_radix_digits:
  assumes "2 \<le> b" and "b \<le> 36"
  shows "show_radix b n \<noteq> [] \<and> list_all (is_radix b) (show_radix b n) \<and> radix_value b (show_radix b n) = n"
  using assms
proof (induction b n rule: show_radix.induct)
  case (1 b n)
  show ?case
  proof (cases "n < b")
    case True
    then show ?thesis
      using 1(2,3) by (subst (1 2 3) show_radix.simps) (simp add: is_radix_def radix_value_def unlimbs_def)
  next
    case False
    have digit: "to_digit b (from_digit (n mod b)) = Some (n mod b)" using 1(2,3) by simp
    then have "is_radix b (from_digit (n mod b))" by (simp add: is_radix_def)
    with digit show ?thesis
      using 1 False by (subst (1 2 3) show_radix.simps) (simp add: radix_value_def)
  qed
qed

text \<open>A number below \<open>b ^ k\<close> is printed with at most \<open>k\<close> digits, and zero is the only leading one.\<close>

lemma show_radix_length: "2 \<le> b \<Longrightarrow> 0 < k \<Longrightarrow> n < b ^ k \<Longrightarrow> length (show_radix b n) \<le> k"
proof (induction k arbitrary: n)
  case (Suc k)
  show ?case
  proof (cases "n < b")
    case True
    then show ?thesis by (subst show_radix.simps) simp
  next
    case False
    then have "0 < k" using Suc.prems by (cases k) auto
    moreover have "n div b < b ^ k" using Suc.prems by (simp add: less_mult_imp_div_less mult.commute)
    ultimately show ?thesis using Suc False by (subst show_radix.simps) simp
  qed
qed simp

lemma show_radix_leading: "2 \<le> b \<Longrightarrow> b \<le> 36 \<Longrightarrow> hd (show_radix b n) = CHR ''0'' \<Longrightarrow> n = 0"
proof (induction b n rule: show_radix.induct)
  case (1 b n)
  show ?case
  proof (cases "n < b")
    case True
    have "to_digit b (CHR ''0'') = Some 0" using 1(2) by (simp add: to_digit_def)
    moreover have "from_digit n = CHR ''0''" using 1(4) True by (simp add: show_radix.simps)
    ultimately show ?thesis using to_from_digit [OF True 1(3)] by simp
  next
    case False
    have "hd (show_radix b (n div b)) = CHR ''0''"
      using 1(2-4) False show_radix_digits [OF 1(2,3), of "n div b"] by (subst (asm) show_radix.simps) simp
    then have "n div b = 0" using 1(1-3) False by simp
    then show ?thesis using False 1(2) by (simp add: div_eq_0_iff)
  qed
qed

subsection \<open>Reading\<close>

type_synonym 'a reader = "string \<Rightarrow> ('a \<times> string) option"

text \<open>
  \<open>read_number\<close>: digits as long as there are any; more than \<open>max_digits\<close>, none, an unwanted leading
  zero or a value beyond the type is a failure.
\<close>

definition read_number :: "nat \<Rightarrow> nat \<Rightarrow> bool \<Rightarrow> nat \<Rightarrow> nat reader" where
  "read_number radix max_digits allow_zero_prefix bound s =
     (let ds = takeWhile (is_radix radix) s;
          v = radix_value radix ds
      in if max_digits < length ds \<or> ds = [] \<or>
            (\<not> allow_zero_prefix \<and> hd ds = CHR ''0'' \<and> 1 < length ds) \<or> bound < v
         then None else Some (v, dropWhile (is_radix radix) s))"

definition read_given_char :: "char \<Rightarrow> unit reader" where
  "read_given_char d s = (case s of [] \<Rightarrow> None | c # r \<Rightarrow> if c = d then Some ((), r) else None)"

definition read_separator :: "char \<Rightarrow> nat \<Rightarrow> 'a reader \<Rightarrow> 'a reader" where
  "read_separator sep index inner s =
     (if index = 0 then inner s
      else case read_given_char sep s of None \<Rightarrow> None | Some (_, r) \<Rightarrow> inner r)"

text \<open>The octets from the \<open>i\<close>-th on, \<open>n\<close> of them.\<close>

fun read_octets :: "nat \<Rightarrow> nat \<Rightarrow> nat list reader" where
  "read_octets i 0 s = Some ([], s)"
| "read_octets i (Suc n) s =
     (case read_separator (CHR ''.'') i (read_number 10 3 False 255) s of
        None \<Rightarrow> None
      | Some (v, r) \<Rightarrow>
          (case read_octets (Suc i) n r of None \<Rightarrow> None | Some (vs, r') \<Rightarrow> Some (v # vs, r')))"

definition read_ipv4_addr :: "nat list reader" where
  "read_ipv4_addr = read_octets 0 4"

text \<open>
  \<open>read_groups\<close>: the groups read from the \<open>i\<close>-th on, \<open>n\<close> at most, and whether the last two came from
  an embedded IPv4 address, which is tried while at least two groups are left.
\<close>

fun read_groups :: "nat \<Rightarrow> nat \<Rightarrow> string \<Rightarrow> (nat list \<times> bool) \<times> string" where
  "read_groups i 0 s = (([], False), s)"
| "read_groups i (Suc n) s =
     (case (if n = 0 then None else read_separator (CHR '':'') i read_ipv4_addr s) of
        Some (os, r) \<Rightarrow> (([unlimbs 256 (take 2 os), unlimbs 256 (drop 2 os)], True), r)
      | None \<Rightarrow>
          (case read_separator (CHR '':'') i (read_number 16 4 True 65535) s of
             None \<Rightarrow> (([], False), s)
           | Some (g, r) \<Rightarrow>
               (case read_groups (Suc i) n r of ((gs, v4), r') \<Rightarrow> ((g # gs, v4), r'))))"

definition read_ipv6_addr :: "nat list reader" where
  "read_ipv6_addr s =
     (case read_groups 0 8 s of ((gs, v4), r) \<Rightarrow>
        if length gs = 8 then Some (gs, r)
        else if v4 then None
        else case read_given_char (CHR '':'') r of
            None \<Rightarrow> None
          | Some (_, r) \<Rightarrow>
              (case read_given_char (CHR '':'') r of
                 None \<Rightarrow> None
               | Some (_, r) \<Rightarrow>
                   (case read_groups 0 (8 - (length gs + 1)) r of ((ts, _), r) \<Rightarrow>
                      Some (gs @ replicate (8 - length gs - length ts) 0 @ ts, r))))"

text \<open>\<open>IpAddr::from_str\<close>: the whole text must be read, and IPv6 is only tried where IPv4 fails.\<close>

definition parse_ip :: "string \<Rightarrow> ip_addr option" where
  "parse_ip s =
     (case read_ipv4_addr s of
        Some (os, r) \<Rightarrow> if r = [] then Some (V4 (of_nat (unlimbs 256 os))) else None
      | None \<Rightarrow>
          (case read_ipv6_addr s of
             Some (gs, r) \<Rightarrow> if r = [] then Some (V6 (of_nat (unlimbs 65536 gs))) else None
           | None \<Rightarrow> None))"

subsection \<open>Printing\<close>

definition octets :: "u32 \<Rightarrow> nat list" where
  "octets w = limbs 256 4 (unat w)"

definition segments :: "128 word \<Rightarrow> nat list" where
  "segments w = limbs 65536 8 (unat w)"

text \<open>The numbers from the \<open>i\<close>-th on, each with a separator before it unless it is the first.\<close>

fun show_from :: "nat \<Rightarrow> char \<Rightarrow> nat \<Rightarrow> nat list \<Rightarrow> string" where
  "show_from b sep i [] = []"
| "show_from b sep i (v # vs) = (if i = 0 then [] else [sep]) @ show_radix b v @ show_from b sep (Suc i) vs"

definition ipv4_display :: "nat list \<Rightarrow> string" where
  "ipv4_display os = show_from 10 (CHR ''.'') 0 os"

text \<open>The first of the longest runs of zero segments: the loop with its two spans (start, length).\<close>

fun zero_span :: "nat \<Rightarrow> nat \<times> nat \<Rightarrow> nat \<times> nat \<Rightarrow> nat list \<Rightarrow> nat \<times> nat" where
  "zero_span i longest current [] = longest"
| "zero_span i longest current (s # ss) =
     (if s = 0 then
        let current = (if snd current = 0 then i else fst current, snd current + 1) in
        zero_span (Suc i) (if snd longest < snd current then current else longest) current ss
      else zero_span (Suc i) longest (0, 0) ss)"

definition fmt_subslice :: "nat list \<Rightarrow> string" where
  "fmt_subslice gs = show_from 16 (CHR '':'') 0 gs"

definition ipv6_display :: "nat list \<Rightarrow> string" where
  "ipv6_display gs =
     (if take 6 gs = [0, 0, 0, 0, 0, 65535] then
        ''::ffff:'' @ ipv4_display (limbs 256 2 (gs ! 6) @ limbs 256 2 (gs ! 7))
      else
        case zero_span 0 (0, 0) (0, 0) gs of (start, len) \<Rightarrow>
          if 1 < len then fmt_subslice (take start gs) @ ''::'' @ fmt_subslice (drop (start + len) gs)
          else fmt_subslice gs)"

fun ip_display :: "ip_addr \<Rightarrow> string" where
  "ip_display (V4 w) = ipv4_display (octets w)"
| "ip_display (V6 w) = ipv6_display (segments w)"

subsection \<open>What is printed is read back\<close>

text \<open>A text that goes on after a number: it ends, or the next character is no digit.\<close>

definition stops :: "nat \<Rightarrow> string \<Rightarrow> bool" where
  "stops b r = (case r of [] \<Rightarrow> True | c # _ \<Rightarrow> \<not> is_radix b c)"

lemma stops_simps [simp]:
  "stops b []" "stops b (c # r) \<longleftrightarrow> \<not> is_radix b c"
  by (simp_all add: stops_def)

lemma separators_no_digit [simp]:
  "b \<le> 16 \<Longrightarrow> \<not> is_radix b (CHR ''.'')" "b \<le> 16 \<Longrightarrow> \<not> is_radix b (CHR '':'')"
  by (simp_all add: is_radix_def to_digit_def)

lemma read_number_show:
  assumes "2 \<le> b" and "b \<le> 36" and "0 < k" and "v < b ^ k" and "v \<le> bound" and "stops b r"
  shows "read_number b k zero bound (show_radix b v @ r) = Some (v, r)"
proof -
  have d: "show_radix b v \<noteq> []" "list_all (is_radix b) (show_radix b v)" "radix_value b (show_radix b v) = v"
    using show_radix_digits [OF assms(1,2), of v] by auto
  then have "takeWhile (is_radix b) (show_radix b v @ r) = show_radix b v"
    "dropWhile (is_radix b) (show_radix b v @ r) = r"
    using assms(6) by (cases r; simp add: takeWhile_append dropWhile_append list_all_iff)+
  moreover have "\<not> (hd (show_radix b v) = CHR ''0'' \<and> 1 < length (show_radix b v))"
    using show_radix_leading [OF assms(1,2), of v] assms(1) show_radix_length [of b 1 0] by auto
  ultimately show ?thesis
    using d(1,3) show_radix_length [OF assms(1,3,4)] assms(5) by (simp add: read_number_def Let_def)
qed

lemma read_number_stops: "stops b s \<Longrightarrow> read_number b k zero bound s = None"
  by (cases s) (simp_all add: read_number_def)

lemma read_separator_show:
  "(\<And>r. stops b r \<Longrightarrow> inner (show_radix b v @ r) = Some (v, r)) \<Longrightarrow> stops b r \<Longrightarrow>
   read_separator sep i inner ((if i = 0 then [] else [sep]) @ show_radix b v @ r) = Some (v, r)"
  by (simp add: read_separator_def read_given_char_def)

lemma stops_show_from: "stops b r \<Longrightarrow> \<not> is_radix b sep \<Longrightarrow> stops b (show_from b' sep (Suc i) vs @ r)"
  by (cases vs) simp_all

lemma read_octets_show:
  assumes "list_all (\<lambda>v. v < 256) vs" and "stops 10 r"
  shows "read_octets i (length vs) (show_from 10 (CHR ''.'') i vs @ r) = Some (vs, r)"
  using assms(1)
proof (induction vs arbitrary: i)
  case (Cons v vs)
  have "read_number 10 3 False 255 (show_radix 10 v @ r') = Some (v, r')" if "stops 10 r'" for r'
    using that Cons.prems by (intro read_number_show) auto
  then have "read_separator (CHR ''.'') i (read_number 10 3 False 255)
      ((if i = 0 then [] else [CHR ''.'']) @ show_radix 10 v @ (show_from 10 (CHR ''.'') (Suc i) vs @ r)) =
      Some (v, show_from 10 (CHR ''.'') (Suc i) vs @ r)"
    using stops_show_from [OF assms(2)] by (intro read_separator_show [where b = 10]) simp_all
  then show ?case using Cons by simp
qed simp

lemma read_octets_no_dot:
  "CHR ''.'' \<notin> set s \<Longrightarrow> 0 < i \<Longrightarrow> read_octets i (Suc n) s = None"
  by (cases s) (auto simp: read_separator_def read_given_char_def)

lemma read_ipv4_no_dot:
  assumes "CHR ''.'' \<notin> set s"
  shows "read_ipv4_addr s = None"
proof -
  have "set (dropWhile P s) \<subseteq> set s" for P by (auto dest: set_dropWhileD)
  then have "CHR ''.'' \<notin> set (dropWhile (is_radix 10) s)" using assms by blast
  then have "read_octets (Suc 0) 3 (dropWhile (is_radix 10) s) = None"
    using read_octets_no_dot [of _ "Suc 0" 2] by (simp add: numeral_3_eq_3 numeral_2_eq_2)
  then show ?thesis
    by (auto simp: read_ipv4_addr_def numeral_eq_Suc read_separator_def read_number_def Let_def
        split: if_splits option.splits)
qed

text \<open>Groups are read up to the end of the text, the double colon or the limit.\<close>

lemma read_groups_end:
  assumes "r = [] \<or> (\<exists>t. r = CHR '':'' # CHR '':'' # t)" and "CHR ''.'' \<notin> set r"
  shows "read_groups i n r = (([], False), r)"
proof -
  have stop: "read_separator (CHR '':'') i (read_number 16 4 True 65535) r = None"
    using assms(1) by (auto simp: read_separator_def read_given_char_def read_number_stops)
  have "read_separator (CHR '':'') i read_ipv4_addr r = None"
    using assms read_ipv4_no_dot by (auto simp: read_separator_def read_given_char_def)
  with stop show ?thesis by (cases n) simp_all
qed

lemma show_radix_no_dot: "2 \<le> b \<Longrightarrow> b \<le> 16 \<Longrightarrow> CHR ''.'' \<notin> set (show_radix b v)"
  using show_radix_digits [of b v] separators_no_digit(1) [of b] by (auto simp: list_all_iff)

lemma show_from_no_dot: "CHR ''.'' \<notin> set (show_from 16 (CHR '':'') i vs)"
  by (induction vs arbitrary: i) (simp_all add: show_radix_no_dot)

lemma read_groups_show:
  assumes "list_all (\<lambda>v. v < 65536) vs" and "length vs \<le> n"
    and "r = [] \<or> (\<exists>t. r = CHR '':'' # CHR '':'' # t)" and "CHR ''.'' \<notin> set r"
  shows "read_groups i n (show_from 16 (CHR '':'') i vs @ r) = ((vs, False), r)"
  using assms(1,2)
proof (induction vs arbitrary: i n)
  case Nil
  then show ?case using read_groups_end [OF assms(3,4)] by simp
next
  case (Cons v vs)
  obtain m where n: "n = Suc m" using Cons.prems(2) by (cases n) auto
  let ?more = "show_from 16 (CHR '':'') (Suc i) vs @ r"
  have "stops 16 r" using assms(3) by auto
  then have stop: "stops 16 ?more" by (intro stops_show_from) simp_all
  have num: "read_number 16 4 True 65535 (show_radix 16 v @ r') = Some (v, r')" if "stops 16 r'" for r'
    using that Cons.prems(1) by (intro read_number_show) auto
  have shown: "show_from 16 (CHR '':'') i (v # vs) @ r =
      (if i = 0 then [] else [CHR '':'']) @ show_radix 16 v @ ?more" by simp
  have group: "read_separator (CHR '':'') i (read_number 16 4 True 65535) (show_from 16 (CHR '':'') i (v # vs) @ r) =
      Some (v, ?more)"
    unfolding shown using stop num by (intro read_separator_show [where b = 16])
  have "CHR ''.'' \<notin> set (show_radix 16 v @ ?more)"
    using assms(4) show_radix_no_dot [of 16 v] show_from_no_dot by auto
  from read_ipv4_no_dot [OF this]
  have "read_separator (CHR '':'') i read_ipv4_addr (show_from 16 (CHR '':'') i (v # vs) @ r) = None"
    unfolding shown by (cases "i = 0") (simp_all add: read_separator_def read_given_char_def)
  with group show ?case using Cons.IH [of m "Suc i"] Cons.prems n by (cases m) simp_all
qed

text \<open>The span of zeros lies inside the address and covers zeros only.\<close>

definition span_ok :: "nat list \<Rightarrow> nat \<times> nat \<Rightarrow> bool" where
  "span_ok gs sp = (fst sp + snd sp \<le> length gs \<and> take (snd sp) (drop (fst sp) gs) = replicate (snd sp) 0)"

lemma span_extend:
  assumes "span_ok (take i gs) (st, n)" and "st + n = i" and "i < length gs" and "gs ! i = 0"
  shows "span_ok (take (Suc i) gs) (st, Suc n)"
  using assms
  by (auto simp: span_ok_def take_Suc_conv_app_nth drop_take min_def replicate_append_same [symmetric])

lemma span_ok_mono: "span_ok (take i gs) sp \<Longrightarrow> i \<le> j \<Longrightarrow> span_ok (take j gs) sp"
  by (auto simp: span_ok_def drop_take min_def take_take split: if_splits)

lemma zero_span_ok:
  assumes "span_ok (take i gs) longest" and "span_ok (take i gs) current"
    and "snd current \<noteq> 0 \<longrightarrow> fst current + snd current = i" and "i \<le> length gs"
  shows "span_ok gs (zero_span i longest current (drop i gs))"
  using assms
proof (induction "length gs - i" arbitrary: i longest current)
  case 0
  then show ?case by simp
next
  case (Suc k)
  then have i: "i < length gs" by simp
  then have d: "drop i gs = gs ! i # drop (Suc i) gs" by (simp add: Cons_nth_drop_Suc)
  let ?cur = "(if snd current = 0 then i else fst current, snd current + 1)"
  have k: "k = length gs - Suc i" using Suc.hyps(2) by simp
  have long: "span_ok (take (Suc i) gs) longest" using Suc.prems(1) span_ok_mono by fastforce
  show ?case
  proof (cases "gs ! i = 0")
    case True
    have "span_ok (take (Suc i) gs) ?cur"
    proof (cases "snd current = 0")
      case zero: True
      have "span_ok (take i gs) (i, 0)" using i by (simp add: span_ok_def)
      from span_extend [OF this _ i True] show ?thesis using zero by simp
    next
      case False
      then show ?thesis using span_extend [of i gs "fst current" "snd current"] Suc.prems i True by simp
    qed
    then show ?thesis
      using Suc.hyps(1) [OF k] long i True Suc.prems(3) unfolding d by (simp add: Let_def)
  next
    case False
    have "span_ok (take (Suc i) gs) (0, 0)" by (simp add: span_ok_def)
    then show ?thesis using Suc.hyps(1) [OF k long] False i unfolding d by simp
  qed
qed

lemma read_ipv4_display:
  "length os = 4 \<Longrightarrow> list_all (\<lambda>v. v < 256) os \<Longrightarrow> stops 10 r \<Longrightarrow>
   read_ipv4_addr (ipv4_display os @ r) = Some (os, r)"
  using read_octets_show [of os r 0] by (simp add: read_ipv4_addr_def ipv4_display_def)

lemma read_ipv6_compressed:
  assumes "list_all (\<lambda>v. v < 65536) (hs @ ts)" and "length hs + length ts < 8"
  shows "read_ipv6_addr (fmt_subslice hs @ ''::'' @ fmt_subslice ts) =
    Some (hs @ replicate (8 - length hs - length ts) 0 @ ts, [])"
proof -
  have "CHR ''.'' \<notin> set (fmt_subslice ts)" by (simp add: fmt_subslice_def show_from_no_dot)
  then have head: "read_groups 0 8 (fmt_subslice hs @ ''::'' @ fmt_subslice ts) =
      ((hs, False), ''::'' @ fmt_subslice ts)"
    using assms unfolding fmt_subslice_def by (intro read_groups_show) auto
  have "read_groups 0 (8 - (length hs + 1)) (fmt_subslice ts) = ((ts, False), [])"
    using assms read_groups_show [of ts "8 - (length hs + 1)" "[]" 0] by (simp add: fmt_subslice_def)
  then show ?thesis
    unfolding read_ipv6_addr_def head using assms(2) by (simp add: read_given_char_def)
qed

lemma read_ipv6_plain:
  assumes "list_all (\<lambda>v. v < 65536) gs" and "length gs = 8"
  shows "read_ipv6_addr (fmt_subslice gs) = Some (gs, [])"
  using read_groups_show [of gs 8 "[]" 0] assms by (simp add: read_ipv6_addr_def fmt_subslice_def)

lemma read_ipv4_stops: "stops 10 s \<Longrightarrow> read_ipv4_addr s = None"
  using read_octets.simps(2) [of 0 3 s] by (simp add: read_ipv4_addr_def read_separator_def read_number_stops)

lemma read_ipv6_mapped:
  assumes "length os = 4" and "list_all (\<lambda>v. v < 256) os"
  shows "read_ipv6_addr (''::ffff:'' @ ipv4_display os) =
    Some ([0, 0, 0, 0, 0, 65535, unlimbs 256 (take 2 os), unlimbs 256 (drop 2 os)], [])"
proof -
  let ?t = "''ffff:'' @ ipv4_display os"
  have head: "read_groups 0 8 (''::'' @ ?t) = (([], False), ''::'' @ ?t)"
    using read_groups.simps(2) [of 0 7 "''::'' @ ?t"]
    by (simp add: read_separator_def read_ipv4_stops read_number_stops)
  have f: "is_radix 16 (CHR ''f'')" "\<not> is_radix 10 (CHR ''f'')" by (simp_all add: is_radix_def to_digit_def)
  have "read_number 16 4 True 65535 ?t = Some (65535, CHR '':'' # ipv4_display os)"
    using f by (simp add: read_number_def radix_value_def unlimbs_def to_digit_def)
  moreover have "read_ipv4_addr ?t = None" using f by (simp add: read_ipv4_stops)
  ultimately have "read_groups 0 7 ?t = (case read_groups 1 6 (CHR '':'' # ipv4_display os) of
      ((gs, v4), r) \<Rightarrow> ((65535 # gs, v4), r))"
    using read_groups.simps(2) [of 0 6 ?t] by (simp add: read_separator_def)
  moreover have "read_ipv4_addr (ipv4_display os) = Some (os, [])"
    using read_ipv4_display [OF assms, of "[]"] by simp
  then have "read_groups 1 6 (CHR '':'' # ipv4_display os) =
      (([unlimbs 256 (take 2 os), unlimbs 256 (drop 2 os)], True), [])"
    using read_groups.simps(2) [of 1 5 "CHR '':'' # ipv4_display os"]
    by (simp add: read_separator_def read_given_char_def)
  ultimately have tail: "read_groups 0 7 ?t =
      (([65535, unlimbs 256 (take 2 os), unlimbs 256 (drop 2 os)], True), [])" by simp
  have "replicate 5 (0 :: nat) = [0, 0, 0, 0, 0]" by (simp add: numeral_eq_Suc)
  then show ?thesis
    using head tail by (simp add: read_ipv6_addr_def read_given_char_def)
qed

lemma split_span: "span_ok gs (st, n) \<Longrightarrow> gs = take st gs @ replicate n 0 @ drop (st + n) gs"
  by (metis append_take_drop_id drop_drop add.commute fst_conv snd_conv span_ok_def)

lemma read_ipv6_display:
  assumes len: "length gs = 8" and small: "list_all (\<lambda>v. v < 65536) gs"
  shows "read_ipv6_addr (ipv6_display gs) = Some (gs, [])"
proof (cases "take 6 gs = [0, 0, 0, 0, 0, 65535]")
  case True
  have "gs ! 6 < 256 ^ 2" "gs ! 7 < 256 ^ 2" using len small by (auto simp: list_all_length)
  then have join: "unlimbs 256 (limbs 256 2 (gs ! 6)) = gs ! 6" "unlimbs 256 (limbs 256 2 (gs ! 7)) = gs ! 7"
    by (simp_all add: unlimbs_limbs)
  have "drop 6 gs = [gs ! 6, gs ! 7]" using len by (simp add: list_eq_iff_nth_eq nth_Cons' less_Suc_eq numeral_eq_Suc)
  then have "gs = [0, 0, 0, 0, 0, 65535, gs ! 6, gs ! 7]" using True append_take_drop_id [of 6 gs] by simp
  then show ?thesis
    using read_ipv6_mapped [of "limbs 256 2 (gs ! 6) @ limbs 256 2 (gs ! 7)"] True join
    by (simp add: ipv6_display_def limbs_less)
next
  case False
  obtain st n where sp: "zero_span 0 (0, 0) (0, 0) gs = (st, n)" by fastforce
  have ok: "span_ok gs (st, n)" using zero_span_ok [of 0 gs "(0, 0)" "(0, 0)"] sp by (simp add: span_ok_def)
  show ?thesis
  proof (cases "1 < n")
    case True
    let ?hs = "take st gs" and ?ts = "drop (st + n) gs"
    have "st + n \<le> 8" using ok len by (simp add: span_ok_def)
    then have lens: "length ?hs = st" "length ?ts = 8 - st - n" "8 - st - (8 - st - n) = n" using len by simp_all
    moreover have "list_all (\<lambda>v. v < 65536) (?hs @ ?ts)"
      using small by (auto simp: list_all_iff dest: in_set_takeD in_set_dropD)
    moreover have "length ?hs + length ?ts < 8" using lens True \<open>st + n \<le> 8\<close> by simp
    ultimately have "read_ipv6_addr (fmt_subslice ?hs @ ''::'' @ fmt_subslice ?ts) = Some (?hs @ replicate n 0 @ ?ts, [])"
      using read_ipv6_compressed [of ?hs ?ts] by simp
    then show ?thesis using split_span [OF ok] False True sp by (simp add: ipv6_display_def)
  next
    case short: False
    then show ?thesis using read_ipv6_plain [OF small len] False sp by (simp add: ipv6_display_def)
  qed
qed

lemma ipv6_display_stops: "read_ipv4_addr (ipv6_display gs) = None"
proof (cases "take 6 gs = [0, 0, 0, 0, 0, 65535]")
  case True
  then show ?thesis by (simp add: ipv6_display_def read_ipv4_stops)
next
  case False
  then show ?thesis
    by (intro read_ipv4_no_dot) (auto simp: ipv6_display_def fmt_subslice_def show_from_no_dot split: prod.splits)
qed

lemma parse_ip_display [simp]: "parse_ip (ip_display a) = Some a"
proof (cases a)
  case (V4 w)
  have "unat w < 256 ^ 4" using unsigned_less [of w, where 'a = nat] by simp
  then have "unlimbs 256 (octets w) = unat w" by (simp add: octets_def unlimbs_limbs)
  then show ?thesis
    using read_ipv4_display [of "octets w" "[]"] V4 by (simp add: parse_ip_def octets_def limbs_less)
next
  case (V6 w)
  have "unat w < 65536 ^ 8" using unsigned_less [of w, where 'a = nat] by simp
  then have "unlimbs 65536 (segments w) = unat w" by (simp add: segments_def unlimbs_limbs)
  then show ?thesis
    using read_ipv6_display [of "segments w"] ipv6_display_stops V6
    by (simp add: parse_ip_def segments_def limbs_less)
qed

end
