(* ===== verification/Text_Ops.thy ===== *)
theory Text_Ops
  imports Tunlet_Prelude
begin

text \<open>
  The operations of the Rust standard library on text that the configuration parsers use. Strings are
  lists of UTF-8 bytes; the characters the parsers look for are ASCII, which in valid UTF-8 never occur
  inside another character, so splitting bytes is splitting text. \<open>trim\<close> removes every character with
  the Unicode property White-Space, given by its byte sequences. \<open>utf8_scan\<close> recognises one character,
  or one maximal invalid piece, at the start of a byte string, as the library's validation does; it
  gives \<open>from_utf8\<close> and \<open>to_string_lossy\<close>.
\<close>

subsection \<open>Splitting and trimming\<close>

fun split_once :: "char \<Rightarrow> string \<Rightarrow> (string \<times> string) option" where
  "split_once d [] = None"
| "split_once d (c # s) =
     (if c = d then Some ([], s) else map_option (\<lambda>(a, b). (c # a, b)) (split_once d s))"

definition rsplit_once :: "char \<Rightarrow> string \<Rightarrow> (string \<times> string) option" where
  "rsplit_once d s = map_option (\<lambda>(a, b). (rev b, rev a)) (split_once d (rev s))"

fun strip_prefix :: "char \<Rightarrow> string \<Rightarrow> string option" where
  "strip_prefix d [] = None"
| "strip_prefix d (c # s) = (if c = d then Some s else None)"

definition utf8_spaces :: "nat list list" where
  "utf8_spaces =
     map (\<lambda>n. [n]) ([9..<14] @ [32]) @ [[0xC2, 0x85], [0xC2, 0xA0], [0xE1, 0x9A, 0x80]] @
     map (\<lambda>n. [0xE2, 0x80, n]) ([0x80..<0x8B] @ [0xA8, 0xA9, 0xAF]) @ [[0xE2, 0x81, 0x9F], [0xE3, 0x80, 0x80]]"

definition is_space_prefix :: "string \<Rightarrow> nat list \<Rightarrow> bool" where
  "is_space_prefix s w = (take (length w) (map of_char s) = w)"

text \<open>Drop leading white space, given as the list of byte sequences to drop.\<close>

function drop_spaces :: "nat list list \<Rightarrow> string \<Rightarrow> string" where
  "drop_spaces ws s =
     (case find (\<lambda>w. w \<noteq> [] \<and> is_space_prefix s w) ws of
        None \<Rightarrow> s
      | Some w \<Rightarrow> drop_spaces ws (drop (length w) s))"
  by pat_completeness auto

termination
proof (relation "measure (\<lambda>(ws, s). length s)", goal_cases)
  case (2 ws s w)
  then have w: "w \<noteq> []" "take (length w) (map of_char s) = w"
    by (auto simp: find_Some_iff is_space_prefix_def)
  then have "length w \<le> length s" by (metis length_map length_take min.cobounded1)
  then show ?case using w(1) by (cases w) auto
qed simp

declare drop_spaces.simps [simp del]

definition trim :: "string \<Rightarrow> string" where
  "trim s = rev (drop_spaces (map rev utf8_spaces) (rev (drop_spaces utf8_spaces s)))"

lemma split_once_Some: "split_once d s = Some (a, b) \<longleftrightarrow> s = a @ d # b \<and> d \<notin> set a"
proof (induction s arbitrary: a)
  case (Cons c s)
  show ?case
  proof (cases "c = d")
    case True
    then show ?thesis by (cases a) auto
  next
    case False
    then show ?thesis by (cases a) (auto simp: map_option_eq_Some Cons.IH)
  qed
qed simp

lemma split_once_None: "split_once d s = None \<longleftrightarrow> d \<notin> set s"
  by (induction s) auto

lemma split_once_append [simp]: "d \<notin> set a \<Longrightarrow> split_once d (a @ d # b) = Some (a, b)"
  by (simp add: split_once_Some)

lemma rsplit_once_Some: "rsplit_once d s = Some (a, b) \<longleftrightarrow> s = a @ d # b \<and> d \<notin> set b"
proof -
  have "rsplit_once d s = Some (a, b) \<longleftrightarrow> split_once d (rev s) = Some (rev b, rev a)"
    by (auto simp: rsplit_once_def)
  also have "\<dots> \<longleftrightarrow> s = a @ d # b \<and> d \<notin> set b"
    by (simp add: split_once_Some rev_swap)
  finally show ?thesis .
qed

lemma strip_prefix_Some: "strip_prefix d s = Some t \<longleftrightarrow> s = d # t"
  by (cases s) auto

text \<open>\<open>split\<close> at every occurrence of a character, and removal of one final character.\<close>

fun split_at_char :: "char \<Rightarrow> string \<Rightarrow> string list" where
  "split_at_char d [] = [[]]"
| "split_at_char d (c # s) =
     (if c = d then [] # split_at_char d s
      else case split_at_char d s of [] \<Rightarrow> [[c]] | t # ts \<Rightarrow> (c # t) # ts)"

definition strip_suffix :: "char \<Rightarrow> string \<Rightarrow> string option" where
  "strip_suffix d s = (if s \<noteq> [] \<and> last s = d then Some (butlast s) else None)"

lemma split_at_char_line: "d \<notin> set t \<Longrightarrow> split_at_char d (t @ d # s) = t # split_at_char d s"
  by (induction t) auto

lemma split_at_char_last: "d \<notin> set t \<Longrightarrow> split_at_char d t = [t]"
  by (induction t) auto

lemma split_at_char_lines:
  "\<forall>t \<in> set ts. d \<notin> set t \<Longrightarrow> split_at_char d (concat (map (\<lambda>t. t @ [d]) ts)) = ts @ [[]]"
  by (induction ts) (auto simp: split_at_char_line)

lemma strip_suffix_simps [simp]: "strip_suffix d [] = None" "strip_suffix d (s @ [c]) = (if c = d then Some s else None)"
  by (simp_all add: strip_suffix_def)

text \<open>Text that starts and ends with a visible ASCII character is not changed by \<open>trim\<close>.\<close>

definition visible :: "char \<Rightarrow> bool" where
  "visible c = (32 < (of_char c :: nat) \<and> (of_char c :: nat) < 128)"

lemma utf8_spaces_ends: "\<forall>w \<in> set utf8_spaces. w \<noteq> [] \<and> \<not> (32 < hd w \<and> hd w < 128) \<and> \<not> (32 < last w \<and> last w < 128)"
  by (auto simp: utf8_spaces_def)

lemma drop_spaces_visible:
  assumes "visible c" and "\<forall>w \<in> set ws. w \<noteq> [] \<and> \<not> (32 < hd w \<and> hd w < 128)"
  shows "drop_spaces ws (c # s) = c # s"
proof -
  have "\<not> is_space_prefix (c # s) w" if "w \<in> set ws" for w
    using assms that by (cases w) (auto simp: is_space_prefix_def visible_def)
  then have "find (\<lambda>w. w \<noteq> [] \<and> is_space_prefix (c # s) w) ws = None" by (auto simp: find_None_iff)
  then show ?thesis by (subst drop_spaces.simps) simp
qed

lemma trim_visible:
  assumes "visible c" and "visible d"
  shows "trim (c # s @ [d]) = c # s @ [d]"
proof -
  have "drop_spaces utf8_spaces (c # s @ [d]) = c # s @ [d]"
    using assms(1) utf8_spaces_ends by (intro drop_spaces_visible) auto
  moreover have "drop_spaces (map rev utf8_spaces) (d # rev s @ [c]) = d # rev s @ [c]"
    using assms(2) utf8_spaces_ends by (intro drop_spaces_visible) (auto simp: hd_rev)
  ultimately show ?thesis by (simp add: trim_def)
qed

lemma utf8_spaces_bytes: "\<forall>w \<in> set utf8_spaces. \<forall>b \<in> set w. \<not> (32 < b \<and> b < 128)"
  by (auto simp: utf8_spaces_def)

text \<open>A visible character ends any white space before it.\<close>

lemma drop_spaces_keeps:
  assumes "visible c" and "\<forall>w \<in> set ws. \<forall>b \<in> set w. \<not> (32 < b \<and> b < 128)"
  shows "\<exists>u. drop_spaces ws (t @ c # r) = u @ c # r"
  using assms(2)
proof (induction "length t" arbitrary: t rule: less_induct)
  case less
  let ?s = "t @ c # r"
  show ?case
  proof (cases "find (\<lambda>w. w \<noteq> [] \<and> is_space_prefix ?s w) ws")
    case None
    then show ?thesis by (subst drop_spaces.simps) auto
  next
    case (Some w)
    then have w: "w \<in> set ws" "w \<noteq> []" "w = take (length w) (map of_char ?s)"
      by (auto simp: find_Some_iff is_space_prefix_def)
    have short: "length w \<le> length t"
    proof (rule ccontr)
      assume "\<not> length w \<le> length t"
      then have "take (length w) (map of_char ?s) ! length t = (of_char c :: nat)" by (simp add: nth_append)
      then have "w ! length t = of_char c" using w(3) by simp
      moreover have "w ! length t \<in> set w" using \<open>\<not> length w \<le> length t\<close> by simp
      ultimately show False using less.prems w(1) assms(1) by (auto simp: visible_def)
    qed
    then have "length (drop (length w) t) < length t" using w(2) by (cases w) auto
    from less.hyps [OF this less.prems] short show ?thesis
      using Some by (subst drop_spaces.simps) simp
  qed
qed

lemma trim_starts: "visible c \<Longrightarrow> \<exists>u. trim (c # s) = c # u"
proof -
  assume c: "visible c"
  have "drop_spaces utf8_spaces (c # s) = c # s"
    using c utf8_spaces_ends by (intro drop_spaces_visible) auto
  moreover obtain u where "drop_spaces (map rev utf8_spaces) (rev s @ c # []) = u @ c # []"
    using drop_spaces_keeps [OF c, of "map rev utf8_spaces" "rev s" "[]"] utf8_spaces_bytes by auto
  ultimately show ?thesis by (simp add: trim_def)
qed

lemma trim_Nil [simp]: "trim [] = []"
proof -
  have "find (\<lambda>w. w \<noteq> [] \<and> is_space_prefix [] w) ws = None" for ws
    by (auto simp: find_None_iff is_space_prefix_def)
  then have "drop_spaces ws [] = []" for ws by (subst drop_spaces.simps) simp
  then show ?thesis by (simp add: trim_def)
qed

lemma trim_all_visible:
  assumes "\<forall>c \<in> set s. visible c"
  shows "trim s = s"
proof (cases "\<exists>c t d. s = c # t @ [d]")
  case True
  then show ?thesis using assms trim_visible by auto
next
  case False
  have "s = [] \<or> (\<exists>c. s = [c])"
  proof (cases s)
    case (Cons c t)
    then show ?thesis using False by (cases t rule: rev_cases) auto
  qed simp
  then show ?thesis
  proof
    assume "\<exists>c. s = [c]"
    then obtain c where s: "s = [c]" "visible c" using assms by auto
    have "drop_spaces utf8_spaces [c] = [c]" "drop_spaces (map rev utf8_spaces) [c] = [c]"
      using s(2) utf8_spaces_ends by (intro drop_spaces_visible; auto simp: hd_rev)+
    then show ?thesis using s by (simp add: trim_def)
  qed simp
qed

subsection \<open>UTF-8\<close>

definition cont_byte :: "nat \<Rightarrow> bool" where
  "cont_byte b = (0x80 \<le> b \<and> b \<le> 0xBF)"

definition utf8_char_width :: "nat \<Rightarrow> nat" where
  "utf8_char_width b =
     (if b < 0x80 then 1
      else if 0xC2 \<le> b \<and> b \<le> 0xDF then 2
      else if 0xE0 \<le> b \<and> b \<le> 0xEF then 3
      else if 0xF0 \<le> b \<and> b \<le> 0xF4 then 4
      else 0)"

definition second_byte_ok :: "nat \<Rightarrow> nat \<Rightarrow> bool" where
  "second_byte_ok b c =
     (if b = 0xE0 then 0xA0 \<le> c \<and> c \<le> 0xBF
      else if b = 0xED then 0x80 \<le> c \<and> c \<le> 0x9F
      else if b = 0xF0 then 0x90 \<le> c \<and> c \<le> 0xBF
      else if b = 0xF4 then 0x80 \<le> c \<and> c \<le> 0x8F
      else cont_byte c)"

text \<open>Whether the text starts with a character, and the number of bytes of it or of the invalid piece.\<close>

definition utf8_scan :: "string \<Rightarrow> bool \<times> nat" where
  "utf8_scan s =
     (let get = (\<lambda>i. if i < length s then of_char (s ! i) else 0 :: nat);
          w = utf8_char_width (get 0)
      in if w = 0 then (False, 1)
         else if w = 1 then (True, 1)
         else if \<not> second_byte_ok (get 0) (get 1) then (False, 1)
         else if w = 2 then (True, 2)
         else if \<not> cont_byte (get 2) then (False, 2)
         else if w = 3 then (True, 3)
         else if \<not> cont_byte (get 3) then (False, 3)
         else (True, 4))"

lemma utf8_scan_pos: "0 < snd (utf8_scan s)"
  by (simp add: utf8_scan_def Let_def)

function valid_utf8 :: "string \<Rightarrow> bool" where
  "valid_utf8 s =
     (if s = [] then True else case utf8_scan s of (ok, n) \<Rightarrow> ok \<and> valid_utf8 (drop n s))"
  by pat_completeness auto

termination
proof (relation "measure length", goal_cases)
  case (2 s ok n)
  then have "0 < n" using utf8_scan_pos [of s] by (metis snd_conv)
  then show ?case using 2(1) by (cases s) auto
qed simp

function to_string_lossy :: "string \<Rightarrow> string" where
  "to_string_lossy s =
     (if s = [] then []
      else case utf8_scan s of (ok, n) \<Rightarrow>
        (if ok then take n s else map char_of [0xEF, 0xBF, 0xBD :: nat]) @ to_string_lossy (drop n s))"
  by pat_completeness auto

termination
proof (relation "measure length", goal_cases)
  case (2 s ok n)
  then have "0 < n" using utf8_scan_pos [of s] by (metis snd_conv)
  then show ?case using 2(1) by (cases s) auto
qed simp

declare valid_utf8.simps [simp del] to_string_lossy.simps [simp del]

lemma valid_utf8_Nil [simp]: "valid_utf8 []"
  by (simp add: valid_utf8.simps)

lemma to_string_lossy_valid [simp]: "valid_utf8 s \<Longrightarrow> to_string_lossy s = s"
proof (induction s rule: to_string_lossy.induct)
  case (1 s)
  show ?case
  proof (cases "s = []")
    case False
    obtain ok n where sc: "utf8_scan s = (ok, n)" by fastforce
    then have "ok" "valid_utf8 (drop n s)" using 1(2) False by (auto simp: valid_utf8.simps [of s])
    then show ?thesis using 1(1) False sc by (subst to_string_lossy.simps) simp
  qed (simp add: to_string_lossy.simps)
qed

lemma ascii_valid: "\<forall>c \<in> set s. (of_char c :: nat) < 128 \<Longrightarrow> valid_utf8 s"
proof (induction s)
  case (Cons c s)
  then have "utf8_scan (c # s) = (True, 1)" by (simp add: utf8_scan_def utf8_char_width_def)
  then show ?case using Cons by (subst valid_utf8.simps) simp
qed simp

end
