(* ===== verification/Net_Addr.thy ===== *)
theory Net_Addr
  imports Ip_Text Text_Ops
begin

text \<open>
  \<open>src/net.rs\<close>: socket addresses, endpoints and port ranges as text, binding and dialling. A socket
  address is an IP address and a port; the flow label and scope of IPv6 are zero wherever the program
  makes an address, and it prints neither.

  What the resolver, the socket calls and the clock answer during \<open>dial\<close> and \<open>bind_listener\<close> are arguments.
\<close>

subsection \<open>Endpoints\<close>

definition endpoint_display :: "endpoint \<Rightarrow> string" where
  "endpoint_display e =
     (if CHR '':'' \<in> set (host e) then ''['' @ host e @ '']:'' @ show_nat (unat (port e))
      else host e @ '':'' @ show_nat (unat (port e)))"

definition display_addr :: "socket_addr \<Rightarrow> string" where
  "display_addr a =
     (case sa_ip a of
        V4 v4 \<Rightarrow> ip_display (V4 v4) @ '':'' @ show_nat (unat (sa_port a))
      | V6 v6 \<Rightarrow> ''['' @ ip_display (V6 v6) @ '']:'' @ show_nat (unat (sa_port a)))"

definition split_host_port :: "string \<Rightarrow> (string \<times> string) option" where
  "split_host_port value =
     (case strip_prefix (CHR ''['') value of
        Some rest \<Rightarrow>
          (case split_once (CHR '']'') rest of
             None \<Rightarrow> None
           | Some (h, tail) \<Rightarrow> map_option (\<lambda>p. (h, p)) (strip_prefix (CHR '':'') tail))
      | None \<Rightarrow>
          (case rsplit_once (CHR '':'') value of
             None \<Rightarrow> None
           | Some (h, p) \<Rightarrow> if CHR '':'' \<in> set h then None else Some (h, p)))"

definition parse_port :: "string \<Rightarrow> string \<Rightarrow> (app_error, u16) result" where
  "parse_port value field = ok_or (Config (field @ '' must be a port number'')) (parse_u16 value)"

definition parse_listen :: "string \<Rightarrow> (app_error, socket_addr) result" where
  "parse_listen value =
     and_then (case strip_prefix (CHR '':'') value of
                 Some rest \<Rightarrow> Inr (''0.0.0.0'', rest)
               | None \<Rightarrow> ok_or (Config ''LISTEN must be ADDR:PORT or :PORT'') (split_host_port value)) (\<lambda>(h, p).
     and_then (ok_or (Config ''LISTEN address must be an IP literal'') (parse_ip h)) (\<lambda>ip.
     and_then (parse_port p ''LISTEN'') (\<lambda>p.
     if p < 1024 then Inl (Config ''LISTEN port must be 1024-65535'')
     else Inr \<lparr>sa_ip = ip, sa_port = p\<rparr>)))"

definition parse_bind_ip :: "string \<Rightarrow> (app_error, ip_addr) result" where
  "parse_bind_ip value = ok_or (Config ''DATA_BIND must be an IP literal without a port'') (parse_ip value)"

definition parse_server :: "string \<Rightarrow> (app_error, endpoint) result" where
  "parse_server value =
     and_then (ok_or (Config ''SERVER must be HOST:PORT'') (split_host_port value)) (\<lambda>(h, p).
     if h = [] then Inl (Config ''SERVER must include a host'')
     else and_then (parse_port p ''SERVER'') (\<lambda>p.
       if p < 1024 then Inl (Config ''SERVER port must be 1024-65535'')
       else Inr \<lparr>host = h, port = p\<rparr>))"

definition parse_target :: "string \<Rightarrow> (app_error, endpoint) result" where
  "parse_target value =
     and_then (case strip_prefix (CHR '':'') value of
                 Some rest \<Rightarrow> Inr (''127.0.0.1'', rest)
               | None \<Rightarrow> ok_or (Config ''TARGET must be HOST:PORT or :PORT'') (split_host_port value)) (\<lambda>(h, p).
     if h = [] then Inl (Config ''TARGET must include a host'')
     else and_then (parse_port p ''TARGET'') (\<lambda>p.
       if p = 0 then Inl (Config ''TARGET port must be 1-65535'')
       else Inr \<lparr>host = h, port = p\<rparr>))"

definition parse_port_range :: "string \<Rightarrow> (app_error, u16 \<times> u16) result" where
  "parse_port_range value =
     and_then (ok_or (Config ''ALLOWED_PORTS must be MIN-MAX'') (split_once (CHR ''-'') value)) (\<lambda>(lo, hi).
     and_then (parse_port (trim lo) ''ALLOWED_PORTS'') (\<lambda>min.
     and_then (parse_port (trim hi) ''ALLOWED_PORTS'') (\<lambda>max.
     if min < 1024 \<or> min > max then
       Inl (Config ''ALLOWED_PORTS must satisfy 1024 <= MIN <= MAX <= 65535'')
     else Inr (min, max))))"

fun loopback_for :: "ip_addr \<Rightarrow> ip_addr" where
  "loopback_for (V4 _) = V4 0x7F000001"
| "loopback_for (V6 _) = V6 1"

subsection \<open>Binding\<close>

text \<open>
  The calls on the new socket in their order (on Unix, where the reuse option is set); the first one
  that fails ends the function.
\<close>

datatype domain = IPV4 | IPV6

datatype socket_call =
    SocketNew domain
  | SetOnlyV6 bool
  | SetReuseAddress bool
  | SocketBind socket_addr
  | SocketListen nat
  | SetNonblocking bool
  | FromStd

definition is_ipv6 :: "socket_addr \<Rightarrow> bool" where
  "is_ipv6 a = (case sa_ip a of V4 _ \<Rightarrow> False | V6 _ \<Rightarrow> True)"

fun socket_calls :: "(socket_call \<Rightarrow> (io_error, unit) result) \<Rightarrow> socket_call list \<Rightarrow> (io_error, unit) result" where
  "socket_calls os [] = Inr ()"
| "socket_calls os (c # cs) = and_then (os c) (\<lambda>_. socket_calls os cs)"

definition bind_listener :: "(socket_call \<Rightarrow> (io_error, unit) result) \<Rightarrow> socket_addr \<Rightarrow> (io_error, unit) result" where
  "bind_listener os a =
     socket_calls os ([SocketNew (if is_ipv6 a then IPV6 else IPV4)] @
       (if is_ipv6 a then [SetOnlyV6 True] else []) @
       [SetReuseAddress True, SocketBind a, SocketListen 1024, SetNonblocking True, FromStd])"

subsection \<open>Dialling\<close>

definition net_remaining :: "instant \<Rightarrow> instant \<Rightarrow> (app_error, duration) result" where
  "net_remaining t deadline =
     (if t \<ge> deadline then Inl (Runtime ''connection budget expired'') else Inr (deadline - t))"

datatype 'a timed = Elapsed | Done 'a

text \<open>
  The answers \<open>dial\<close> meets: the clock readings in their order, the resolver's answer and the outcome
  of connecting to an address within a budget.
\<close>

record dial_env =
  di_clock :: "nat \<Rightarrow> instant"
  di_lookup :: "string \<Rightarrow> duration \<Rightarrow> (io_error, socket_addr list) result timed"
  di_connect :: "socket_addr \<Rightarrow> duration \<Rightarrow> (io_error, nat) result timed"
  di_nodelay :: "nat \<Rightarrow> (io_error, unit) result"

text \<open>The loop over the resolved addresses, from the \<open>i\<close>-th clock reading on.\<close>

fun try_addrs ::
  "dial_env \<Rightarrow> endpoint \<Rightarrow> instant \<Rightarrow> nat \<Rightarrow> io_error option \<Rightarrow> socket_addr list \<Rightarrow> (app_error, nat) result" where
  "try_addrs env ep deadline i previous [] =
     Inl (Runtime (''connecting to '' @ endpoint_display ep @ '' failed: '' @
       (case previous of Some e \<Rightarrow> io_text e | None \<Rightarrow> ''no address succeeded'')))"
| "try_addrs env ep deadline i previous (a # as) =
     and_then (net_remaining (di_clock env i) deadline) (\<lambda>budget_left.
     case di_connect env a budget_left of
       Done (Inr stream) \<Rightarrow> and_then (map_err Io (di_nodelay env stream)) (\<lambda>_. Inr stream)
     | Done (Inl e) \<Rightarrow> try_addrs env ep deadline (Suc i) (Some e) as
     | Elapsed \<Rightarrow> Inl (Runtime (''connecting to '' @ endpoint_display ep @ '' timed out'')))"

definition dial :: "dial_env \<Rightarrow> endpoint \<Rightarrow> duration \<Rightarrow> (app_error, nat) result" where
  "dial env ep budget =
     (let deadline = di_clock env 0 + budget;
          h = (if parse_ip (host ep) \<noteq> None \<and> CHR '':'' \<in> set (host ep)
               then ''['' @ host ep @ '']:'' @ show_nat (unat (port ep))
               else host ep @ '':'' @ show_nat (unat (port ep)))
      in and_then (net_remaining (di_clock env 1) deadline) (\<lambda>budget_left.
         case di_lookup env h budget_left of
           Elapsed \<Rightarrow> Inl (Runtime (''resolving '' @ endpoint_display ep @ '' timed out''))
         | Done (Inl e) \<Rightarrow>
             Inl (Runtime (''resolving '' @ endpoint_display ep @ '' failed: '' @ io_text e))
         | Done (Inr addrs) \<Rightarrow>
             if addrs = [] then Inl (Runtime (endpoint_display ep @ '' resolved to no address''))
             else try_addrs env ep deadline 2 None addrs))"

text \<open>\<open>connect_addr\<close>: one connect call within the budget.\<close>

definition connect_addr :: "dial_env \<Rightarrow> socket_addr \<Rightarrow> duration \<Rightarrow> (app_error, nat) result" where
  "connect_addr env a budget =
     (case di_connect env a budget of
        Elapsed \<Rightarrow> Inl (Runtime (''connecting to '' @ display_addr a @ '' timed out''))
      | Done r \<Rightarrow> and_then (map_err Io r) (\<lambda>stream.
          and_then (map_err Io (di_nodelay env stream)) (\<lambda>_. Inr stream)))"

subsection \<open>Properties\<close>

lemma show_nat_no_colon [simp]: "CHR '':'' \<notin> set (show_nat n)"
  using show_nat_digits [of n] by (auto simp: list_all_iff is_digit_def)

lemma split_host_port_display:
  assumes "CHR '']'' \<notin> set (host e)" and "hd (host e) \<noteq> CHR ''[''" and "host e \<noteq> []"
  shows "split_host_port (endpoint_display e) = Some (host e, show_nat (unat (port e)))"
proof (cases "CHR '':'' \<in> set (host e)")
  case True
  have "split_once (CHR '']'') (host e @ CHR '']'' # CHR '':'' # show_nat (unat (port e))) =
      Some (host e, CHR '':'' # show_nat (unat (port e)))"
    using assms(1) by simp
  then show ?thesis using True by (simp add: split_host_port_def endpoint_display_def)
next
  case False
  have "strip_prefix (CHR ''['') (host e @ x) = None" for x
    using assms(2,3) by (cases "host e") auto
  moreover have "rsplit_once (CHR '':'') (host e @ CHR '':'' # show_nat (unat (port e))) =
      Some (host e, show_nat (unat (port e)))"
    by (simp add: rsplit_once_Some)
  ultimately show ?thesis using False by (simp add: split_host_port_def endpoint_display_def)
qed

text \<open>
  The addresses are tried in order: \<open>pre\<close> are refused, the next one connects, and before each the
  deadline had not passed.
\<close>

fun refused_before :: "dial_env \<Rightarrow> instant \<Rightarrow> nat \<Rightarrow> socket_addr list \<Rightarrow> bool" where
  "refused_before env deadline i [] = True"
| "refused_before env deadline i (a # as) =
     (di_clock env i < deadline \<and> (\<exists>e. di_connect env a (deadline - di_clock env i) = Done (Inl e)) \<and>
      refused_before env deadline (Suc i) as)"

definition connects_at :: "dial_env \<Rightarrow> instant \<Rightarrow> nat \<Rightarrow> socket_addr \<Rightarrow> nat \<Rightarrow> bool" where
  "connects_at env deadline i a s =
     (di_clock env i < deadline \<and> di_connect env a (deadline - di_clock env i) = Done (Inr s) \<and>
      di_nodelay env s = Inr ())"

lemma net_remaining_Inr [simp]: "net_remaining t d = Inr b \<longleftrightarrow> t < d \<and> b = d - t"
  by (auto simp: net_remaining_def)

lemma try_addrs_step:
  "try_addrs env ep deadline i previous (a # as) = Inr s \<longleftrightarrow>
     connects_at env deadline i a s \<or>
     refused_before env deadline i [a] \<and> (\<exists>e. try_addrs env ep deadline (Suc i) (Some e) as = Inr s \<and>
       di_connect env a (deadline - di_clock env i) = Done (Inl e))"
  by (auto simp: connects_at_def and_then_eq_Inr split: timed.splits sum.splits)

lemma try_addrs_Inr:
  "try_addrs env ep deadline i previous as = Inr s \<longleftrightarrow>
     (\<exists>pre a post. as = pre @ a # post \<and> refused_before env deadline i pre \<and>
        connects_at env deadline (i + length pre) a s)"
proof (induction as arbitrary: i previous)
  case (Cons a as)
  have "try_addrs env ep deadline i previous (a # as) = Inr s \<longleftrightarrow>
      connects_at env deadline i a s \<or>
      refused_before env deadline i [a] \<and> (\<exists>pre b post. as = pre @ b # post \<and>
        refused_before env deadline (Suc i) pre \<and> connects_at env deadline (Suc i + length pre) b s)"
    unfolding try_addrs_step Cons.IH by auto
  also have "\<dots> \<longleftrightarrow> (\<exists>pre b post. a # as = pre @ b # post \<and> refused_before env deadline i pre \<and>
      connects_at env deadline (i + length pre) b s)" (is "?l \<longleftrightarrow> (\<exists>pre b post. ?r pre b post)")
  proof
    assume ?l
    then show "\<exists>pre b post. ?r pre b post"
    proof
      assume "connects_at env deadline i a s"
      then have "?r [] a as" by simp
      then show ?thesis by blast
    next
      assume "refused_before env deadline i [a] \<and> (\<exists>pre b post. as = pre @ b # post \<and>
        refused_before env deadline (Suc i) pre \<and> connects_at env deadline (Suc i + length pre) b s)"
      then obtain pre b post where "?r (a # pre) b post" by auto
      then show ?thesis by blast
    qed
  next
    assume "\<exists>pre b post. ?r pre b post"
    then obtain pre b post where r: "?r pre b post" by blast
    then show ?l by (cases pre) auto
  qed
  finally show ?case .
qed simp

text \<open>
  C36. \<open>dial\<close> succeeds exactly when, within its budget, the resolver answers for the endpoint's name
  and one of the addresses accepts the connection after all earlier ones refused it; the stream is the
  one of that address, and no step is started at or after the deadline.
\<close>

theorem dial_first_reachable:
  "dial env ep budget = Inr s \<longleftrightarrow>
     (\<exists>pre a post. di_clock env 1 < di_clock env 0 + budget \<and>
        di_lookup env (if parse_ip (host ep) \<noteq> None then endpoint_display ep
                       else host ep @ '':'' @ show_nat (unat (port ep)))
          (di_clock env 0 + budget - di_clock env 1) = Done (Inr (pre @ a # post)) \<and>
        refused_before env (di_clock env 0 + budget) 2 pre \<and>
        connects_at env (di_clock env 0 + budget) (2 + length pre) a s)"
proof -
  let ?h = "if parse_ip (host ep) \<noteq> None then endpoint_display ep else host ep @ '':'' @ show_nat (unat (port ep))"
  have "dial env ep budget = Inr s \<longleftrightarrow> di_clock env 1 < di_clock env 0 + budget \<and>
      (\<exists>as. di_lookup env ?h (di_clock env 0 + budget - di_clock env 1) = Done (Inr as) \<and>
        try_addrs env ep (di_clock env 0 + budget) 2 None as = Inr s)"
    by (auto simp: dial_def Let_def and_then_eq_Inr endpoint_display_def split: timed.splits sum.splits if_splits)
  then show ?thesis unfolding try_addrs_Inr by auto
qed

text \<open>The characters of a printed IP address.\<close>

lemma show_radix_chars: "2 \<le> b \<Longrightarrow> b \<le> 36 \<Longrightarrow> c \<in> set (show_radix b v) \<Longrightarrow> is_radix b c"
  using show_radix_digits [of b v] by (auto simp: list_all_iff)

lemma show_from_chars:
  "2 \<le> b \<Longrightarrow> b \<le> 36 \<Longrightarrow> c \<in> set (show_from b sep i vs) \<Longrightarrow> is_radix b c \<or> c = sep"
  by (induction vs arbitrary: i) (auto simp: show_radix_chars split: if_splits)

lemma brackets_no_digit [simp]:
  "b \<le> 16 \<Longrightarrow> \<not> is_radix b (CHR '']'')" "b \<le> 16 \<Longrightarrow> \<not> is_radix b (CHR ''['')"
  by (simp_all add: is_radix_def to_digit_def)

lemma ipv4_display_chars:
  "CHR '':'' \<notin> set (ipv4_display os)" "CHR '']'' \<notin> set (ipv4_display os)" "CHR ''['' \<notin> set (ipv4_display os)"
  by (auto simp: ipv4_display_def dest!: show_from_chars [rotated 2])

lemma ipv6_display_chars: "CHR '']'' \<notin> set (ipv6_display gs)"
proof -
  have "CHR '']'' \<notin> set (fmt_subslice vs)" for vs
    using show_from_chars [of 16 "CHR '']''" "CHR '':''" 0 vs] by (auto simp: fmt_subslice_def)
  then show ?thesis using ipv4_display_chars by (auto simp: ipv6_display_def split: prod.splits)
qed

lemma split_host_port_addr:
  "split_host_port (display_addr a) = Some (ip_display (sa_ip a), show_nat (unat (sa_port a)))"
proof (cases "sa_ip a")
  case (V4 w)
  let ?h = "ip_display (V4 w)"
  have "CHR ''['' \<notin> set ?h" "CHR '':'' \<notin> set ?h" using ipv4_display_chars by simp_all
  moreover from this have "strip_prefix (CHR ''['') (?h @ CHR '':'' # p) = None" for p
    by (cases ?h) auto
  moreover have "rsplit_once (CHR '':'') (?h @ CHR '':'' # show_nat (unat (sa_port a))) =
      Some (?h, show_nat (unat (sa_port a)))"
    by (simp add: rsplit_once_Some)
  ultimately show ?thesis using V4 by (simp add: split_host_port_def display_addr_def)
next
  case (V6 w)
  have "split_once (CHR '']'') (ip_display (V6 w) @ CHR '']'' # CHR '':'' # p) =
      Some (ip_display (V6 w), CHR '':'' # p)" for p
    using ipv6_display_chars by simp
  then show ?thesis using V6 by (simp add: split_host_port_def display_addr_def)
qed

text \<open>
  C35. Addresses round trip through their text: a socket address is printed so that the parser of
  LISTEN reads it back if its port is unprivileged, an IP address so that the parser of DATA-BIND does,
  and an endpoint whose host is not empty and has no brackets so that the parsers of SERVER and TARGET
  do, provided its port is in the range they allow. This covers the compressed and the IPv4-mapped
  forms of IPv6 addresses.
\<close>

theorem addresses_roundtrip:
  assumes "host e \<noteq> []" and "CHR ''['' \<notin> set (host e)" and "CHR '']'' \<notin> set (host e)"
  shows "(1024 \<le> sa_port a \<longrightarrow> parse_listen (display_addr a) = Inr (a :: socket_addr)) \<and>
    parse_bind_ip (ip_display ip) = Inr ip \<and>
    (1024 \<le> port e \<longrightarrow> parse_server (endpoint_display e) = Inr (e :: endpoint)) \<and>
    (port e \<noteq> 0 \<longrightarrow> parse_target (endpoint_display e) = Inr e)"
proof -
  have "hd (host e) \<noteq> CHR ''[''" using assms(1,2) hd_in_set by metis
  then have split: "split_host_port (endpoint_display e) = Some (host e, show_nat (unat (port e)))"
    using assms by (intro split_host_port_display)
  have "strip_prefix (CHR '':'') (endpoint_display e) = None"
    using assms(1) by (cases "host e") (auto simp: endpoint_display_def)
  then have ends: "(1024 \<le> port e \<longrightarrow> parse_server (endpoint_display e) = Inr e) \<and>
      (port e \<noteq> 0 \<longrightarrow> parse_target (endpoint_display e) = Inr e)"
    using split assms(1) by (auto simp: parse_server_def parse_target_def parse_port_def and_then_def not_le)
  have "strip_prefix (CHR '':'') (display_addr a) = None"
  proof (cases "sa_ip a")
    case (V4 w)
    have "octets w \<noteq> []" using length_limbs [of 256 4 "unat w"] by (auto simp: octets_def simp del: length_limbs)
    then have "ipv4_display (octets w) \<noteq> []"
      using show_radix_digits [of 10 "hd (octets w)"] by (cases "octets w") (simp_all add: ipv4_display_def)
    then show ?thesis
      using V4 ipv4_display_chars(1) [of "octets w"]
      by (cases "ipv4_display (octets w)") (auto simp: display_addr_def)
  qed (simp add: display_addr_def)
  then have "1024 \<le> sa_port a \<longrightarrow> parse_listen (display_addr a) = Inr a"
    using split_host_port_addr [of a] by (auto simp: parse_listen_def parse_port_def not_le)
  with ends show ?thesis by (simp add: parse_bind_ip_def)
qed

theorem addresses_roundtrip_witness:
  "parse_listen (display_addr \<lparr>sa_ip = V6 1, sa_port = 4000\<rparr>) = Inr \<lparr>sa_ip = V6 1, sa_port = 4000\<rparr> \<and>
   parse_server (endpoint_display \<lparr>host = ''fe80::1'', port = 4000\<rparr>) = Inr \<lparr>host = ''fe80::1'', port = 4000\<rparr> \<and>
   parse_target (endpoint_display \<lparr>host = ''localhost'', port = 80\<rparr>) = Inr \<lparr>host = ''localhost'', port = 80\<rparr>"
  using addresses_roundtrip [of "\<lparr>host = ''fe80::1'', port = 4000\<rparr>" "\<lparr>sa_ip = V6 1, sa_port = 4000\<rparr>"]
    addresses_roundtrip [of "\<lparr>host = ''localhost'', port = 80\<rparr>"] by simp

end
