(* ===== verification/Client_Control.thy ===== *)
theory Client_Control
  imports Server_Control Net_Addr
begin

text \<open>
  \<open>src/client/control.rs\<close> and \<open>src/client/mod.rs\<close>: connecting, authenticating the server, registering,
  the session loop of the exposing client and its reconnection policy.

  The handshake is an operation on the socket with errors of the client's own kind (\<open>failure\<close>): fatal
  ones end the process, the others lead to another attempt. What the network and the timers
  answer is an argument.
\<close>

subsection \<open>Outcomes\<close>

datatype attempt =
    Clean
  | AttemptFatal app_error
  | AttemptRetry string

datatype failure = Fatal app_error | Retry string

record client_state =
  cl_instance_id :: instance_id
  cl_requested_port :: "u16 option"
  cl_last_assigned :: "u16 option"
  cl_ever_registered :: bool

record client_session =
  cs_session_id :: session_id
  cs_server_addr :: socket_addr
  cs_assigned_port :: u16
  cs_max_connections :: u32

definition classify :: "error_code \<Rightarrow> failure" where
  "classify c =
     (if is_fatal_for_client c then Fatal (Registration c) else Retry (error_code_message c))"

fun transport :: "app_error \<Rightarrow> failure" where
  "transport (Io inner) = Retry (io_text inner)"
| "transport other = Fatal other"

subsection \<open>Handshake\<close>

text \<open>Read an answer of the server: an ERROR is classified, anything else must be the frame expected.\<close>

definition await_answer :: "msg_type \<Rightarrow> (failure, frame) eio" where
  "await_answer t =
     io_bind (io_map_err transport read_frame) (\<lambda>frame.
     io_bind (io_lift (map_err (\<lambda>e. Fatal (Protocol e)) (require_kind frame Control))) (\<lambda>_.
     if ty frame = Error then
       io_bind (io_lift (map_err (\<lambda>e. Fatal (Protocol e)) (decode_error (payload frame)))) (\<lambda>c.
       io_fail (classify c))
     else
       io_bind (io_lift (map_err (\<lambda>e. Fatal (Protocol e)) (require_type frame t))) (\<lambda>_.
       io_return frame)))"

definition client_register ::
  "hmac \<Rightarrow> expose_config \<Rightarrow> instance_id \<Rightarrow> mode \<Rightarrow> u16 \<Rightarrow> draw \<Rightarrow> (failure, client_session) eio" where
  "client_register hmac config instance_id mode requested_port nonce_draw =
     io_bind (io_map_err transport (write_preamble Control)) (\<lambda>_.
     io_bind (io_lift (map_err Fatal (random nonce_draw))) (\<lambda>client_nonce.
     let hello = \<lparr>ch_instance_id = instance_id, ch_client_nonce = client_nonce, ch_mode = mode,
                  ch_requested_port = requested_port\<rparr> in
     io_bind (io_map_err transport (write_frame (frame_new ControlHello (control_hello_encode hello)))) (\<lambda>_.
     io_bind (await_answer ControlChallenge) (\<lambda>frame.
     io_bind (io_lift (map_err (\<lambda>e. Fatal (Protocol e)) (control_challenge_decode (payload frame)))) (\<lambda>challenge.
     let transcript = control_transcript hello (cc_server_nonce challenge) (cc_session_id challenge) in
     if \<not> verify hmac (bytes_of (ec_key config)) LABEL_CONTROL_SERVER transcript (cc_server_mac challenge)
     then io_fail (Fatal Auth)
     else
     let proof' = mac hmac (bytes_of (ec_key config)) LABEL_CONTROL_CLIENT transcript in
     io_bind (io_map_err transport (write_frame (frame_new ControlProof proof'))) (\<lambda>_.
     io_bind (await_answer Registered) (\<lambda>frame.
     io_bind (io_lift (map_err (\<lambda>e. Fatal (Protocol e)) (registered_decode (payload frame)))) (\<lambda>registered.
     let ready = ready_transcript transcript (rg_assigned_port registered) (rg_max_connections registered) in
     if \<not> verify hmac (bytes_of (ec_key config)) LABEL_CONTROL_READY ready (rg_ready_mac registered)
     then io_fail (Fatal Auth)
     else if requested_port \<noteq> 0 \<and> rg_assigned_port registered \<noteq> requested_port
     then io_fail (Fatal (app_error_protocol ''server assigned a different port than requested''))
     else io_return \<lparr>cs_session_id = cc_session_id challenge,
                     cs_server_addr = \<lparr>sa_ip = V4 0, sa_port = 0\<rparr>,
                     cs_assigned_port = rg_assigned_port registered,
                     cs_max_connections = rg_max_connections registered\<rparr>))))))))"

text \<open>
  The network answers \<open>net::dial\<close> meets are \<open>env\<close>, \<open>peer\<close> is the outcome of \<open>peer_addr\<close>; the socket
  acted on is the one the dialled stream stands for.
\<close>

definition connect_and_register ::
  "hmac \<Rightarrow> expose_config \<Rightarrow> instance_id \<Rightarrow> mode \<Rightarrow> u16 \<Rightarrow> timing \<Rightarrow> dial_env \<Rightarrow>
     (io_error, socket_addr) result \<Rightarrow> draw \<Rightarrow> (failure, client_session) eio" where
  "connect_and_register hmac config instance_id mode requested_port tm env peer nonce_draw =
     io_bind (io_lift (map_err (\<lambda>e. Retry (app_error_display e))
       (dial env (ec_server config) (control_attempt tm)))) (\<lambda>_.
     io_bind (io_lift (map_err (\<lambda>e. Retry (io_text e)) peer)) (\<lambda>server_addr.
     io_or_else (io_bind (client_register hmac config instance_id mode requested_port nonce_draw) (\<lambda>session.
       io_return (session\<lparr>cs_server_addr := server_addr\<rparr>))) shutdown))"

subsection \<open>Session loop\<close>

text \<open>
  A snapshot of the client's loop also shows whether the user asked to quit and whether a permit for
  another connection is free.
\<close>

record client_poll = poll +
  po_quit :: bool
  po_permit :: bool

definition client_goodbye :: "client_poll \<Rightarrow> attempt \<times> action list" where
  "client_goodbye po = (Clean, queue_if po (outbound_frame Goodbye []))"

text \<open>What \<open>goodbye\<close> then waits for, among the frames that arrive within the grace period.\<close>

fun acknowledged :: "(app_error, frame) result list \<Rightarrow> bool" where
  "acknowledged [] = False"
| "acknowledged (Inr frame # rs) = (ty frame = GoodbyeAck \<or> acknowledged rs)"
| "acknowledged (Inl _ # rs) = acknowledged rs"

definition malformed :: "string \<Rightarrow> attempt turn" where
  "malformed what = Break (AttemptFatal (app_error_protocol (''malformed '' @ what)))"

fun attempt_of :: "failure \<Rightarrow> attempt" where
  "attempt_of (Fatal e) = AttemptFatal e"
| "attempt_of (Retry m) = AttemptRetry m"

definition open_context_for ::
  "expose_config \<Rightarrow> client_session \<Rightarrow> writer \<Rightarrow> timing \<Rightarrow> token \<Rightarrow> request_id \<Rightarrow> open_context" where
  "open_context_for config session w tm session_cancel request_id =
     \<lparr>oc_request_id = request_id, oc_session_id = cs_session_id session,
      oc_server_addr = cs_server_addr session, oc_target = ec_target config, oc_key = ec_key config,
      oc_writer = w, oc_timing = tm, oc_cancel = session_cancel\<rparr>"

text \<open>In the loop, \<open>ctx\<close> is what the attempt gives to the task of a request.\<close>

definition client_frame ::
  "(request_id \<Rightarrow> open_context) \<Rightarrow> client_poll \<Rightarrow> frame \<Rightarrow> heartbeat \<Rightarrow> attempt turn \<times> action list" where
  "client_frame ctx po frame hb =
     (case ty frame of
        Open \<Rightarrow>
          (case decode_request_id (payload frame) of
             Inl _ \<Rightarrow> (malformed ''OPEN'', [])
           | Inr request_id \<Rightarrow>
               if \<not> po_permit po then
                 (Continue hb, queue_if po (outbound_frame OpenFailed
                    (open_failed_encode \<lparr>of_request_id = request_id, of_reason = LocalCapacity\<rparr>)))
               else (Continue hb, [SpawnOpen (ctx request_id)]))
      | Ping \<Rightarrow>
          (case decode_sequence (payload frame) of
             Inl _ \<Rightarrow> (malformed ''PING'', [])
           | Inr v \<Rightarrow>
               if po_send_ok po (pong_frame v) then (Continue hb, [Queue (pong_frame v)])
               else (Break (AttemptRetry ''control queue unavailable''), []))
      | Pong \<Rightarrow>
          (case decode_sequence (payload frame) of
             Inl _ \<Rightarrow> (malformed ''PONG'', [])
           | Inr v \<Rightarrow> (Continue (accept_pong v hb), []))
      | ServerShutdown \<Rightarrow> (Break (AttemptRetry ''server is shutting down''), [])
      | Error \<Rightarrow>
          (case decode_error (payload frame) of
             Inl _ \<Rightarrow> (malformed ''ERROR'', [])
           | Inr c \<Rightarrow> (Break (attempt_of (classify c)), []))
      | GoodbyeAck \<Rightarrow> (Continue hb, [])
      | _ \<Rightarrow> (Break (AttemptFatal (app_error_protocol ''unexpected control message from the server'')), []))"

definition client_iteration ::
  "timing \<Rightarrow> (request_id \<Rightarrow> open_context) \<Rightarrow> client_poll \<Rightarrow> heartbeat \<Rightarrow> attempt turn \<times> action list" where
  "client_iteration tm ctx po hb =
     (if po_quit po then (case client_goodbye po of (a, as) \<Rightarrow> (Break a, as))
      else if po_cancelled po then (Break (AttemptRetry ''control connection closed''), [])
      else if pong_due po hb then (Break (AttemptRetry ''no heartbeat reply from the server''), [])
      else if po_tick po then ping_turn tm (AttemptRetry ''control queue unavailable'') po hb
      else case po_incoming po of
          None \<Rightarrow> (Continue hb, [])
        | Some None \<Rightarrow> (Break (AttemptRetry ''control connection closed''), [])
        | Some (Some (Inl (Protocol e))) \<Rightarrow> (Break (AttemptFatal (Protocol e)), [])
        | Some (Some (Inl e)) \<Rightarrow> (Break (AttemptRetry (app_error_display e)), [])
        | Some (Some (Inr frame)) \<Rightarrow> client_frame ctx po frame hb)"

text \<open>\<open>session_cancel\<close> ends every task of the attempt when the loop does.\<close>

definition run_session ::
  "expose_config \<Rightarrow> client_session \<Rightarrow> timing \<Rightarrow> writer \<Rightarrow> token \<Rightarrow> client_poll list \<Rightarrow>
     attempt option \<times> action list" where
  "run_session config session tm w session_cancel pos =
     (case select_loop (client_iteration tm (open_context_for config session w tm session_cancel))
             pos heartbeat_initial of
        (None, as) \<Rightarrow> (None, as)
      | (Some a, as) \<Rightarrow> (Some a, as @ [Cancel session_cancel]))"

text \<open>The tasks of the client's control connection do what those of the server's do.\<close>

definition client_writer_loop ::
  "token \<Rightarrow> nat option list \<Rightarrow> outbound list \<Rightarrow> conn \<Rightarrow> conn \<times> action list" where
  "client_writer_loop = writer_loop"

definition client_read_frames :: "nat \<Rightarrow> conn \<Rightarrow> (app_error, frame) result list \<times> conn" where
  "client_read_frames = read_frames"

subsection \<open>One attempt\<close>

definition attempt_mode :: "client_state \<Rightarrow> mode \<times> u16" where
  "attempt_mode st =
     (let fresh = (Fresh, case cl_requested_port st of Some p \<Rightarrow> p | None \<Rightarrow> 0) in
      if cl_ever_registered st then
        (case cl_last_assigned st of Some p \<Rightarrow> (Resume, p) | None \<Rightarrow> fresh)
      else fresh)"

text \<open>Everything an attempt meets: timers, network and peer.\<close>

record attempt_env =
  ae_quit :: bool
  ae_elapsed :: bool
  ae_dial :: dial_env
  ae_peer :: "(io_error, socket_addr) result"
  ae_nonce :: draw
  ae_conn :: conn
  ae_writer :: writer
  ae_session_cancel :: token
  ae_polls :: "client_poll list"

record attempt_result =
  ar_attempt :: "attempt option"
  ar_state :: client_state
  ar_actions :: "action list"
  ar_stdout :: "string list"

definition ended :: "attempt \<Rightarrow> client_state \<Rightarrow> attempt_result" where
  "ended a st = \<lparr>ar_attempt = Some a, ar_state = st, ar_actions = [], ar_stdout = []\<rparr>"

definition client_attempt ::
  "hmac \<Rightarrow> expose_config \<Rightarrow> timing \<Rightarrow> attempt_env \<Rightarrow> client_state \<Rightarrow> attempt_result" where
  "client_attempt hmac config tm ae st =
     (case attempt_mode st of (mode, requested_port) \<Rightarrow>
      if ae_quit ae then ended Clean st
      else if ae_elapsed ae then ended (AttemptRetry ''control connection attempt timed out'') st
      else case fst (connect_and_register hmac config (cl_instance_id st) mode requested_port tm
                       (ae_dial ae) (ae_peer ae) (ae_nonce ae) (ae_conn ae)) of
          Inl f \<Rightarrow> ended (attempt_of f) st
        | Inr session \<Rightarrow>
            (case run_session config session tm (ae_writer ae) (ae_session_cancel ae) (ae_polls ae) of (r, as) \<Rightarrow>
              \<lparr>ar_attempt = r,
               ar_state = st\<lparr>cl_ever_registered := True, cl_last_assigned := Some (cs_assigned_port session)\<rparr>,
               ar_actions = as,
               ar_stdout = [''remote_port='' @ show_nat (unat (cs_assigned_port session))]\<rparr>))"

subsection \<open>Reconnecting\<close>

text \<open>One round of the supervisor's loop: when it sees the cancellation token set.\<close>

record round =
  ro_cancelled :: bool
  ro_env :: attempt_env
  ro_cancelled_after :: bool
  ro_cancelled_asleep :: bool

definition client_state_new :: "expose_config \<Rightarrow> instance_id \<Rightarrow> client_state" where
  "client_state_new config instance_id =
     \<lparr>cl_instance_id = instance_id, cl_requested_port = ec_remote_port config,
      cl_last_assigned = None, cl_ever_registered = False\<rparr>"

text \<open>The result of the loop (\<open>None\<close>: still running), the final state and the lines printed.\<close>

fun client_loop ::
  "hmac \<Rightarrow> expose_config \<Rightarrow> timing \<Rightarrow> round list \<Rightarrow> client_state \<Rightarrow>
     (app_error, unit) result option \<times> client_state \<times> string list" where
  "client_loop hmac config tm [] st = (None, st, [])"
| "client_loop hmac config tm (ro # ros) st =
     (if ro_cancelled ro then (Some (Inr ()), st, [])
      else
        let res = client_attempt hmac config tm (ro_env ro) st in
        case ar_attempt res of
          None \<Rightarrow> (None, ar_state res, ar_stdout res)
        | Some Clean \<Rightarrow> (Some (Inr ()), ar_state res, ar_stdout res)
        | Some (AttemptFatal e) \<Rightarrow> (Some (Inl e), ar_state res, ar_stdout res)
        | Some (AttemptRetry reason) \<Rightarrow>
            if ro_cancelled_after ro \<or> ro_cancelled_asleep ro
            then (Some (Inr ()), ar_state res, ar_stdout res)
            else (case client_loop hmac config tm ros (ar_state res) of
                    (r, st', out) \<Rightarrow> (r, st', ar_stdout res @ out)))"

definition client_run ::
  "hmac \<Rightarrow> expose_config \<Rightarrow> timing \<Rightarrow> draw \<Rightarrow> round list \<Rightarrow>
     (app_error, unit) result option \<times> string list" where
  "client_run hmac config tm instance_draw ros =
     (case random instance_draw of
        Inl e \<Rightarrow> (Some (Inl e), [])
      | Inr instance_id \<Rightarrow>
          (case client_loop hmac config tm ros (client_state_new config instance_id) of
             (r, _, out) \<Rightarrow> (r, out)))"

subsection \<open>The session loop keeps the heartbeat contract\<close>

lemma client_frame_Continue:
  assumes "client_frame ctx po f hb = (Continue hb', as)" and "po_incoming po = Some (Some (Inr f))"
  shows "hb' = hb \<or> (\<exists>v. pong_in po v \<and> hb' = accept_pong v hb)"
  using assms
  by (auto simp: client_frame_def malformed_def pong_in_def split: msg_type.splits sum.splits if_splits)

lemma client_frame_no_ping: "a \<in> set (snd (client_frame ctx po f hb)) \<Longrightarrow> \<not> ping_sent a"
  by (auto simp: client_frame_def malformed_def queue_if_def split: msg_type.splits sum.splits if_splits)

interpretation client_heart: heartbeat_loop "client_iteration tm ctx" tm
proof (unfold_locales, goal_cases)
  case (1 po hb)
  then show ?case by (auto simp: client_iteration_def split: prod.splits)
next
  case (2 po hb hb' as)
  then show ?case
    unfolding client_iteration_def
    by (auto dest: ping_turn_Continue client_frame_Continue
        split: if_splits option.splits sum.splits prod.splits app_error.splits)
next
  case (3 po hb)
  have "\<forall>a \<in> set (snd (client_goodbye po)). \<not> ping_sent a" by (simp add: client_goodbye_def queue_if_def)
  then show ?case
    unfolding client_iteration_def
    by (auto intro: ping_turn_idle pings_if_idle_none dest: client_frame_no_ping
        split: option.splits sum.splits prod.splits app_error.splits)
qed

end
