(* ===== verification/Server_Data.thy ===== *)
theory Server_Data
  imports Heartbeat
begin

text \<open>
  \<open>src/server/data.rs\<close>: the server's end of a data connection, which authenticates the peer and hands
  its socket to the waiting public connection. \<open>ask\<close> is what comes back for a command. Each handler returns its result, the commands it sent, and the socket.
\<close>

subsection \<open>The handler\<close>

definition data_reject :: "error_code \<Rightarrow> conn \<Rightarrow> (app_error, unit) result \<times> conn" where
  "data_reject c d = (Inr (), (snd (write_error c d))\<lparr>write_closed := True\<rparr>)"

definition is_frame :: "conn_kind \<Rightarrow> msg_type \<Rightarrow> frame \<Rightarrow> bool" where
  "is_frame k t frame = (is_ok (require_kind frame k) \<and> is_ok (require_type frame t))"

text \<open>The second half: challenge, proof and claim.\<close>

definition data_claim ::
  "(command \<Rightarrow> reply option) \<Rightarrow> sock \<Rightarrow> data_hello \<Rightarrow> conn \<Rightarrow> ((app_error, unit) result \<times> conn) \<times> command list" where
  "data_claim ask socket hello d =
     (let cmd = CmdClaimData (dh_session_id hello) (dh_request_id hello) socket in
      ((case handle_claim (ask cmd) of
          Delivered \<Rightarrow> (Inr (), d)
        | Rejected c (Some _) \<Rightarrow> data_reject c d
        | Rejected c None \<Rightarrow> (Inl (Runtime ''data connection lost''), d)), [cmd]))"

definition data_prove ::
  "hmac \<Rightarrow> string \<Rightarrow> (command \<Rightarrow> reply option) \<Rightarrow> draw \<Rightarrow> sock \<Rightarrow> data_hello \<Rightarrow> conn \<Rightarrow>
     ((app_error, unit) result \<times> conn) \<times> command list" where
  "data_prove hmac key ask nonce_draw socket hello c =
     (case random nonce_draw of
        Inl e \<Rightarrow> ((Inl e, c), [])
      | Inr server_nonce \<Rightarrow>
          let transcript = data_transcript hello server_nonce;
              server_mac = mac hmac (bytes_of key) LABEL_DATA_SERVER transcript in
          (case write_frame (frame_new DataChallenge (data_challenge_encode
                  \<lparr>dc_server_nonce = server_nonce, dc_server_mac = server_mac\<rparr>)) c of
             (Inl e, d) \<Rightarrow> ((Inl e, d), [])
           | (Inr _, d) \<Rightarrow>
               (case read_frame d of
                  (Inl e, d) \<Rightarrow> ((Inl e, d), [])
                | (Inr frame, d) \<Rightarrow>
                    if \<not> is_frame Data DataProof frame then (data_reject ProtocolErr d, [])
                    else if \<not> verify hmac (bytes_of key) LABEL_DATA_CLIENT transcript (payload frame)
                    then (data_reject AuthFailed d, [])
                    else data_claim ask socket hello d)))"

definition data_handshake ::
  "hmac \<Rightarrow> string \<Rightarrow> (command \<Rightarrow> reply option) \<Rightarrow> draw \<Rightarrow> sock \<Rightarrow> conn \<Rightarrow>
     ((app_error, unit) result \<times> conn) \<times> command list" where
  "data_handshake hmac key ask nonce_draw socket c =
     (case read_frame c of
        (Inl e, d) \<Rightarrow> ((Inl e, d), [])
      | (Inr frame, d) \<Rightarrow>
          if \<not> is_frame Data DataHello frame then (data_reject ProtocolErr d, [])
          else (case data_hello_decode (payload frame) of
              Inl e \<Rightarrow> (data_reject (code e) d, [])
            | Inr hello \<Rightarrow>
                let cmd = CmdPeekData (dh_session_id hello) (dh_request_id hello) in
                if \<not> handle_peek (ask cmd) then (data_reject RequestUnavailable d, [cmd])
                else (case data_prove hmac key ask nonce_draw socket hello d of
                        (r, cmds) \<Rightarrow> (r, cmd # cmds))))"

text \<open>
  \<open>serve\<close>: \<open>elapsed = Some (n, k)\<close> when the deadline passed after \<open>n\<close> bytes and \<open>k\<close> commands; the
  result is then \<open>Ok\<close> and the socket is dropped.
\<close>

definition data_serve ::
  "hmac \<Rightarrow> string \<Rightarrow> (command \<Rightarrow> reply option) \<Rightarrow> draw \<Rightarrow> sock \<Rightarrow> (nat \<times> nat) option \<Rightarrow> conn \<Rightarrow>
     ((app_error, unit) result \<times> conn) \<times> command list" where
  "data_serve hmac key ask nonce_draw socket elapsed c =
     (case data_handshake hmac key ask nonce_draw socket c of
        ((r, d), cmds) \<Rightarrow>
          (case elapsed of
             None \<Rightarrow> ((r, d), cmds)
           | Some (n, k) \<Rightarrow>
               ((Inr (), d\<lparr>outgoing := take (length (outgoing c) + n) (outgoing d)\<rparr>), take k cmds)))"

end
