(* ===== verification/Server_Run.thy ===== *)
theory Server_Run
  imports Server_Control Server_Data Net_Addr
begin

text \<open>
  \<open>src/server/listener.rs\<close>, \<open>src/server/mod.rs\<close> and \<open>src/forward.rs\<close>: the accept loops of the public
  ports, the task of one public connection, and the supervisor with its handshake permits and the
  dispatch of incoming connections.
\<close>

subsection \<open>Public listeners\<close>

text \<open>
  What one turn of a listener's loop meets: cancellation, an accept error, or a connection together
  with the answer of \<open>try_send\<close> on the command channel.
\<close>

datatype try_send_result = SendOk | SendFull | SendClosed

datatype accept_event =
    ListenerCancelled
  | AcceptFailed
  | PublicAccepted sock socket_addr instant try_send_result

text \<open>The commands sent and the sockets dropped; the last component says whether the port was closed.\<close>

fun listener_loop :: "u64 \<Rightarrow> u16 \<Rightarrow> accept_event list \<Rightarrow> command list \<times> sock list \<times> bool" where
  "listener_loop lid p [] = ([], [], False)"
| "listener_loop lid p (ListenerCancelled # evs) = ([], [], True)"
| "listener_loop lid p (AcceptFailed # evs) = listener_loop lid p evs"
| "listener_loop lid p (PublicAccepted socket peer at res # evs) =
     (case res of
        SendOk \<Rightarrow>
          (case listener_loop lid p evs of
             (cmds, drops, closed) \<Rightarrow> (CmdAcceptedPublic lid p socket peer at # cmds, drops, closed))
      | SendFull \<Rightarrow>
          (case listener_loop lid p evs of (cmds, drops, closed) \<Rightarrow> (cmds, socket # drops, closed))
      | SendClosed \<Rightarrow> ([], [socket], True))"

subsection \<open>One public connection\<close>

datatype public_event =
    PublicShutdown
  | DataShutdown
  | ForwardBoth
  | Finished command

text \<open>
  The first \<open>select!\<close> is biased: cancellation, then the deadline, then the data socket (\<open>None\<close>: its
  sender was dropped). The second one races the DATA-READY frame in the same order; when it is abandoned,
  \<open>sent\<close> of its bytes may already be out. The result lists what happens to the sockets and the data
  socket's state.
\<close>

definition serve_public ::
  "session_id \<Rightarrow> request_id \<Rightarrow> bool \<Rightarrow> bool \<Rightarrow> conn option \<Rightarrow> bool \<Rightarrow> bool \<Rightarrow> nat \<Rightarrow>
     conn option \<times> public_event list" where
  "serve_public sid rid cancelled expired received cancelled' expired' sent =
     (let outcome = (if cancelled then None else if expired then None else received);
          finished = Finished (CmdRequestFinished sid rid) in
      case outcome of
        None \<Rightarrow> (None, [PublicShutdown, finished])
      | Some data \<Rightarrow>
          let (r, written) = write_frame (frame_empty DataReady) data;
              abandoned = written\<lparr>outgoing := take (length (outgoing data) + sent) (outgoing written)\<rparr>;
              (wrote, d) =
                (if cancelled' then (False, abandoned)
                 else if expired' then (False, abandoned)
                 else (is_ok r, written)) in
          if \<not> wrote then (Some d, [PublicShutdown, DataShutdown, finished])
          else (Some d, [ForwardBoth, finished]))"

text \<open>
  \<open>forward\<close>: the copy of tokio runs until both directions are closed (\<open>copied\<close>) unless the token is
  cancelled first.
\<close>

definition forward :: "(io_error, nat \<times> nat) result option \<Rightarrow> bool \<Rightarrow> (io_error, nat \<times> nat) result option" where
  "forward copied cancelled =
     (case copied of
        Some r \<Rightarrow> Some r
      | None \<Rightarrow>
          if cancelled then Some (Inl \<lparr>kind = ConnectionAborted, io_text = ''forwarding cancelled''\<rparr>) else None)"

subsection \<open>Dispatch\<close>

datatype dispatched =
    ToControl conn
  | ToData conn
  | Ended "(app_error, unit) result" conn

text \<open>\<open>elapsed\<close>: the handshake deadline passed before the preamble was complete.\<close>

definition dispatch :: "bool \<Rightarrow> conn \<Rightarrow> dispatched" where
  "dispatch elapsed c =
     (if elapsed then Ended (Inr ()) c
      else case read_preamble c of
          (Inr Control, d) \<Rightarrow> ToControl d
        | (Inr Data, d) \<Rightarrow> ToData d
        | (Inl (Protocol e), d) \<Rightarrow> Ended (Inl (Protocol e)) (snd (write_error (code e) d))
        | (Inl e, d) \<Rightarrow> Ended (Inl e) d)"

text \<open>
  What the task of one connection meets: its socket, whether the preamble came in time, and what the
  handler of a control connection and that of a data connection meet. Of a session, \<open>cw_polls\<close> are the
  snapshots up to now.
\<close>

record control_world =
  cw_nonce :: draw
  cw_session :: draw
  cw_elapsed :: "nat option"
  cw_error_stall :: "nat option"
  cw_handles :: "writer \<times> token \<times> token"
  cw_answer :: "(error_code, registration) result"
  cw_announce :: bool
  cw_polls :: "poll list"

record conn_world =
  nw_conn :: conn
  nw_elapsed :: bool
  nw_control :: control_world
  nw_ask :: "command \<Rightarrow> reply option"
  nw_nonce :: draw
  nw_socket :: sock
  nw_data_elapsed :: "(nat \<times> nat) option"

text \<open>\<open>dispatch\<close> with the handler it awaits. \<open>None\<close>: it has not returned, the session goes on.\<close>

definition dispatch_run :: "hmac \<Rightarrow> string \<Rightarrow> timing \<Rightarrow> conn_world \<Rightarrow> (app_error, unit) result option" where
  "dispatch_run hmac key tm w =
     (case dispatch (nw_elapsed w) (nw_conn w) of
        ToControl d \<Rightarrow>
          (let cw = nw_control w in
           case control_serve hmac key tm (cw_nonce cw) (cw_session cw) (cw_elapsed cw) (cw_error_stall cw)
                  (cw_handles cw) (cw_answer cw) (cw_announce cw) (cw_polls cw) d of
             ((None, _), _) \<Rightarrow> None
           | ((Some _, _), _) \<Rightarrow> Some (Inr ()))
      | ToData d \<Rightarrow>
          (case data_serve hmac key (nw_ask w) (nw_nonce w) (nw_socket w) (nw_data_elapsed w) d of
             ((r, _), _) \<Rightarrow> Some r)
      | Ended r d \<Rightarrow> Some r)"

subsection \<open>The supervisor\<close>

text \<open>
  The accept loop of \<open>server::run\<close>. The task of a connection holds its handshake permit until its
  \<open>dispatch\<close> returns (\<open>TaskEnded\<close>, not possible before); \<open>TaskPoll\<close> is a further snapshot that the
  session of a task meets.
\<close>

record conn_task =
  ct_id :: nat
  ct_world :: conn_world

record supervisor =
  su_permits :: nat
  su_tasks :: "conn_task list"
  su_refused :: nat
  su_next :: nat

definition supervisor_new :: supervisor where
  "supervisor_new = \<lparr>su_permits = MAX_HANDSHAKES, su_tasks = [], su_refused = 0, su_next = 0\<rparr>"

datatype server_event =
    ServerAccept conn_world
  | ServerAcceptFailed
  | TaskPoll nat poll
  | TaskEnded nat

definition with_poll :: "poll \<Rightarrow> conn_task \<Rightarrow> conn_task" where
  "with_poll po t =
     t\<lparr>ct_world := (ct_world t)\<lparr>nw_control := (nw_control (ct_world t))
        \<lparr>cw_polls := cw_polls (nw_control (ct_world t)) @ [po]\<rparr>\<rparr>\<rparr>"

fun server_step :: "hmac \<Rightarrow> string \<Rightarrow> timing \<Rightarrow> server_event \<Rightarrow> supervisor \<Rightarrow> supervisor option" where
  "server_step hmac key tm (ServerAccept w) s =
     Some (if su_permits s = 0 then s\<lparr>su_refused := Suc (su_refused s)\<rparr>
           else s\<lparr>su_permits := su_permits s - 1,
                  su_tasks := \<lparr>ct_id = su_next s, ct_world = w\<rparr> # su_tasks s,
                  su_next := Suc (su_next s)\<rparr>)"
| "server_step hmac key tm ServerAcceptFailed s = Some s"
| "server_step hmac key tm (TaskPoll i po) s =
     (if i \<in> ct_id ` set (su_tasks s)
      then Some (s\<lparr>su_tasks := map (\<lambda>t. if ct_id t = i then with_poll po t else t) (su_tasks s)\<rparr>)
      else None)"
| "server_step hmac key tm (TaskEnded i) s =
     (if \<exists>t \<in> set (su_tasks s). ct_id t = i \<and> dispatch_run hmac key tm (ct_world t) \<noteq> None
      then Some (s\<lparr>su_permits := Suc (su_permits s), su_tasks := filter (\<lambda>t. ct_id t \<noteq> i) (su_tasks s)\<rparr>)
      else None)"

text \<open>
  \<open>run\<close>: bind the control listener, announce it, serve until the token is cancelled (the end of the
  events), then tell the registry to shut down and wait for the tasks, aborting those that outlast the
  grace period. \<open>os\<close> and \<open>local\<close> are what the socket calls and \<open>local_addr\<close> answer, \<open>inputs\<close> what the
  registry's task takes from its channel before the shutdown and \<open>final\<close> what it meets then.
\<close>

definition server_listen ::
  "(socket_call \<Rightarrow> (io_error, unit) result) \<Rightarrow> (io_error, socket_addr) result \<Rightarrow> server_config \<Rightarrow>
     (app_error, socket_addr) result" where
  "server_listen os local config =
     and_then (map_err (\<lambda>e. Runtime (''cannot listen on '' @ display_addr (sc_listen config) @ '': '' @ io_text e))
       (bind_listener os (sc_listen config))) (\<lambda>_.
     map_err Io local)"

definition startup_log :: "server_config \<Rightarrow> socket_addr \<Rightarrow> string list" where
  "startup_log config local =
     [''tunlet server listening on '' @ display_addr local @ '' (control and data)'',
      ''automatic port range '' @ show_nat (unat (fst (sc_allowed_ports config))) @ ''-'' @
        show_nat (unat (snd (sc_allowed_ports config))) @ '', public bind address '' @
        ip_display (sc_data_bind config) @ '', '' @ show_nat (unat (sc_max_connections config)) @
        '' connections per tunnel'']"

fun server_loop :: "hmac \<Rightarrow> string \<Rightarrow> timing \<Rightarrow> server_event list \<Rightarrow> supervisor \<Rightarrow> supervisor" where
  "server_loop hmac key tm [] s = s"
| "server_loop hmac key tm (e # es) s =
     server_loop hmac key tm es (case server_step hmac key tm e s of Some t \<Rightarrow> t | None \<Rightarrow> s)"

text \<open>\<open>so_registry\<close> is what the registry's task did; \<open>None\<close>: it panicked or never returned.\<close>

record server_outcome =
  so_registry :: "(reply list \<times> registry \<times> effect list) option"
  so_log :: "string list"
  so_aborted :: "conn_task list"

definition server_run ::
  "hmac \<Rightarrow> (socket_call \<Rightarrow> (io_error, unit) result) \<Rightarrow> (io_error, socket_addr) result \<Rightarrow> server_config \<Rightarrow> timing \<Rightarrow>
     server_event list \<Rightarrow> (conn_task \<Rightarrow> bool) \<Rightarrow> input list \<Rightarrow> env \<Rightarrow> (app_error, server_outcome) result" where
  "server_run hmac os local config tm evs ends_in_time inputs final =
     and_then (server_listen os local config) (\<lambda>local.
     let s = server_loop hmac (sc_key config) tm evs supervisor_new in
     Inr \<lparr>so_registry = registry_run final (inputs @ [Cmd final handle_shutdown]) (registry_new config tm),
          so_log = startup_log config local @ [''shutting down''],
          so_aborted = filter (\<lambda>t. \<not> ends_in_time t) (su_tasks s)\<rparr>)"

end
