(* ===== verification/Config_Layers.thy ===== *)
theory Config_Layers
  imports Net_Addr Assoc_Maps
begin

text \<open>
  \<open>src/config.rs\<close>: the configuration file, the layers and the typed settings. A \<open>RawConfig\<close> is a hash
  map, here an association list with distinct keys whose order stands for the unspecified iteration
  order. The file system is the result of \<open>fs::read\<close> (its bytes as characters), the environment a
  function from names to raw values, of which \<open>std::env::var\<close> shows only those in valid UTF-8.
\<close>

subsection \<open>Raw settings\<close>

definition NAMES :: "string list" where
  "NAMES = [''KEY'', ''LISTEN'', ''DATA_BIND'', ''ALLOWED_PORTS'', ''MAX_CONNECTIONS'', ''SERVER'',
     ''REMOTE_PORT'', ''TARGET'', ''LOG_LEVEL'', ''QUIET'']"

type_synonym settings = "(string \<times> string) list"

record raw_config =
  rc_values :: settings

definition raw_default :: raw_config where
  "raw_default = \<lparr>rc_values = []\<rparr>"

text \<open>Inserting the pairs of a sequence one after the other.\<close>

definition hm_extend :: "settings \<Rightarrow> settings \<Rightarrow> settings" where
  "hm_extend m kvs = foldl (\<lambda>m (k, v). hm_insert k v m) m kvs"

definition from_pairs :: "settings \<Rightarrow> raw_config" where
  "from_pairs kvs = \<lparr>rc_values = hm_extend [] kvs\<rparr>"

definition raw_get :: "raw_config \<Rightarrow> string \<Rightarrow> string option" where
  "raw_get raw name = mget (rc_values raw) name"

subsection \<open>Environment\<close>

definition process_env :: "(string \<Rightarrow> string option) \<Rightarrow> string \<Rightarrow> string option" where
  "process_env os name = (case os name of Some v \<Rightarrow> if valid_utf8 v then Some v else None | None \<Rightarrow> None)"

definition env_values :: "(string \<Rightarrow> string option) \<Rightarrow> string list \<Rightarrow> settings \<Rightarrow> settings" where
  "env_values env names m =
     foldl (\<lambda>m name. case env (''TUNLET_'' @ name) of Some v \<Rightarrow> hm_insert name v m | None \<Rightarrow> m) m names"

definition env_config :: "(string \<Rightarrow> string option) \<Rightarrow> raw_config" where
  "env_config env = \<lparr>rc_values = env_values env NAMES []\<rparr>"

subsection \<open>File\<close>

definition config_line_error :: "string \<Rightarrow> nat \<Rightarrow> string \<Rightarrow> app_error" where
  "config_line_error path line reason = Config (path @ '':'' @ show_nat line @ '': '' @ reason)"

text \<open>
  The quotes are single bytes, so a text that starts with one has at least two characters exactly if it
  has at least two bytes.
\<close>

definition unquote :: "string \<Rightarrow> string option" where
  "unquote value =
     (case value of
        [] \<Rightarrow> Some []
      | quote # rest \<Rightarrow>
          if quote = CHR 0x22 \<or> quote = CHR 0x27 then
            (if 2 \<le> length value \<and> last value = quote then Some (butlast rest) else None)
          else Some value)"

definition strip_cr :: "string \<Rightarrow> string" where
  "strip_cr raw_line = (case strip_suffix (CHR 0x0D) raw_line of Some l \<Rightarrow> l | None \<Rightarrow> raw_line)"

text \<open>
  The body of the loop over the lines: \<open>None\<close> for a line that is skipped. Then the loop, whose first line
  has number \<open>n\<close>.
\<close>

definition parse_line :: "string \<Rightarrow> nat \<Rightarrow> string \<Rightarrow> (app_error, (string \<times> string) option) result" where
  "parse_line path n raw_line =
     (let line = strip_cr raw_line;
          trimmed = trim line
      in if trimmed = [] \<or> hd trimmed = CHR ''#'' then Inr None
         else
           and_then (ok_or (config_line_error path n ''expected NAME=value'') (split_once (CHR ''='') line)) (\<lambda>(name, value).
           let name = trim name in
           if name = [] then Inl (config_line_error path n ''empty setting name'')
           else if name \<notin> set NAMES then Inl (config_line_error path n ''unknown setting name'')
           else and_then (ok_or (config_line_error path n ''unterminated quoted value'') (unquote (trim value)))
             (\<lambda>value. Inr (Some (name, value)))))"

fun parse_lines :: "string \<Rightarrow> nat \<Rightarrow> string list \<Rightarrow> settings \<Rightarrow> (app_error, settings) result" where
  "parse_lines path n [] m = Inr m"
| "parse_lines path n (raw_line # lines) m =
     and_then (parse_line path n raw_line) (\<lambda>kv.
     case kv of
       None \<Rightarrow> parse_lines path (Suc n) lines m
     | Some (name, value) \<Rightarrow> parse_lines path (Suc n) lines (hm_insert name value m))"

definition strip_bom :: "string \<Rightarrow> string" where
  "strip_bom bytes =
     (if take 3 bytes = [CHR 0xEF, CHR 0xBB, CHR 0xBF] then drop 3 bytes else bytes)"

definition parse_file :: "string \<Rightarrow> bool \<Rightarrow> (io_error, string) result \<Rightarrow> (app_error, raw_config) result" where
  "parse_file path is_required contents =
     (case contents of
        Inl e \<Rightarrow>
          if kind e = NotFound \<and> \<not> is_required then Inr raw_default
          else Inl (Config (path @ '': cannot read configuration file: '' @ io_text e))
      | Inr bytes \<Rightarrow>
          let text = strip_bom bytes in
          if \<not> valid_utf8 text then Inl (Config (path @ '': configuration file is not valid UTF-8''))
          else and_then (parse_lines path 1 (split_at_char (CHR 0x0A) text) []) (\<lambda>m. Inr \<lparr>rc_values = m\<rparr>))"

subsection \<open>Layers\<close>

definition merge :: "raw_config \<Rightarrow> raw_config \<Rightarrow> raw_config \<Rightarrow> raw_config" where
  "merge file env cli = \<lparr>rc_values = hm_extend (hm_extend (rc_values file) (rc_values env)) (rc_values cli)\<rparr>"

definition resolve ::
  "string \<Rightarrow> bool \<Rightarrow> raw_config \<Rightarrow> (string \<Rightarrow> string option) \<Rightarrow> (string \<Rightarrow> (io_error, string) result) \<Rightarrow>
     (app_error, raw_config) result" where
  "resolve path config_explicit cli env fs =
     and_then (parse_file path config_explicit (fs path)) (\<lambda>file. Inr (merge file (env_config env) cli))"

subsection \<open>Typed settings\<close>

definition required :: "raw_config \<Rightarrow> string \<Rightarrow> (app_error, string) result" where
  "required raw name =
     (case raw_get raw name of
        Some v \<Rightarrow> if v \<noteq> [] then Inr v else Inl (Config (name @ '' must not be empty''))
      | None \<Rightarrow> Inl (Config (name @ '' is required (flag, TUNLET_'' @ name @ '', or configuration file)'')))"

definition get_or :: "raw_config \<Rightarrow> string \<Rightarrow> string \<Rightarrow> string" where
  "get_or raw name d = (case raw_get raw name of Some v \<Rightarrow> v | None \<Rightarrow> d)"

definition quiet :: "raw_config \<Rightarrow> (app_error, bool) result" where
  "quiet raw =
     (let v = get_or raw ''QUIET'' ''false'' in
      if v = ''true'' then Inr True
      else if v = ''false'' then Inr False
      else Inl (Config ''QUIET must be true or false''))"

definition log_level :: "raw_config \<Rightarrow> (app_error, level) result" where
  "log_level raw =
     ok_or (Config ''LOG_LEVEL must be error, info, or debug'') (level_parse (get_or raw ''LOG_LEVEL'' ''info''))"

definition max_connections_setting :: "raw_config \<Rightarrow> (app_error, u32) result" where
  "max_connections_setting raw =
     and_then (ok_or (Config ''MAX_CONNECTIONS must be an integer 1-65535'')
       (parse_u32 (get_or raw ''MAX_CONNECTIONS'' ''256''))) (\<lambda>n.
     if n = 0 \<or> n > 65535 then Inl (Config ''MAX_CONNECTIONS must be an integer 1-65535'') else Inr n)"

definition server_settings :: "raw_config \<Rightarrow> (app_error, server_config) result" where
  "server_settings raw =
     and_then (required raw ''KEY'') (\<lambda>key.
     and_then (parse_listen (get_or raw ''LISTEN'' '':4000'')) (\<lambda>listen.
     and_then (parse_bind_ip (get_or raw ''DATA_BIND'' ''0.0.0.0'')) (\<lambda>data_bind.
     and_then (parse_port_range (get_or raw ''ALLOWED_PORTS'' ''10000-65535'')) (\<lambda>allowed_ports.
     and_then (max_connections_setting raw) (\<lambda>max_connections.
     and_then (log_level raw) (\<lambda>log_level.
     and_then (quiet raw) (\<lambda>quiet.
     Inr \<lparr>sc_key = key, sc_listen = listen, sc_data_bind = data_bind, sc_allowed_ports = allowed_ports,
          sc_max_connections = max_connections, sc_log_level = log_level, sc_quiet = quiet\<rparr>)))))))"

definition remote_port_setting :: "raw_config \<Rightarrow> (app_error, u16 option) result" where
  "remote_port_setting raw =
     (case raw_get raw ''REMOTE_PORT'' of
        None \<Rightarrow> Inr None
      | Some v \<Rightarrow>
          and_then (ok_or (Config ''REMOTE_PORT must be a port number 1024-65535'') (parse_u16 v)) (\<lambda>p.
          if p < 1024 then
            Inl (Config ''REMOTE_PORT must be 1024-65535; omit it to request automatic allocation'')
          else Inr (Some p)))"

definition expose_settings :: "raw_config \<Rightarrow> (app_error, expose_config) result" where
  "expose_settings raw =
     and_then (required raw ''KEY'') (\<lambda>key.
     and_then (and_then (required raw ''SERVER'') parse_server) (\<lambda>server.
     and_then (and_then (required raw ''TARGET'') parse_target) (\<lambda>target.
     and_then (remote_port_setting raw) (\<lambda>remote_port.
     and_then (log_level raw) (\<lambda>log_level.
     and_then (quiet raw) (\<lambda>quiet.
     Inr \<lparr>ec_key = key, ec_server = server, ec_remote_port = remote_port, ec_target = target,
          ec_log_level = log_level, ec_quiet = quiet\<rparr>))))))"

end
