(* ===== verification/Command_Line.thy ===== *)
theory Command_Line
  imports Config_Layers
begin

text \<open>
  \<open>src/cli.rs\<close>: the command line. The loop over the arguments by index is a recursion over those still to
  come; an option that takes its value from the next argument consumes two. The texts of \<open>help\<close> and
  \<open>version\<close> have the version of the package, a value of the build, as their argument.
\<close>

subsection \<open>Commands\<close>

datatype cli_mode = ServerMode | ExposeMode

fun mode_name :: "cli_mode \<Rightarrow> string" where
  "mode_name ServerMode = ''server''"
| "mode_name ExposeMode = ''expose''"

datatype cli_command =
    CliHelp
  | CliVersion
  | CliRun cli_mode string bool raw_config

definition DEFAULT_CONFIG :: string where
  "DEFAULT_CONFIG = ''tunlet.cfg''"

definition default_path :: string where
  "default_path = DEFAULT_CONFIG"

definition VALUE_FLAGS :: "(string \<times> string) list" where
  "VALUE_FLAGS =
     [(''--key'', ''KEY''), (''--listen'', ''LISTEN''), (''--data-bind'', ''DATA_BIND''),
      (''--allowed-ports'', ''ALLOWED_PORTS''), (''--max-connections'', ''MAX_CONNECTIONS''),
      (''--server'', ''SERVER''), (''--remote-port'', ''REMOTE_PORT''), (''--target'', ''TARGET''),
      (''--log-level'', ''LOG_LEVEL'')]"

definition value_flag :: "string \<Rightarrow> string option" where
  "value_flag flag = map_option snd (find (\<lambda>(name, _). name = flag) VALUE_FLAGS)"

subsection \<open>Parsing\<close>

record cli_state =
  cp_mode :: "cli_mode option"
  cp_config :: string
  cp_explicit :: bool
  cp_cli :: raw_config

definition cli_initial :: cli_state where
  "cli_initial = \<lparr>cp_mode = None, cp_config = DEFAULT_CONFIG, cp_explicit = False, cp_cli = raw_default\<rparr>"

definition put :: "string \<Rightarrow> string \<Rightarrow> cli_state \<Rightarrow> cli_state" where
  "put k v st = st\<lparr>cp_cli := \<lparr>rc_values = hm_insert k v (rc_values (cp_cli st))\<rparr>\<rparr>"

definition unexpected :: "string \<Rightarrow> app_error" where
  "unexpected arg = Cli (''unexpected argument `'' @ arg @ ''`'')"

definition split_flag :: "string \<Rightarrow> string \<times> string option" where
  "split_flag arg = (case split_once (CHR ''='') arg of Some (flag, value) \<Rightarrow> (flag, Some value) | None \<Rightarrow> (arg, None))"

text \<open>The value of an option: given inline, or the next argument, or missing (\<open>e\<close>).\<close>

fun take_value :: "app_error \<Rightarrow> string option \<Rightarrow> string list \<Rightarrow> (app_error, string \<times> string list) result" where
  "take_value e (Some v) rest = Inr (v, rest)"
| "take_value e None (v # rest) = Inr (v, rest)"
| "take_value e None [] = Inl e"

text \<open>One option: the state and the arguments after it.\<close>

definition parse_option ::
  "string \<Rightarrow> string list \<Rightarrow> cli_state \<Rightarrow> (app_error, cli_state \<times> string list) result" where
  "parse_option arg rest st =
     (case split_flag arg of (flag, inline) \<Rightarrow>
        if \<not> (flag \<noteq> [] \<and> hd flag = CHR ''-'') then Inl (unexpected arg)
        else if flag = ''--config'' then
          and_then (take_value (Cli ''--config requires a path'') inline rest) (\<lambda>(value, rest).
          if value = [] then Inl (Cli ''--config requires a path'')
          else Inr (st\<lparr>cp_config := value, cp_explicit := True\<rparr>, rest))
        else if cp_mode st = None then
          Inl (Cli (''`'' @ flag @ ''` must follow the server or expose subcommand''))
        else if flag = ''--quiet'' then
          (let value = (case inline of Some v \<Rightarrow> v | None \<Rightarrow> ''true'') in
           if value \<noteq> ''true'' \<and> value \<noteq> ''false'' then
             Inl (Cli ''--quiet accepts only --quiet, --quiet=true, or --quiet=false'')
           else Inr (put ''QUIET'' value st, rest))
        else
          and_then (ok_or (Cli (''unrecognized option `'' @ flag @ ''`'')) (value_flag flag)) (\<lambda>key.
          and_then (take_value (Cli (flag @ '' requires a value'')) inline rest) (\<lambda>(value, rest).
          Inr (put key value st, rest))))"

lemma parse_option_shorter [termination_simp]:
  "parse_option arg rest st = Inr (st', rest') \<Longrightarrow> length rest' < Suc (length rest)"
proof -
  have "take_value e inline rest = Inr (v, r) \<Longrightarrow> length r \<le> length rest" for e inline v r
    by (induction e inline rest rule: take_value.induct) auto
  then show "parse_option arg rest st = Inr (st', rest') \<Longrightarrow> length rest' < Suc (length rest)"
    by (fastforce simp: parse_option_def Let_def and_then_eq_Inr less_Suc_eq_le split: prod.splits if_splits)
qed

fun parse_args :: "string list \<Rightarrow> cli_state \<Rightarrow> (app_error, cli_command) result" where
  "parse_args [] st =
     and_then (ok_or (Cli ''expected a subcommand: `server` or `expose`. Try --help'') (cp_mode st)) (\<lambda>mode.
     Inr (CliRun mode (cp_config st) (cp_explicit st) (cp_cli st)))"
| "parse_args (arg # rest) st =
     (if arg = ''-h'' \<or> arg = ''--help'' then Inr CliHelp
      else if arg = ''-V'' \<or> arg = ''--version'' then Inr CliVersion
      else if arg = ''server'' \<or> arg = ''expose'' then
        (if cp_mode st \<noteq> None then Inl (unexpected arg)
         else parse_args rest (st\<lparr>cp_mode := Some (if arg = ''server'' then ServerMode else ExposeMode)\<rparr>))
      else case parse_option arg rest st of
          Inl e \<Rightarrow> Inl e
        | Inr (st', rest') \<Rightarrow> parse_args rest' st')"

text \<open>\<open>parse\<close>: the program name is skipped, and bytes that are not UTF-8 are replaced.\<close>

definition cli_parse :: "string list \<Rightarrow> (app_error, cli_command) result" where
  "cli_parse args = parse_args (map to_string_lossy (drop 1 args)) cli_initial"

subsection \<open>Help and version\<close>

definition help_lines :: "string \<Rightarrow> string list" where
  "help_lines version =
     [''tunlet '' @ version @ '' - a small authenticated TCP tunnel'',
      [],
      ''Usage:'',
      ''  tunlet server [options]'',
      ''  tunlet expose [options]'',
      [],
      ''Common options:'',
      ''  -h, --help                 show this help and exit'',
      ''  -V, --version              show version and exit'',
      ''      --config PATH          configuration file (default ./'' @ DEFAULT_CONFIG @ '')'',
      ''      --key TEXT             shared key, any non-empty text (also TUNLET_KEY)'',
      ''      --log-level LEVEL      error, info, or debug (default info)'',
      ''      --quiet[=true|false]   suppress routine logs; --quiet=false undoes an'',
      ''                             inherited quiet setting'',
      [],
      ''server options:'',
      ''      --listen ADDR          control and data listener, default :4000'',
      ''                             (`:PORT` means 0.0.0.0:PORT; ports 1024-65535)'',
      ''      --data-bind IP         bind address for public listeners, default 0.0.0.0'',
      ''      --allowed-ports MIN-MAX'',
      ''                             range used for automatic allocation only, default'',
      ''                             10000-65535. A client asking for a specific port'',
      ''                             outside this range is still allowed.'',
      ''      --max-connections N    pending plus active public connections per tunnel,'',
      ''                             default 256'',
      [],
      ''expose options:'',
      ''      --server HOST:PORT     public server control address (required)'',
      ''      --target HOST:PORT     local target to forward to (required);'',
      ''                             `:PORT` means 127.0.0.1:PORT'',
      ''      --remote-port PORT     requested public port, 1024-65535. Omit to request'',
      ''                             automatic allocation; the assigned port is printed'',
      ''                             as `remote_port=N` on stdout.'',
      [],
      ''Settings may come from flags, TUNLET_* environment variables, or the'',
      ''configuration file, in that order of precedence. Application bytes are'',
      ''forwarded unchanged and are not encrypted; see the README security section.'']"

definition cli_help :: "string \<Rightarrow> string" where
  "cli_help version = concat (map (\<lambda>l. l @ [CHR 0x0A]) (help_lines version))"

definition cli_version :: "string \<Rightarrow> string" where
  "cli_version version = ''tunlet '' @ version"

end
