(* ===== verification/Program_Entry.thy ===== *)
theory Program_Entry
  imports Client_Control Server_Run Command_Line
begin

text \<open>
  \<open>src/main.rs\<close> and \<open>src/shutdown.rs\<close>: from the command line to a running server or client and to the
  exit status. Arguments, environment, file system and everything the running program meets are
  arguments.
\<close>

subsection \<open>Starting\<close>

datatype program =
    PrintText string
  | RunServer server_config log_state
  | RunExpose expose_config log_state

definition start ::
  "string \<Rightarrow> string list \<Rightarrow> (string \<Rightarrow> string option) \<Rightarrow> (string \<Rightarrow> (io_error, string) result) \<Rightarrow>
     (app_error, program) result" where
  "start version args os_env fs =
     and_then (cli_parse args) (\<lambda>command.
     case command of
       CliHelp \<Rightarrow> Inr (PrintText (cli_help version))
     | CliVersion \<Rightarrow> Inr (PrintText (cli_version version @ [CHR 0x0A]))
     | CliRun mode path config_explicit raw \<Rightarrow>
         and_then (resolve path config_explicit raw (process_env os_env) fs) (\<lambda>merged.
         case mode of
           ServerMode \<Rightarrow>
             and_then (server_settings merged) (\<lambda>config.
             Inr (RunServer config (log_init (sc_log_level config) (sc_quiet config) log_initial)))
         | ExposeMode \<Rightarrow>
             and_then (expose_settings merged) (\<lambda>config.
             Inr (RunExpose config (log_init (ec_log_level config) (ec_quiet config) log_initial)))))"

subsection \<open>Running\<close>

text \<open>What the server and the client meet while they run.\<close>

record world =
  wo_os :: "socket_call \<Rightarrow> (io_error, unit) result"
  wo_local :: "(io_error, socket_addr) result"
  wo_events :: "server_event list"
  wo_in_time :: "conn_task \<Rightarrow> bool"
  wo_inputs :: "input list"
  wo_final :: env
  wo_hmac :: hmac
  wo_draw :: draw
  wo_rounds :: "round list"

text \<open>\<open>None\<close>: still running.\<close>

definition main_run ::
  "string \<Rightarrow> string list \<Rightarrow> (string \<Rightarrow> string option) \<Rightarrow> (string \<Rightarrow> (io_error, string) result) \<Rightarrow> world \<Rightarrow>
     (app_error, unit) result option" where
  "main_run version args os_env fs w =
     (case start version args os_env fs of
        Inl e \<Rightarrow> Some (Inl e)
      | Inr (PrintText t) \<Rightarrow> Some (Inr ())
      | Inr (RunServer config l) \<Rightarrow>
          Some (and_then (server_run (wo_hmac w) (wo_os w) (wo_local w) config timing_default (wo_events w)
              (wo_in_time w) (wo_inputs w) (wo_final w)) (\<lambda>_. Inr ()))
      | Inr (RunExpose config l) \<Rightarrow> fst (client_run (wo_hmac w) config timing_default (wo_draw w) (wo_rounds w)))"

text \<open>
  \<open>main\<close>: the exit status and the line on standard error. \<open>runtime\<close> is the outcome of building the
  asynchronous runtime.
\<close>

definition main ::
  "(io_error, unit) result \<Rightarrow> string \<Rightarrow> string list \<Rightarrow> (string \<Rightarrow> string option) \<Rightarrow>
     (string \<Rightarrow> (io_error, string) result) \<Rightarrow> world \<Rightarrow> (u8 \<times> string option) option" where
  "main runtime version args os_env fs w =
     (case runtime of
        Inl e \<Rightarrow> Some (1, Some (''tunlet: cannot start the async runtime: '' @ io_text e))
      | Inr _ \<Rightarrow>
          (case main_run version args os_env fs w of
             None \<Rightarrow> None
           | Some (Inr _) \<Rightarrow> Some (0, None)
           | Some (Inl e) \<Rightarrow> Some (of_int (exit_code e), Some (''tunlet: '' @ app_error_display e))))"

subsection \<open>Signals\<close>

text \<open>
  The wake-ups in the order they arrive; SIGTERM is only seen if its handler could be installed.
  \<open>Some True\<close>: the token is cancelled by this function; \<open>Some False\<close>: it was cancelled already.
\<close>

datatype wake = CtrlC | Terminate | TokenCancelled

fun wait_for_signal :: "bool \<Rightarrow> wake list \<Rightarrow> bool option" where
  "wait_for_signal handler [] = None"
| "wait_for_signal handler (CtrlC # ws) = Some True"
| "wait_for_signal handler (Terminate # ws) = (if handler then Some True else wait_for_signal handler ws)"
| "wait_for_signal handler (TokenCancelled # ws) = Some False"

end
