(* ===== verification/Config_Props.thy ===== *)
theory Config_Props
  imports Config_Layers
begin

text \<open>
  Properties of the configuration: the precedence of its layers, reading back a file, what the typed
  settings guarantee, and what an error message may contain.
\<close>

subsection \<open>Layers\<close>

lemma mget_hm_extend: "mget (hm_extend m kvs) k = (case map_of (rev kvs) k of Some v \<Rightarrow> Some v | None \<Rightarrow> mget m k)"
proof (induction kvs arbitrary: m)
  case (Cons kv kvs)
  obtain j v where kv: "kv = (j, v)" by (cases kv)
  have "mget (hm_extend m (kv # kvs)) k = mget (hm_extend (hm_insert j v m) kvs) k"
    by (simp add: hm_extend_def kv)
  then show ?case using Cons by (simp add: kv map_simps map_add_def split: option.splits)
qed (simp add: hm_extend_def)

lemma map_of_rev: "distinct (map fst m) \<Longrightarrow> map_of (rev m) = map_of m"
  by (rule map_of_eqI) (auto simp: rev_map [symmetric] map_of_eq_None_iff dest: map_of_SomeD)

lemma mget_hm_extend_map:
  "hm_wf n \<Longrightarrow> mget (hm_extend m n) k = (case mget n k of Some v \<Rightarrow> Some v | None \<Rightarrow> mget m k)"
  by (simp add: mget_hm_extend map_of_rev hm_wf_def mget_def [of n])

lemma hm_wf_extend: "hm_wf m \<Longrightarrow> hm_wf (hm_extend m kvs)"
  unfolding hm_extend_def by (induction kvs arbitrary: m) (auto simp: hm_wf_insert split: prod.splits)

lemma env_values_Cons:
  "env_values env (n # ns) m =
   env_values env ns (case env (''TUNLET_'' @ n) of Some v \<Rightarrow> hm_insert n v m | None \<Rightarrow> m)"
  by (simp add: env_values_def)

lemma mget_env_values:
  "mget (env_values env ns m) k =
   (case (if k \<in> set ns then env (''TUNLET_'' @ k) else None) of Some v \<Rightarrow> Some v | None \<Rightarrow> mget m k)"
proof (induction ns arbitrary: m)
  case (Cons n ns)
  then show ?case unfolding env_values_Cons by (auto simp: map_simps split: option.splits)
qed (simp add: env_values_def)

lemma hm_wf_env_values: "hm_wf m \<Longrightarrow> hm_wf (env_values env ns m)"
proof (induction ns arbitrary: m)
  case (Cons n ns)
  then show ?case unfolding env_values_Cons by (simp add: hm_wf_insert split: option.splits)
qed (simp add: env_values_def)

lemma parse_line_name: "parse_line path n l = Inr (Some (k, v)) \<Longrightarrow> k \<in> set NAMES"
  by (auto simp: parse_line_def Let_def and_then_eq_Inr split: if_splits)

lemma parse_lines_wf:
  assumes "parse_lines path n ls m = Inr m'" and "hm_wf m"
  shows "hm_wf m'"
  using assms
  by (induction path n ls m rule: parse_lines.induct)
    (auto simp: and_then_eq_Inr hm_wf_insert split: option.splits)

lemma keys_hm_insert: "fst ` set (hm_insert k v m) \<subseteq> insert k (fst ` set m)"
  by (auto simp: hm_insert_def mrem_def)

lemma parse_lines_names:
  assumes "parse_lines path n ls m = Inr m'" and "fst ` set m \<subseteq> set NAMES"
  shows "fst ` set m' \<subseteq> set NAMES"
  using assms
proof (induction path n ls m rule: parse_lines.induct)
  case (2 path n l ls m)
  have ins: "fst ` set (hm_insert k v m) \<subseteq> set NAMES" if "parse_line path n l = Inr (Some (k, v))" for k v
    using 2(4) parse_line_name [OF that] keys_hm_insert [of k v m] by blast
  obtain kv where kv: "parse_line path n l = Inr kv" using 2(3) by (auto simp: and_then_eq_Inr)
  show ?case
  proof (cases kv)
    case None
    then show ?thesis using 2(1,3,4) kv by simp
  next
    case (Some p)
    obtain k v where p: "p = (k, v)" by (cases p)
    show ?thesis
      using 2(2) [of k v] 2(3) ins [of k v] kv Some p by simp
  qed
qed simp

lemma parse_file_wf: "parse_file path req c = Inr raw \<Longrightarrow> hm_wf (rc_values raw)"
  by (auto simp: parse_file_def raw_default_def and_then_eq_Inr Let_def dest: parse_lines_wf split: sum.splits if_splits)

text \<open>The first layer that has the setting.\<close>

fun first_layer :: "('a \<rightharpoonup> 'b) list \<Rightarrow> 'a \<rightharpoonup> 'b" where
  "first_layer [] k = None"
| "first_layer (l # ls) k = (case l k of Some v \<Rightarrow> Some v | None \<Rightarrow> first_layer ls k)"

text \<open>
  C30. Flags override environment variables, and these the file: whatever the iteration order of the hash
  maps, a setting of the merged configuration is the one of the first layer that has it, in the order
  flags, variables \<open>TUNLET_NAME\<close> of the recognised names, file. Other variables are ignored.
\<close>

theorem layers_in_order:
  assumes "hm_wf (rc_values cli)" and "resolve path explicit cli env fs = Inr raw"
  shows "\<exists>cfg. parse_file path explicit (fs path) = Inr cfg \<and>
    raw_get raw = first_layer [raw_get cli,
      \<lambda>name. if name \<in> set NAMES then env (''TUNLET_'' @ name) else None, raw_get cfg]"
proof -
  obtain cfg where cfg: "parse_file path explicit (fs path) = Inr cfg" "raw = merge cfg (env_config env) cli"
    using assms(2) by (auto simp: resolve_def and_then_eq_Inr)
  have "raw_get raw name = first_layer [raw_get cli,
      \<lambda>name. if name \<in> set NAMES then env (''TUNLET_'' @ name) else None, raw_get cfg] name" for name
    using assms(1) hm_wf_env_values [of "[]"]
    by (simp add: cfg(2) raw_get_def merge_def env_config_def mget_hm_extend_map mget_env_values split: option.splits)
  then show ?thesis using cfg(1) by blast
qed

subsection \<open>Reading a file back\<close>

text \<open>The lines a file may be written with, each with a Unix or a Windows line end.\<close>

datatype cfg_line = Blank | Comment string | Setting string string

fun line_text :: "cfg_line \<Rightarrow> string" where
  "line_text Blank = []"
| "line_text (Comment t) = CHR ''#'' # t"
| "line_text (Setting k v) = k @ [CHR ''='', CHR 0x22] @ v @ [CHR 0x22]"

definition line_body :: "cfg_line \<times> bool \<Rightarrow> string" where
  "line_body l = line_text (fst l) @ (if snd l then [CHR 0x0D] else [])"

definition file_text :: "(cfg_line \<times> bool) list \<Rightarrow> string" where
  "file_text ls = concat (map (\<lambda>l. line_body l @ [CHR 0x0A]) ls)"

fun wf_line :: "cfg_line \<Rightarrow> bool" where
  "wf_line Blank = True"
| "wf_line (Comment t) = (CHR 0x0A \<notin> set t)"
| "wf_line (Setting k v) = (k \<in> set NAMES \<and> CHR 0x0A \<notin> set v)"

fun line_setting :: "cfg_line \<Rightarrow> (string \<times> string) option" where
  "line_setting (Setting k v) = Some (k, v)"
| "line_setting _ = None"

definition settings_of :: "(cfg_line \<times> bool) list \<Rightarrow> settings" where
  "settings_of ls = List.map_filter (\<lambda>l. line_setting (fst l)) ls"

lemma names_plain:
  assumes "k \<in> set NAMES"
  shows "k \<noteq> []" "\<forall>c \<in> set k. visible c" "CHR ''='' \<notin> set k" "CHR 0x0A \<notin> set k" "CHR ''#'' \<notin> set k"
  using assms by (auto simp: NAMES_def visible_def)

lemma strip_cr_body:
  "line_text l = [] \<or> last (line_text l) \<noteq> CHR 0x0D \<Longrightarrow>
   strip_cr (line_body (l, cr)) = line_text l"
  by (auto simp: strip_cr_def line_body_def strip_suffix_def)

lemma strip_cr_comment:
  "\<exists>t'. strip_cr (line_body (Comment t, cr)) = CHR ''#'' # t'"
  by (auto simp: strip_cr_def line_body_def strip_suffix_def)

lemma parse_line_text:
  assumes "wf_line l"
  shows "parse_line path n (line_body (l, cr)) = Inr (line_setting l)"
proof (cases l)
  case Blank
  have "strip_cr (line_body (l, cr)) = []"
    using strip_cr_body [of Blank cr] Blank by simp
  then show ?thesis unfolding parse_line_def Let_def by (simp add: Blank)
next
  case (Comment t)
  obtain t' where t': "strip_cr (line_body (l, cr)) = CHR ''#'' # t'"
    using strip_cr_comment Comment by blast
  have "visible CHR ''#''" by (simp add: visible_def)
  from trim_starts [OF this, of t'] obtain u where "trim (CHR ''#'' # t') = CHR ''#'' # u" by blast
  then show ?thesis unfolding parse_line_def Let_def t' by (simp add: Comment)
next
  case (Setting k v)
  let ?q = "CHR 0x22 # v @ [CHR 0x22]"
  have k: "k \<in> set NAMES" using assms Setting by simp
  note plain = names_plain [OF k]
  have strip: "strip_cr (line_body (l, cr)) = k @ CHR ''='' # ?q"
    using strip_cr_body [of "Setting k v" cr] Setting by simp
  obtain c k' where c: "k = c # k'" "visible c" "c \<noteq> CHR ''#''" using plain(1,2,5) by (cases k) auto
  obtain u where trimmed: "trim (k @ CHR ''='' # ?q) = c # u" using trim_starts [OF c(2)] c(1) by fastforce
  have "trim ?q = ?q" by (intro trim_visible) (simp_all add: visible_def)
  then have "unquote (trim ?q) = Some v" by (simp add: unquote_def)
  moreover have "trim k = k" using plain(2) by (rule trim_all_visible)
  moreover have "split_once (CHR ''='') (k @ CHR ''='' # ?q) = Some (k, ?q)" using plain(3) by simp
  ultimately show ?thesis
    unfolding parse_line_def Let_def strip trimmed using k c(1,3) Setting by simp
qed

lemma parse_lines_text:
  assumes "\<forall>l \<in> set ls. wf_line (fst l)"
  shows "\<exists>m'. parse_lines path n (map line_body ls @ [[]]) m = Inr m' \<and> m' = hm_extend m (settings_of ls)"
  using assms
proof (induction ls arbitrary: n m)
  case Nil
  have "parse_line path n [] = Inr None" using parse_line_text [of Blank path n False] by (simp add: line_body_def)
  then show ?case by (simp add: settings_of_def hm_extend_def map_filter_simps)
next
  case (Cons l ls)
  obtain x cr where l: "l = (x, cr)" by (cases l)
  have "parse_line path n (line_body l) = Inr (line_setting x)" using Cons.prems parse_line_text l by simp
  then show ?case
    using Cons by (cases x) (simp_all add: l settings_of_def map_filter_simps hm_extend_def)
qed

lemma parse_file_text:
  assumes lines: "\<forall>l \<in> set ls. wf_line (fst l)" and utf8: "valid_utf8 (file_text ls)"
    and bom: "bom = [] \<or> bom = [CHR 0xEF, CHR 0xBB, CHR 0xBF]"
  shows "\<exists>raw. parse_file path explicit (Inr (bom @ file_text ls)) = Inr raw \<and>
    raw_get raw = map_of (rev (settings_of ls))"
proof -
  have start: "take 3 (file_text ls) \<noteq> [CHR 0xEF, CHR 0xBB, CHR 0xBF]"
  proof (cases ls)
    case (Cons l rest)
    obtain x cr where l: "l = (x, cr)" by (cases l)
    show ?thesis
    proof (cases x)
      case (Setting k v)
      then have "k \<in> set NAMES" using lines Cons l by simp
      from names_plain [OF this] obtain c k' where "k = c # k'" "visible c" by (cases k) auto
      then show ?thesis using Cons l Setting by (auto simp: file_text_def line_body_def visible_def)
    qed (simp_all add: Cons l file_text_def line_body_def)
  qed (simp add: file_text_def)
  have bodies: "\<forall>t \<in> set (map line_body ls). CHR 0x0A \<notin> set t"
  proof
    fix t
    assume "t \<in> set (map line_body ls)"
    then obtain x cr where x: "t = line_body (x, cr)" "wf_line x" using lines by fastforce
    then show "CHR 0x0A \<notin> set t" using names_plain(4) by (cases x) (auto simp: line_body_def)
  qed
  have "strip_bom (bom @ file_text ls) = file_text ls"
    using bom start by (auto simp: strip_bom_def)
  moreover have "split_at_char (CHR 0x0A) (file_text ls) = map line_body ls @ [[]]"
    using split_at_char_lines [OF bodies] by (simp add: file_text_def comp_def)
  moreover obtain m where "parse_lines path 1 (map line_body ls @ [[]]) [] = Inr m" "m = hm_extend [] (settings_of ls)"
    using parse_lines_text [OF lines] by blast
  ultimately have "parse_file path explicit (Inr (bom @ file_text ls)) = Inr \<lparr>rc_values = hm_extend [] (settings_of ls)\<rparr>"
    using utf8 by (simp add: parse_file_def Let_def)
  moreover have "raw_get \<lparr>rc_values = hm_extend [] (settings_of ls)\<rparr> = map_of (rev (settings_of ls))"
    by (rule ext) (simp add: raw_get_def mget_hm_extend split: option.splits)
  ultimately show ?thesis by blast
qed

text \<open>
  C31. A configuration file is read back: a file of blank lines, comments and settings of recognised
  names, with either kind of line end and with or without a byte order mark, is accepted, and every
  setting has the value of its last line, literally what stands between the quotes, quotes and hash
  signs included.
\<close>

theorem config_file_roundtrip:
  assumes "\<forall>l \<in> set ls. wf_line (fst l)" and "valid_utf8 (file_text ls)"
    and "bom = [] \<or> bom = [CHR 0xEF, CHR 0xBB, CHR 0xBF]"
  shows "\<exists>raw. parse_file path explicit (Inr (bom @ file_text ls)) = Inr raw \<and>
    raw_get raw = map_of (rev (settings_of ls))"
  using assms by (rule parse_file_text)

definition demo_lines :: "(cfg_line \<times> bool) list" where
  "demo_lines =
     [(Comment '' demo'', False), (Setting ''KEY'' ''one'', False), (Blank, True),
      (Setting ''LISTEN'' '':5000'', False), (Setting ''KEY'' ''tw#o'', True)]"

lemma demo_lines_ok:
  "\<forall>l \<in> set demo_lines. wf_line (fst l)" "valid_utf8 (file_text demo_lines)"
proof -
  show "\<forall>l \<in> set demo_lines. wf_line (fst l)" by (simp add: demo_lines_def NAMES_def)
  show "valid_utf8 (file_text demo_lines)"
    by (rule ascii_valid) (simp add: demo_lines_def file_text_def line_body_def)
qed

theorem config_file_roundtrip_witness:
  "\<exists>raw. parse_file ''tunlet.cfg'' True (Inr (file_text demo_lines)) = Inr raw \<and>
     raw_get raw ''KEY'' = Some ''tw#o'' \<and> raw_get raw ''LISTEN'' = Some '':5000''"
proof -
  have "rev (settings_of demo_lines) = [(''KEY'', ''tw#o''), (''LISTEN'', '':5000''), (''KEY'', ''one'')]"
    by (simp add: demo_lines_def settings_of_def map_filter_simps)
  then show ?thesis
    using config_file_roundtrip [OF demo_lines_ok, of "[]" "''tunlet.cfg''" True] by auto
qed

definition demo_variables :: "string \<Rightarrow> string option" where
  "demo_variables name =
     (if name = ''TUNLET_KEY'' then Some ''env'' else if name = ''TUNLET_QUIET'' then Some ''true'' else None)"

theorem layers_in_order_witness:
  "\<exists>raw. resolve ''tunlet.cfg'' True (from_pairs [(''KEY'', ''flag'')]) demo_variables (\<lambda>_. Inr (file_text demo_lines)) = Inr raw \<and>
     raw_get raw ''KEY'' = Some ''flag'' \<and> raw_get raw ''QUIET'' = Some ''true'' \<and>
     raw_get raw ''LISTEN'' = Some '':5000''"
proof -
  let ?cli = "from_pairs [(''KEY'', ''flag'')]" and ?fs = "\<lambda>_ :: string. (Inr (file_text demo_lines) :: (io_error, string) result)"
  obtain cfg where cfg: "parse_file ''tunlet.cfg'' True (Inr (file_text demo_lines)) = Inr cfg"
      "raw_get cfg = map_of (rev (settings_of demo_lines))"
    using parse_file_text [OF demo_lines_ok, of "[]"] by auto
  then obtain raw where raw: "resolve ''tunlet.cfg'' True ?cli demo_variables ?fs = Inr raw"
    by (simp add: resolve_def)
  have "hm_wf (rc_values ?cli)" by (simp add: from_pairs_def hm_wf_extend)
  from layers_in_order [OF this raw] cfg
  have "raw_get raw = first_layer [raw_get ?cli,
      \<lambda>name. if name \<in> set NAMES then demo_variables (''TUNLET_'' @ name) else None, map_of (rev (settings_of demo_lines))]"
    by simp
  moreover have "raw_get ?cli n = (if n = ''KEY'' then Some ''flag'' else None)" for n
    by (simp add: raw_get_def from_pairs_def mget_hm_extend)
  ultimately show ?thesis
    using raw by (simp add: NAMES_def demo_variables_def demo_lines_def settings_of_def map_filter_simps)
qed

subsection \<open>Typed settings\<close>

lemma parse_port_range_ok:
  "parse_port_range v = Inr r \<Longrightarrow> 1024 \<le> fst r \<and> fst r \<le> snd r"
  by (auto simp: parse_port_range_def and_then_eq_Inr split: if_splits prod.splits)

lemma server_settings_wf: "server_settings raw = Inr c \<Longrightarrow> wf_server_config c"
  by (auto simp: server_settings_def and_then_eq_Inr wf_server_config_def parse_listen_def
      max_connections_setting_def dest: parse_port_range_ok split: if_splits)

lemma expose_settings_wf: "expose_settings raw = Inr c \<Longrightarrow> wf_expose_config c"
  by (auto simp: expose_settings_def and_then_eq_Inr wf_expose_config_def parse_server_def parse_target_def
      remote_port_setting_def split: if_splits option.splits)

lemma required_Inr: "required raw name = Inr v \<longleftrightarrow> raw_get raw name = Some v \<and> v \<noteq> []"
  by (auto simp: required_def split: option.splits)

lemma server_settings_key: "server_settings raw = Inr c \<Longrightarrow> sc_key c \<noteq> []"
  and expose_settings_key: "expose_settings raw = Inr e \<Longrightarrow> ec_key e \<noteq> []"
  by (auto simp: server_settings_def expose_settings_def and_then_eq_Inr required_Inr)

text \<open>
  C32. A program that starts has valid settings: the control port and every port of the automatic range
  are unprivileged, the range is not empty and the connection limit is between 1 and 65535; the client
  has a host and a port for the server and for its target, and asks for an unprivileged port if for
  any. The key is the one configured and is not empty.
\<close>

theorem settings_validated:
  "(server_settings raw = Inr c \<longrightarrow>
      wf_server_config c \<and> raw_get raw ''KEY'' = Some (sc_key c) \<and> sc_key c \<noteq> []) \<and>
   (expose_settings raw = Inr e \<longrightarrow>
      wf_expose_config e \<and> raw_get raw ''KEY'' = Some (ec_key e) \<and> ec_key e \<noteq> [])"
  using server_settings_wf [of raw c] expose_settings_wf [of raw e]
  by (auto simp: server_settings_def expose_settings_def and_then_eq_Inr required_Inr)

text \<open>The default settings are legal.\<close>

lemma default_numbers:
  "parse_u16 ''4000'' = Some 4000" "parse_u16 ''10000'' = Some 10000" "parse_u16 ''65535'' = Some 65535"
  "parse_u32 ''256'' = Some 256"
  by (simp_all add: parse_u16_def parse_u32_def parse_uint_def digits_value_def digit_value_def is_digit_def)

lemma default_ip: "parse_ip ''0.0.0.0'' = Some (V4 0)"
proof -
  have "octets 0 = [0, 0, 0, 0]" by (simp add: octets_def limbs_zero numeral_eq_Suc)
  moreover have "show_radix 10 0 = ''0''" by (subst show_radix.simps) (simp add: from_digit_def char_of_eq_iff)
  ultimately have "ip_display (V4 0) = ''0.0.0.0''" by (simp add: ipv4_display_def)
  then show ?thesis using parse_ip_display [of "V4 0"] by simp
qed

lemma default_settings:
  "parse_listen '':4000'' = Inr \<lparr>sa_ip = V4 0, sa_port = 4000\<rparr>"
  "parse_port_range ''10000-65535'' = Inr (10000, 65535)"
proof -
  have "trim ''10000'' = ''10000''" "trim ''65535'' = ''65535''"
    by (rule trim_all_visible, simp add: visible_def)+
  then show "parse_port_range ''10000-65535'' = Inr (10000, 65535)"
    by (simp add: parse_port_range_def parse_port_def default_numbers)
qed (simp add: parse_listen_def parse_port_def default_numbers default_ip)

theorem settings_validated_witness:
  "\<exists>c. server_settings (from_pairs [(''KEY'', ''k''), (''DATA_BIND'', ip_display (V6 1))]) = Inr c \<and>
     wf_server_config c \<and> sc_key c = ''k'' \<and> sc_data_bind c = V6 1"
proof -
  let ?raw = "from_pairs [(''KEY'', ''k''), (''DATA_BIND'', ip_display (V6 1))]"
  have get: "raw_get ?raw n = (if n = ''KEY'' then Some ''k''
      else if n = ''DATA_BIND'' then Some (ip_display (V6 1)) else None)" for n
    by (simp add: raw_get_def from_pairs_def mget_hm_extend)
  have "\<exists>c. server_settings ?raw = Inr c \<and> sc_key c = ''k'' \<and> sc_data_bind c = V6 1"
    unfolding server_settings_def required_def get_or_def get
    by (simp add: default_settings default_numbers max_connections_setting_def parse_bind_ip_def log_level_def quiet_def get_or_def get level_parse_def
        del: ip_display.simps)
  then obtain c where "server_settings ?raw = Inr c" "sc_key c = ''k''" "sc_data_bind c = V6 1" by blast
  with settings_validated [of ?raw c] show ?thesis by blast
qed

subsection \<open>Error messages\<close>

text \<open>Every text an invalid setting can produce; none of them depends on a value.\<close>

definition setting_errors :: "string list" where
  "setting_errors =
     concat (map (\<lambda>name. [name @ '' must not be empty'',
        name @ '' is required (flag, TUNLET_'' @ name @ '', or configuration file)'']) [''KEY'', ''SERVER'', ''TARGET'']) @
     map (\<lambda>name. name @ '' must be a port number'') [''LISTEN'', ''SERVER'', ''TARGET'', ''ALLOWED_PORTS''] @
     [''LISTEN must be ADDR:PORT or :PORT'', ''LISTEN address must be an IP literal'',
      ''LISTEN port must be 1024-65535'', ''DATA_BIND must be an IP literal without a port'',
      ''SERVER must be HOST:PORT'', ''SERVER must include a host'', ''SERVER port must be 1024-65535'',
      ''TARGET must be HOST:PORT or :PORT'', ''TARGET must include a host'', ''TARGET port must be 1-65535'',
      ''ALLOWED_PORTS must be MIN-MAX'', ''ALLOWED_PORTS must satisfy 1024 <= MIN <= MAX <= 65535'',
      ''MAX_CONNECTIONS must be an integer 1-65535'', ''REMOTE_PORT must be a port number 1024-65535'',
      ''REMOTE_PORT must be 1024-65535; omit it to request automatic allocation'',
      ''LOG_LEVEL must be error, info, or debug'', ''QUIET must be true or false'']"

definition fixed_error :: "app_error \<Rightarrow> bool" where
  "fixed_error e = (\<exists>m \<in> set setting_errors. e = Config m)"

lemma ok_or_eq_Inl: "ok_or e r = Inl f \<longleftrightarrow> r = None \<and> f = e"
  by (cases r) auto

lemmas fixed_simps = fixed_error_def setting_errors_def and_then_eq_Inl ok_or_eq_Inl parse_port_def

lemma address_parsers_fixed:
  "parse_listen v = Inl e \<Longrightarrow> fixed_error e" "parse_bind_ip v = Inl e \<Longrightarrow> fixed_error e"
  "parse_server v = Inl e \<Longrightarrow> fixed_error e" "parse_target v = Inl e \<Longrightarrow> fixed_error e"
  "parse_port_range v = Inl e \<Longrightarrow> fixed_error e"
  by (auto simp: fixed_simps parse_listen_def parse_bind_ip_def parse_server_def parse_target_def
      parse_port_range_def split: option.splits if_splits)

lemma setting_parsers_fixed:
  "max_connections_setting raw = Inl e \<Longrightarrow> fixed_error e" "remote_port_setting raw = Inl e \<Longrightarrow> fixed_error e"
  "log_level raw = Inl e \<Longrightarrow> fixed_error e" "quiet raw = Inl e \<Longrightarrow> fixed_error e"
  by (auto simp: fixed_simps max_connections_setting_def remote_port_setting_def log_level_def quiet_def Let_def
      split: option.splits if_splits)

lemma required_fixed:
  "required raw ''KEY'' = Inl e \<Longrightarrow> fixed_error e" "required raw ''SERVER'' = Inl e \<Longrightarrow> fixed_error e"
  "required raw ''TARGET'' = Inl e \<Longrightarrow> fixed_error e"
  by (auto simp: fixed_simps required_def split: option.splits if_splits)

lemmas settings_fixed = address_parsers_fixed setting_parsers_fixed required_fixed

lemma parse_line_errors:
  "parse_line path n l = Inl e \<Longrightarrow>
   \<exists>r \<in> {''expected NAME=value'', ''empty setting name'', ''unknown setting name'', ''unterminated quoted value''}.
     e = config_line_error path n r"
  by (auto simp: parse_line_def Let_def and_then_eq_Inl ok_or_eq_Inl split: if_splits)

lemma parse_lines_errors:
  "parse_lines path n ls m = Inl e \<Longrightarrow>
   \<exists>k. n \<le> k \<and> k < n + length ls \<and> (\<exists>r \<in> {''expected NAME=value'', ''empty setting name'', ''unknown setting name'',
     ''unterminated quoted value''}. e = config_line_error path k r)"
proof (induction ls arbitrary: n m)
  case (Cons l ls)
  show ?case
  proof (cases "parse_line path n l")
    case (Inl e')
    then show ?thesis using Cons.prems parse_line_errors [OF Inl] by (intro exI [of _ n]) simp
  next
    case (Inr kv)
    then obtain m' where "parse_lines path (Suc n) ls m' = Inl e" using Cons.prems by (auto split: option.splits)
    from Cons.IH [OF this] show ?thesis by (auto intro: exI [of _ "_ :: nat"] dest: Suc_leD)
  qed
qed simp

lemma parse_file_errors: "parse_file path explicit c = Inl e \<Longrightarrow> \<exists>m. e = Config m"
  by (auto simp: parse_file_def and_then_eq_Inl Let_def config_line_error_def dest: parse_lines_errors
      split: sum.splits if_splits)

text \<open>
  C33. No error message shows a configured value, the key least of all: an invalid setting is reported
  with one of finitely many fixed texts, whatever the values are, and a bad file with its path and the
  number of an existing line and one of four fixed reasons (or that it is not UTF-8, or the system's
  reason why it cannot be read).
\<close>

theorem config_errors_hide_values:
  "(server_settings raw = Inl e \<longrightarrow> fixed_error e) \<and> (expose_settings raw = Inl e \<longrightarrow> fixed_error e) \<and>
   (parse_file path is_required contents = Inl e \<longrightarrow>
      (case contents of
         Inl io \<Rightarrow> e = Config (path @ '': cannot read configuration file: '' @ io_text io)
       | Inr bytes \<Rightarrow> e = Config (path @ '': configuration file is not valid UTF-8'') \<or>
           (\<exists>n r. 1 \<le> n \<and> n \<le> length (split_at_char (CHR 0x0A) (strip_bom bytes)) \<and>
              r \<in> {''expected NAME=value'', ''empty setting name'', ''unknown setting name'', ''unterminated quoted value''} \<and>
              e = Config (path @ '':'' @ show_nat n @ '': '' @ r))))"
proof -
  have "server_settings raw = Inl e \<longrightarrow> fixed_error e"
    by (auto simp: server_settings_def and_then_eq_Inl dest: settings_fixed)
  moreover have "expose_settings raw = Inl e \<longrightarrow> fixed_error e"
    by (auto simp: expose_settings_def and_then_eq_Inl dest: settings_fixed)
  moreover have "\<exists>n r. 1 \<le> n \<and> n \<le> length ls \<and>
      r \<in> {''expected NAME=value'', ''empty setting name'', ''unknown setting name'', ''unterminated quoted value''} \<and>
      e = Config (path @ '':'' @ show_nat n @ '': '' @ r)" if "parse_lines path 1 ls [] = Inl e" for ls
    using parse_lines_errors [OF that] unfolding config_line_error_def by fastforce
  ultimately show ?thesis
    by (auto simp: parse_file_def Let_def and_then_eq_Inl split: sum.splits if_splits)
qed

theorem config_errors_hide_values_witness:
  "fixed_error (Config ''KEY is required (flag, TUNLET_KEY, or configuration file)'')"
proof -
  have "server_settings raw_default = Inl (Config ''KEY is required (flag, TUNLET_KEY, or configuration file)'')"
    by (simp add: server_settings_def required_def raw_get_def raw_default_def)
  then show ?thesis
    using config_errors_hide_values [of raw_default "Config ''KEY is required (flag, TUNLET_KEY, or configuration file)''"]
    by simp
qed

end
