(* ===== verification/Cli_Props.thy ===== *)
theory Cli_Props
  imports Command_Line Config_Props
begin

text \<open>Properties of the command line: options are read back, and what a parsed command line may hold.\<close>

subsection \<open>Options are read back\<close>

datatype cli_opt =
    OptValue string string bool
  | OptQuiet "bool option"
  | OptConfig string bool

definition flag_words :: "string \<Rightarrow> string \<Rightarrow> bool \<Rightarrow> string list" where
  "flag_words flag v inline = (if inline then [flag @ CHR ''='' # v] else [flag, v])"

definition bool_text :: "bool \<Rightarrow> string" where
  "bool_text b = (if b then ''true'' else ''false'')"

fun opt_words :: "cli_opt \<Rightarrow> string list" where
  "opt_words (OptValue flag v inline) = flag_words flag v inline"
| "opt_words (OptQuiet None) = [''--quiet'']"
| "opt_words (OptQuiet (Some b)) = [''--quiet'' @ CHR ''='' # bool_text b]"
| "opt_words (OptConfig path inline) = flag_words ''--config'' path inline"

fun wf_opt :: "cli_opt \<Rightarrow> bool" where
  "wf_opt (OptValue flag v inline) = (value_flag flag \<noteq> None)"
| "wf_opt (OptQuiet b) = True"
| "wf_opt (OptConfig path inline) = (path \<noteq> [])"

fun opt_setting :: "cli_opt \<Rightarrow> (string \<times> string) option" where
  "opt_setting (OptValue flag v inline) = Some (the (value_flag flag), v)"
| "opt_setting (OptQuiet b) = Some (''QUIET'', bool_text (b \<noteq> Some False))"
| "opt_setting (OptConfig path inline) = None"

fun opt_path :: "cli_opt \<Rightarrow> string option" where
  "opt_path (OptConfig path inline) = Some path"
| "opt_path _ = None"

definition apply_opt :: "cli_opt \<Rightarrow> cli_state \<Rightarrow> cli_state" where
  "apply_opt opt st =
     (case opt_setting opt of
        Some (k, v) \<Rightarrow> put k v st
      | None \<Rightarrow> st\<lparr>cp_config := the (opt_path opt), cp_explicit := True\<rparr>)"

lemma find_SomeD: "find P xs = Some x \<Longrightarrow> x \<in> set xs \<and> P x"
  by (induction xs) (auto split: if_splits)

lemma value_flag_cases: "value_flag flag = Some key \<Longrightarrow> (flag, key) \<in> set VALUE_FLAGS"
  by (auto simp: value_flag_def dest!: find_SomeD)

lemma value_flag_plain:
  assumes "value_flag flag = Some key"
  shows "CHR ''='' \<notin> set flag" "take 2 flag = ''--''" "2 < length flag"
    "flag \<notin> {''--help'', ''--version'', ''--config'', ''--quiet''}" "key \<in> set NAMES" "key \<noteq> ''QUIET''"
  using value_flag_cases [OF assms] by (auto simp: VALUE_FLAGS_def NAMES_def)

text \<open>A long option, possibly with an inline value, is no other kind of argument.\<close>

lemma parse_args_long:
  assumes "take 2 flag = ''--''" and "2 < length flag" and "flag \<notin> {''--help'', ''--version''}"
    and "arg = flag \<or> (\<exists>v. arg = flag @ CHR ''='' # v)" and "CHR ''='' \<notin> set flag"
  shows "parse_args (arg # rest) st =
    (case parse_option arg rest st of Inl e \<Rightarrow> Inl e | Inr (st', rest') \<Rightarrow> parse_args rest' st')"
proof -
  have "take 2 arg = ''--''" "2 < length arg" using assms(1,2,4) by auto
  then have "arg \<notin> {''-h'', ''-V'', ''server'', ''expose''}" by auto
  moreover have "arg \<notin> {''--help'', ''--version''}" using assms(3-5) by (auto simp: append_eq_Cons_conv)
  ultimately show ?thesis by simp
qed

lemma split_flag_plain [simp]:
  "CHR ''='' \<notin> set flag \<Longrightarrow> split_flag flag = (flag, None)"
  "CHR ''='' \<notin> set flag \<Longrightarrow> split_flag (flag @ CHR ''='' # v) = (flag, Some v)"
  by (auto simp: split_flag_def split_once_None [symmetric])

lemma parse_args_value:
  assumes key: "value_flag flag = Some key" and m: "cp_mode st \<noteq> None"
  shows "parse_args (flag_words flag v inline @ rest) st = parse_args rest (put key v st)"
proof -
  note plain = value_flag_plain [OF key]
  have dash: "flag \<noteq> []" "hd flag = CHR ''-''" using plain(2,3) by (cases flag; auto)+
  show ?thesis
  proof (cases inline)
    case True
    have "parse_option (flag @ CHR ''='' # v) rest st = Inr (put key v st, rest)"
      using key m plain dash by (simp add: parse_option_def)
    then show ?thesis
      using parse_args_long [OF plain(2,3), of "flag @ CHR ''='' # v"] plain True by (simp add: flag_words_def)
  next
    case False
    have "parse_option flag (v # rest) st = Inr (put key v st, rest)"
      using key m plain dash by (simp add: parse_option_def)
    then show ?thesis
      using parse_args_long [OF plain(2,3), of flag] plain False by (simp add: flag_words_def)
  qed
qed

lemma parse_args_config:
  assumes "path \<noteq> []"
  shows "parse_args (flag_words ''--config'' path inline @ rest) st =
    parse_args rest (st\<lparr>cp_config := path, cp_explicit := True\<rparr>)"
proof (cases inline)
  case True
  have "parse_option (''--config'' @ CHR ''='' # path) rest st = Inr (st\<lparr>cp_config := path, cp_explicit := True\<rparr>, rest)"
    using assms split_flag_plain(2) [of "''--config''" path] by (simp add: parse_option_def)
  then show ?thesis
    using parse_args_long [of "''--config''" "''--config'' @ CHR ''='' # path"] True by (simp add: flag_words_def)
next
  case False
  have "parse_option ''--config'' (path # rest) st = Inr (st\<lparr>cp_config := path, cp_explicit := True\<rparr>, rest)"
    using assms by (simp add: parse_option_def)
  then show ?thesis using parse_args_long [of "''--config''" "''--config''"] False by (simp add: flag_words_def)
qed

lemma parse_args_quiet:
  assumes "cp_mode st \<noteq> None"
  shows "parse_args (opt_words (OptQuiet b) @ rest) st = parse_args rest (put ''QUIET'' (bool_text (b \<noteq> Some False)) st)"
proof (cases b)
  case None
  have "parse_option ''--quiet'' rest st = Inr (put ''QUIET'' ''true'' st, rest)"
    using assms by (simp add: parse_option_def)
  then show ?thesis using parse_args_long [of "''--quiet''" "''--quiet''"] None by (simp add: bool_text_def)
next
  case (Some v)
  have "parse_option (''--quiet'' @ CHR ''='' # bool_text v) rest st = Inr (put ''QUIET'' (bool_text v) st, rest)"
    using assms split_flag_plain(2) [of "''--quiet''" "bool_text v"]
    by (simp add: parse_option_def Let_def) (simp add: bool_text_def)
  then show ?thesis
    using parse_args_long [of "''--quiet''" "''--quiet'' @ CHR ''='' # bool_text v"] Some by simp
qed

lemma parse_args_opt:
  assumes "wf_opt opt" and "cp_mode st \<noteq> None"
  shows "parse_args (opt_words opt @ rest) st = parse_args rest (apply_opt opt st)"
proof (cases opt)
  case (OptValue flag v inline)
  then show ?thesis using assms parse_args_value [of flag _ st v inline rest] by (auto simp: apply_opt_def)
next
  case (OptQuiet b)
  then show ?thesis using parse_args_quiet [OF assms(2)] by (simp add: apply_opt_def)
next
  case (OptConfig path inline)
  then show ?thesis using assms parse_args_config by (simp add: apply_opt_def)
qed

lemma apply_opt_mode [simp]: "cp_mode (apply_opt opt st) = cp_mode st"
  by (simp add: apply_opt_def put_def split: option.splits)

lemma parse_args_opts:
  assumes "\<forall>opt \<in> set opts. wf_opt opt" and "cp_mode st = Some m"
  shows "parse_args (concat (map opt_words opts)) st =
    Inr (CliRun m (cp_config (fold apply_opt opts st)) (cp_explicit (fold apply_opt opts st))
      (cp_cli (fold apply_opt opts st)))"
  using assms
proof (induction opts arbitrary: st)
  case (Cons opt opts)
  then show ?case using parse_args_opt [of opt st "concat (map opt_words opts)"] by simp
qed simp

definition opt_settings :: "cli_opt list \<Rightarrow> settings" where
  "opt_settings opts = List.map_filter opt_setting opts"

definition opt_paths :: "cli_opt list \<Rightarrow> string list" where
  "opt_paths opts = List.map_filter opt_path opts"

lemma fold_apply_opt:
  "rc_values (cp_cli (fold apply_opt opts st)) = hm_extend (rc_values (cp_cli st)) (opt_settings opts)"
  "cp_config (fold apply_opt opts st) = (if opt_paths opts = [] then cp_config st else last (opt_paths opts))"
  "cp_explicit (fold apply_opt opts st) = (cp_explicit st \<or> opt_paths opts \<noteq> [])"
proof (induction opts arbitrary: st)
  case (Cons opt opts)
  {
    case 1
    show ?case using Cons(1) [of "apply_opt opt st"]
      by (cases opt) (simp_all add: opt_settings_def map_filter_simps apply_opt_def put_def hm_extend_def)
  next
    case 2
    show ?case using Cons(2) [of "apply_opt opt st"]
      by (cases opt) (simp_all add: opt_paths_def map_filter_simps apply_opt_def put_def)
  next
    case 3
    show ?case using Cons(3) [of "apply_opt opt st"]
      by (cases opt) (simp_all add: opt_paths_def map_filter_simps apply_opt_def put_def)
  }
qed (simp_all add: opt_settings_def opt_paths_def map_filter_simps hm_extend_def)

text \<open>
  C34. The command line is read back: after the subcommand, any sequence of options in either form
  (\<open>--flag value\<close> or \<open>--flag=value\<close>, also with values that look like options) is accepted; each setting
  has the value of its last option, and the configuration file is the last one named, or the default.
\<close>

theorem command_line_roundtrip:
  assumes opts: "\<forall>opt \<in> set opts. wf_opt opt" and utf8: "\<forall>w \<in> set (concat (map opt_words opts)). valid_utf8 w"
  shows "\<exists>cli. cli_parse (program # mode_name m # concat (map opt_words opts)) =
      Inr (CliRun m (if opt_paths opts = [] then ''tunlet.cfg'' else last (opt_paths opts)) (opt_paths opts \<noteq> []) cli) \<and>
    raw_get cli = map_of (rev (opt_settings opts))"
proof -
  let ?st = "cli_initial\<lparr>cp_mode := Some m\<rparr>"
  have "map to_string_lossy (concat (map opt_words opts)) = concat (map opt_words opts)"
    using utf8 by (intro map_idI to_string_lossy_valid) blast
  moreover have "to_string_lossy (mode_name m) = mode_name m"
    by (cases m) (simp_all add: ascii_valid)
  ultimately have "cli_parse (program # mode_name m # concat (map opt_words opts)) =
      parse_args (concat (map opt_words opts)) ?st"
    by (cases m) (simp_all add: cli_parse_def cli_initial_def)
  then have "cli_parse (program # mode_name m # concat (map opt_words opts)) =
      Inr (CliRun m (if opt_paths opts = [] then ''tunlet.cfg'' else last (opt_paths opts)) (opt_paths opts \<noteq> [])
        (cp_cli (fold apply_opt opts ?st)))"
    using parse_args_opts [OF opts, of ?st m] by (simp add: fold_apply_opt cli_initial_def DEFAULT_CONFIG_def)
  moreover have "raw_get (cp_cli (fold apply_opt opts ?st)) = map_of (rev (opt_settings opts))"
    by (rule ext) (simp add: raw_get_def fold_apply_opt mget_hm_extend cli_initial_def raw_default_def split: option.splits)
  ultimately show ?thesis by blast
qed

theorem command_line_roundtrip_witness:
  "\<exists>cli. cli_parse [''tunlet'', ''server'', ''--key'', ''--help'', ''--quiet=false'', ''--config=a.cfg''] =
      Inr (CliRun ServerMode ''a.cfg'' True cli) \<and>
    raw_get cli ''KEY'' = Some ''--help'' \<and> raw_get cli ''QUIET'' = Some ''false''"
proof -
  let ?opts = "[OptValue ''--key'' ''--help'' False, OptQuiet (Some False), OptConfig ''a.cfg'' True]"
  have key: "value_flag ''--key'' = Some ''KEY''" by (simp add: value_flag_def VALUE_FLAGS_def)
  have words: "concat (map opt_words ?opts) = [''--key'', ''--help'', ''--quiet=false'', ''--config=a.cfg'']"
    by (simp add: flag_words_def bool_text_def)
  have "\<forall>w \<in> set (concat (map opt_words ?opts)). valid_utf8 w"
    unfolding words by (simp add: ascii_valid)
  moreover have "\<forall>opt \<in> set ?opts. wf_opt opt" using key by simp
  ultimately show ?thesis
    using command_line_roundtrip [of ?opts "''tunlet''" ServerMode] unfolding words
    by (auto simp: key opt_paths_def opt_settings_def map_filter_simps bool_text_def)
qed

subsection \<open>What a command line may hold\<close>

definition cli_ok :: "cli_state \<Rightarrow> bool" where
  "cli_ok st =
     (hm_wf (rc_values (cp_cli st)) \<and> fst ` set (rc_values (cp_cli st)) \<subseteq> set NAMES \<and>
      (\<forall>v. raw_get (cp_cli st) ''QUIET'' = Some v \<longrightarrow> v = ''true'' \<or> v = ''false'') \<and>
      cp_config st \<noteq> [] \<and> (\<not> cp_explicit st \<longrightarrow> cp_config st = DEFAULT_CONFIG))"

lemma cli_ok_put:
  assumes "cli_ok st" and "k \<in> set NAMES" and "k = ''QUIET'' \<longrightarrow> v = ''true'' \<or> v = ''false''"
  shows "cli_ok (put k v st)"
  using assms keys_hm_insert [of k v "rc_values (cp_cli st)"]
  by (auto simp: cli_ok_def put_def raw_get_def hm_wf_insert map_simps split: if_splits)

lemma parse_option_ok:
  assumes "cli_ok st" and "parse_option arg rest st = Inr (st', rest')"
  shows "cli_ok st'"
proof -
  obtain flag inline where fl: "split_flag arg = (flag, inline)" by fastforce
  have names: "''QUIET'' \<in> set NAMES" by (simp add: NAMES_def)
  consider (config) v where "v \<noteq> []" "st' = st\<lparr>cp_config := v, cp_explicit := True\<rparr>"
    | (quiet) v where "v = ''true'' \<or> v = ''false''" "st' = put ''QUIET'' v st"
    | (valued) key v where "value_flag flag = Some key" "st' = put key v st"
    using assms(2) fl by (auto simp: parse_option_def Let_def and_then_eq_Inr split: if_splits)
  then show ?thesis
  proof cases
    case config
    then show ?thesis using assms(1) by (simp add: cli_ok_def)
  next
    case quiet
    then show ?thesis using cli_ok_put [OF assms(1) names] by simp
  next
    case (valued key v)
    then show ?thesis using cli_ok_put [OF assms(1) value_flag_plain(5)] value_flag_plain(6) by simp
  qed
qed

lemma parse_args_ok:
  assumes "parse_args args st = Inr (CliRun m path explicit cli)" and "cli_ok st"
  shows "\<exists>st'. cli_ok st' \<and> path = cp_config st' \<and> explicit = cp_explicit st' \<and> cli = cp_cli st'"
  using assms
proof (induction args st rule: parse_args.induct)
  case (1 st)
  then show ?case by (auto simp: and_then_eq_Inr)
next
  case (2 arg rest st)
  have mode: "cli_ok (st\<lparr>cp_mode := x\<rparr>)" for x using 2(4) by (simp add: cli_ok_def)
  consider (mode) "arg = ''server'' \<or> arg = ''expose''" "cp_mode st = None"
      "parse_args rest (st\<lparr>cp_mode := Some (if arg = ''server'' then ServerMode else ExposeMode)\<rparr>) =
        Inr (CliRun m path explicit cli)"
    | (option) st' rest' where "parse_option arg rest st = Inr (st', rest')"
        "parse_args rest' st' = Inr (CliRun m path explicit cli)"
        "arg \<notin> {''-h'', ''--help'', ''-V'', ''--version'', ''server'', ''expose''}"
    using 2(3) by (auto split: if_splits sum.splits)
  then show ?case
  proof cases
    case mode
    then show ?thesis using 2(1) \<open>\<And>x. cli_ok (st\<lparr>cp_mode := x\<rparr>)\<close> by auto
  next
    case (option st' rest')
    then show ?thesis using 2(2) [of "(st', rest')" st' rest'] parse_option_ok [OF 2(4)] by auto
  qed
qed

lemma cli_initial_ok: "cli_ok cli_initial"
  by (simp add: cli_ok_def cli_initial_def raw_default_def raw_get_def DEFAULT_CONFIG_def)

lemma cli_parse_ok:
  assumes "cli_parse args = Inr (CliRun m path explicit cli)"
  shows "hm_wf (rc_values cli) \<and> fst ` set (rc_values cli) \<subseteq> set NAMES \<and>
    (\<forall>v. raw_get cli ''QUIET'' = Some v \<longrightarrow> v = ''true'' \<or> v = ''false'') \<and>
    path \<noteq> [] \<and> (\<not> explicit \<longrightarrow> path = ''tunlet.cfg'')"
  using parse_args_ok [OF assms [unfolded cli_parse_def] cli_initial_ok]
  by (auto simp: cli_ok_def DEFAULT_CONFIG_def)

subsection \<open>Errors\<close>

lemma parse_option_errors:
  assumes "parse_option arg rest st = Inl e"
  shows "\<exists>m. e = Cli m"
proof -
  obtain flag inline where fl: "split_flag arg = (flag, inline)" by fastforce
  have "\<exists>m. f = Cli m" if "take_value (Cli m) inline rest = Inl f" for m f
    using that by (cases "(Cli m, inline, rest)" rule: take_value.cases) auto
  then show ?thesis
    using assms fl
    by (auto simp: parse_option_def unexpected_def Let_def and_then_eq_Inl ok_or_eq_Inl split: if_splits)
qed

lemma parse_args_errors: "parse_args args st = Inl e \<Longrightarrow> \<exists>m. e = Cli m"
proof (induction args st rule: parse_args.induct)
  case (1 st)
  then show ?case by (auto simp: and_then_eq_Inl ok_or_eq_Inl)
next
  case (2 arg rest st)
  let ?mode = "st\<lparr>cp_mode := Some (if arg = ''server'' then ServerMode else ExposeMode)\<rparr>"
  consider (twice) "e = unexpected arg" | (mode) "arg = ''server'' \<or> arg = ''expose''" "cp_mode st = None" "parse_args rest ?mode = Inl e"
    | (bad) "parse_option arg rest st = Inl e"
    | (good) st' rest' where "arg \<notin> {''-h'', ''--help'', ''-V'', ''--version'', ''server'', ''expose''}"
        "parse_option arg rest st = Inr (st', rest')" "parse_args rest' st' = Inl e"
    using 2(3) unfolding parse_args.simps(2) by (auto split: if_splits sum.splits)
  then show ?case
  proof cases
    case twice
    then show ?thesis by (simp add: unexpected_def)
  next
    case mode
    then show ?thesis using 2(1) by auto
  next
    case bad
    then show ?thesis by (rule parse_option_errors)
  next
    case (good st' rest')
    then show ?thesis using 2(2) [of "(st', rest')" st' rest'] by simp
  qed
qed

end
