(* ===== verification/Protocol_Props.thy ===== *)
theory Protocol_Props
  imports Frame_IO Handshake_Auth
begin

text \<open>
  The properties of the wire protocol: framing is a bijection between frame sequences and byte
  strings, the reader bounds what it consumes before it looks at a payload, every payload decoder
  accepts exactly the encodings of well-formed values, and authentication codes are separated by
  purpose and bind every field of the handshake.
\<close>

subsection \<open>Frame sequences\<close>

fun write_frames :: "frame list \<Rightarrow> unit io" where
  "write_frames [] = io_return ()"
| "write_frames (f # fs) = io_bind (write_frame f) (\<lambda>_. write_frames fs)"

fun read_n_frames :: "nat \<Rightarrow> frame list io" where
  "read_n_frames 0 = io_return []"
| "read_n_frames (Suc n) =
     io_bind read_frame (\<lambda>f. io_bind (read_n_frames n) (\<lambda>fs. io_return (f # fs)))"

lemma wf_frame_small: "wf_frame f \<Longrightarrow> length (payload f) \<le> MAX_PAYLOAD"
  using payload_len_max by (simp add: wf_frame_def)

lemma write_frames_ok:
  assumes "\<forall>f \<in> set fs. wf_frame f" and "write_fails c = []"
  shows "write_frames fs c = (Inr (), c\<lparr>outgoing := outgoing c @ concat (map frame_encode fs)\<rparr>)"
  using assms by (induction fs arbitrary: c) (simp_all add: io_bind_eq(1) [OF write_frame_ok] wf_frame_small)

lemma read_n_frames_ok:
  assumes "\<forall>f \<in> set fs. wf_frame f" and "incoming c = concat (map frame_encode fs) @ rest"
  shows "read_n_frames (length fs) c = (Inr fs, c\<lparr>incoming := rest\<rparr>)"
  using assms
proof (induction fs arbitrary: c)
  case (Cons f fs)
  let ?d = "c\<lparr>incoming := concat (map frame_encode fs) @ rest\<rparr>"
  have "read_frame c = (Inr f, ?d)" using Cons.prems by (intro read_frame_encode) simp_all
  moreover have "read_n_frames (length fs) ?d = (Inr fs, ?d\<lparr>incoming := rest\<rparr>)"
    using Cons.prems by (intro Cons.IH) simp_all
  ultimately show ?case by (simp add: io_bind_eq)
qed simp

text \<open>
  C15. What one side writes the other side reads: any sequence of well-formed frames, written to a
  socket whose writes succeed and delivered byte for byte, is read back frame by frame, and whatever
  follows it is left in the stream.
\<close>

theorem frames_cross_the_wire:
  assumes "\<forall>f \<in> set fs. wf_frame f" and "write_fails c = []" and "outgoing c = []"
    and "incoming d = outgoing (snd (write_frames fs c)) @ rest"
  shows "read_n_frames (length fs) d = (Inr fs, d\<lparr>incoming := rest\<rparr>)"
  using assms write_frames_ok [OF assms(1,2)] by (intro read_n_frames_ok) simp_all

definition demo_conn :: "bytes \<Rightarrow> conn" where
  "demo_conn bs =
     \<lparr>incoming = bs, read_fail = \<lparr>kind = UnexpectedEof, io_text = []\<rparr>, write_fails = [], outgoing = [],
      write_closed = False\<rparr>"

theorem frames_cross_the_wire_witness:
  "fst (read_n_frames 2 (demo_conn
     (outgoing (snd (write_frames [frame_new Ping (to_be 8 (7 :: u64)), frame_empty Goodbye] (demo_conn []))) @ [9]))) =
   Inr [frame_new Ping (to_be 8 (7 :: u64)), frame_empty Goodbye]"
  using frames_cross_the_wire [of "[frame_new Ping (to_be 8 (7 :: u64)), frame_empty Goodbye]" "demo_conn []"
      "demo_conn (outgoing (snd (write_frames [frame_new Ping (to_be 8 (7 :: u64)), frame_empty Goodbye]
         (demo_conn []))) @ [9])" "[9]"]
  by (simp add: wf_frame_def demo_conn_def numeral_2_eq_2)

text \<open>
  C16. The frame reader is exact: it returns a frame if and only if the stream starts with the wire
  image of that frame, whose payload has the length fixed for its type, and it consumes just that
  image and touches nothing else.
\<close>

theorem read_frame_exact:
  "read_frame c = (Inr f, d) \<longleftrightarrow>
     wf_frame f \<and> incoming c = frame_encode f @ incoming d \<and> d = c\<lparr>incoming := incoming d\<rparr>"
  by (rule read_frame_iff)

text \<open>
  A header of three bytes is legal if some well-formed frame starts with it: if it names a known type
  and declares the length fixed for that type.
\<close>

definition header_legal :: "bytes \<Rightarrow> bool" where
  "header_legal h = (\<exists>f. wf_frame f \<and> take HEADER_LEN (frame_encode f) = h)"

lemma header_legal_iff:
  "header_legal [t, b, b'] \<longleftrightarrow>
     (\<exists>k. type_from_u8 t = Inr k \<and> unat (from_be [b, b'] :: u16) = payload_len k)"
proof
  assume "header_legal [t, b, b']"
  then obtain f where f: "wf_frame f" "take HEADER_LEN (frame_encode f) = [t, b, b']"
    unfolding header_legal_def by blast
  let ?n = "of_nat (length (payload f)) :: u16"
  have "t = type_as_u8 (ty f)" "[b, b'] = to_be 2 ?n"
    using f(2) to_be_2_nth [of ?n] by (simp_all add: frame_encode_header HEADER_LEN_def)
  moreover have "unat ?n = payload_len (ty f)"
    using f(1) payload_len_max [of "ty f"] by (simp add: wf_frame_def small_len_u16)
  ultimately show "\<exists>k. type_from_u8 t = Inr k \<and> unat (from_be [b, b'] :: u16) = payload_len k"
    by (intro exI [of _ "ty f"]) simp
next
  assume "\<exists>k. type_from_u8 t = Inr k \<and> unat (from_be [b, b'] :: u16) = payload_len k"
  then obtain k where k: "type_from_u8 t = Inr k" "unat (from_be [b, b'] :: u16) = payload_len k" by blast
  let ?f = "frame_new k (replicate (payload_len k) 0)"
  have "[t, b, b'] @ replicate (payload_len k) 0 = frame_encode ?f"
    by (rule header_decode) (simp_all add: k HEADER_LEN_def)
  then have "take HEADER_LEN (frame_encode ?f) = [t, b, b']" by (metis append_eq_conv_conj HEADER_LEN_def list.size(3,4) add.commute plus_1_eq_Suc numeral_3_eq_3 One_nat_def)
  moreover have "wf_frame ?f" by simp
  ultimately show "header_legal [t, b, b']" unfolding header_legal_def by blast
qed

text \<open>What the reader does with a complete header, and without one.\<close>

lemma read_frame_header:
  assumes "incoming c = t # b # b' # rest"
  shows "read_frame c =
    (if MAX_PAYLOAD < unat (from_be [b, b'] :: u16)
     then (Inl (app_error_protocol ''payload length too large''), c\<lparr>incoming := rest\<rparr>)
     else case type_from_u8 t of
         Inl e \<Rightarrow> (Inl (Protocol e), c\<lparr>incoming := rest\<rparr>)
       | Inr k \<Rightarrow>
           if unat (from_be [b, b'] :: u16) \<noteq> payload_len k
           then (Inl (app_error_protocol ''payload length does not match message type''), c\<lparr>incoming := rest\<rparr>)
           else if length rest < payload_len k then (Inl (Io (read_fail c)), c\<lparr>incoming := []\<rparr>)
           else (Inr (frame_new k (take (payload_len k) rest)), c\<lparr>incoming := drop (payload_len k) rest\<rparr>))"
proof -
  have hdr: "read_exact HEADER_LEN c = (Inr [t, b, b'], c\<lparr>incoming := rest\<rparr>)"
    using assms by (intro read_exact_append) (simp_all add: HEADER_LEN_def)
  show ?thesis
    unfolding read_frame_def io_bind_eq(1) [where m = "read_exact HEADER_LEN", OF hdr]
    by (simp add: Let_def io_bind_def read_exact_def lift_protocol_def split: sum.splits)
qed

lemma read_frame_short:
  "length (incoming c) < HEADER_LEN \<Longrightarrow> read_frame c = (Inl (Io (read_fail c)), c\<lparr>incoming := []\<rparr>)"
  by (simp add: read_frame_def io_bind_def read_exact_def)

lemma header_cases:
  obtains (short) "length bs < HEADER_LEN" | (header) t b b' rest where "bs = t # b # b' # rest"
  by (cases "length bs < HEADER_LEN")
    (auto simp: HEADER_LEN_def not_less eval_nat_numeral Suc_le_length_iff)

lemma read_frame_bounded:
  "\<exists>k. k \<le> HEADER_LEN + MAX_PAYLOAD \<and> snd (read_frame c) = c\<lparr>incoming := drop k (incoming c)\<rparr>"
proof (cases rule: header_cases [of "incoming c"])
  case short
  then show ?thesis using read_frame_short [OF short] by (intro exI [of _ HEADER_LEN]) simp
next
  case (header t b b' rest)
  note read = read_frame_header [OF header]
  have drops: "rest = drop HEADER_LEN (incoming c)" "length (incoming c) = HEADER_LEN + length rest"
    "drop m rest = drop (HEADER_LEN + m) (incoming c)" for m
    using header by (simp_all add: HEADER_LEN_def numeral_3_eq_3)
  have "snd (read_frame c) = c\<lparr>incoming := drop HEADER_LEN (incoming c)\<rparr> \<or>
      (\<exists>k. snd (read_frame c) = c\<lparr>incoming := drop (HEADER_LEN + payload_len k) (incoming c)\<rparr>)"
  proof (cases "type_from_u8 t")
    case (Inr k)
    then have "snd (read_frame c) = c\<lparr>incoming := drop HEADER_LEN (incoming c)\<rparr> \<or>
        snd (read_frame c) = c\<lparr>incoming := drop (HEADER_LEN + payload_len k) (incoming c)\<rparr>"
      unfolding read using drops(2) by (simp add: drops(3) flip: drops(1))
    then show ?thesis by blast
  qed (simp add: read flip: drops(1))
  then show ?thesis by (meson add_left_mono payload_len_max le_add1)
qed

lemma read_frame_violation:
  "read_frame c = (Inl (Protocol e), d) \<longleftrightarrow>
      (\<exists>t b b' rest. incoming c = t # b # b' # rest \<and> d = c\<lparr>incoming := rest\<rparr> \<and>
        (if unat (from_be [b, b'] :: u16) > MAX_PAYLOAD
         then Protocol e = app_error_protocol ''payload length too large''
         else case type_from_u8 t of
             Inl pe \<Rightarrow> e = pe
           | Inr k \<Rightarrow> unat (from_be [b, b'] :: u16) \<noteq> payload_len k \<and>
               Protocol e = app_error_protocol ''payload length does not match message type''))"
proof (cases rule: header_cases [of "incoming c"])
  case short
  then show ?thesis using read_frame_short [OF short] by (auto simp: HEADER_LEN_def)
next
  case (header t b b' rest)
  show ?thesis
    unfolding read_frame_header [OF header] by (auto simp: header app_error_protocol_def split: sum.splits)
qed

lemma read_frame_header_legal:
  assumes "incoming c = t # b # b' # rest"
  shows "(\<exists>e d. read_frame c = (Inl (Protocol e), d)) \<longleftrightarrow> \<not> header_legal [t, b, b']"
    and "(\<exists>e d. read_frame c = (Inl (Io e), d)) \<longleftrightarrow>
      header_legal [t, b, b'] \<and> length rest < unat (from_be [b, b'] :: u16)"
proof -
  let ?n = "unat (from_be [b, b'] :: u16)"
  have too_large: "?n \<noteq> payload_len k" if "MAX_PAYLOAD < ?n" for k using that payload_len_max [of k] by simp
  show "(\<exists>e d. read_frame c = (Inl (Protocol e), d)) \<longleftrightarrow> \<not> header_legal [t, b, b']"
    "(\<exists>e d. read_frame c = (Inl (Io e), d)) \<longleftrightarrow> header_legal [t, b, b'] \<and> length rest < ?n"
    unfolding read_frame_header [OF assms] header_legal_iff using too_large
    by (cases "type_from_u8 t"; auto simp: app_error_protocol_def)+
qed

text \<open>
  C37. The frame reader refuses exactly the illegal headers, for exactly one reason, and before it
  touches a payload. It reports a violation if and only if three bytes arrived that no well-formed frame
  starts with, and then it has consumed just these: the length is over the maximum, or else the type is
  unknown, or else the length is not the one of the type. It reports an I/O error if and only if the
  stream ends inside a header or inside the payload of a legal one. Whatever the outcome, it consumes
  at most a header and \<open>MAX_PAYLOAD\<close> bytes.
\<close>

theorem read_frame_refusal:
  "(\<forall>e d. read_frame c = (Inl (Protocol e), d) \<longleftrightarrow>
      (\<exists>t b b' rest. incoming c = t # b # b' # rest \<and> d = c\<lparr>incoming := rest\<rparr> \<and>
        (if unat (from_be [b, b'] :: u16) > MAX_PAYLOAD
         then Protocol e = app_error_protocol ''payload length too large''
         else case type_from_u8 t of
             Inl pe \<Rightarrow> e = pe
           | Inr k \<Rightarrow> unat (from_be [b, b'] :: u16) \<noteq> payload_len k \<and>
               Protocol e = app_error_protocol ''payload length does not match message type''))) \<and>
   ((\<exists>e d. read_frame c = (Inl (Protocol e), d)) \<longleftrightarrow>
      HEADER_LEN \<le> length (incoming c) \<and> \<not> header_legal (take HEADER_LEN (incoming c))) \<and>
   ((\<exists>e d. read_frame c = (Inl (Io e), d)) \<longleftrightarrow>
      length (incoming c) < HEADER_LEN \<or>
      header_legal (take HEADER_LEN (incoming c)) \<and>
      length (incoming c) < HEADER_LEN + unat (from_be [incoming c ! 1, incoming c ! 2] :: u16)) \<and>
   (\<exists>k. k \<le> HEADER_LEN + MAX_PAYLOAD \<and> snd (read_frame c) = c\<lparr>incoming := drop k (incoming c)\<rparr>)"
proof (cases rule: header_cases [of "incoming c"])
  case short
  then show ?thesis
    using read_frame_short [OF short] read_frame_bounded [of c] by (auto simp: HEADER_LEN_def)
next
  case (header t b b' rest)
  then have "take HEADER_LEN (incoming c) = [t, b, b']" "length (incoming c) = HEADER_LEN + length rest"
    "incoming c ! 1 = b" "incoming c ! 2 = b'"
    by (simp_all add: HEADER_LEN_def)
  then show ?thesis
    using read_frame_header_legal [OF header] read_frame_bounded [of c]
    by (simp only: read_frame_violation not_less simp_thms le_add1 add_less_cancel_left not_add_less1)
qed

subsection \<open>Payloads\<close>

text \<open>
  C17. Every payload decoder accepts exactly the encodings of well-formed values and returns the
  value encoded: a hello names a legal mode and port (a resume names one), a registration grants an
  unprivileged port and a nonzero maximum, an ERROR carries a known code. There is no second
  representation of any message, so a transcript built from decoded values is the one the peer built.
\<close>

theorem payload_decoders_exact:
  "(control_hello_decode bs = Inr h \<longleftrightarrow> wf_control_hello h \<and> bs = control_hello_encode h) \<and>
   (control_challenge_decode bs = Inr c \<longleftrightarrow> wf_control_challenge c \<and> bs = control_challenge_encode c) \<and>
   (registered_decode bs = Inr r \<longleftrightarrow> wf_registered r \<and> bs = registered_encode r) \<and>
   (open_failed_decode bs = Inr m \<longleftrightarrow> wf_open_failed m \<and> bs = open_failed_encode m) \<and>
   (data_hello_decode bs = Inr dh \<longleftrightarrow> wf_data_hello dh \<and> bs = data_hello_encode dh) \<and>
   (data_challenge_decode bs = Inr dc \<longleftrightarrow> wf_data_challenge dc \<and> bs = data_challenge_encode dc) \<and>
   (decode_request_id bs = Inr rid \<longleftrightarrow> length rid = 16 \<and> bs = rid) \<and>
   (decode_sequence bs = Inr seq \<longleftrightarrow> bs = to_be 8 seq) \<and>
   (decode_error bs = Inr e \<longleftrightarrow> bs = encode_error e)"
  using control_hello.dec_iff control_challenge.dec_iff registered.dec_iff open_failed.dec_iff
    data_hello.dec_iff data_challenge.dec_iff open_msg.dec_iff ping.dec_iff error_msg.dec_iff
  by (intro conjI) simp_all

text \<open>
  The length table of the frame layer agrees with the payload encoders: every message a handler
  builds with \<open>write_message\<close> from a well-formed value is a well-formed frame, so the peer's reader
  accepts it.
\<close>

theorem messages_fit_their_frames:
  "(wf_control_hello h \<longrightarrow> wf_frame (frame_new ControlHello (control_hello_encode h))) \<and>
   (wf_control_challenge c \<longrightarrow> wf_frame (frame_new ControlChallenge (control_challenge_encode c))) \<and>
   (wf_registered r \<longrightarrow> wf_frame (frame_new Registered (registered_encode r))) \<and>
   (wf_open_failed m \<longrightarrow> wf_frame (frame_new OpenFailed (open_failed_encode m))) \<and>
   (wf_data_hello dh \<longrightarrow> wf_frame (frame_new DataHello (data_hello_encode dh))) \<and>
   (wf_data_challenge dc \<longrightarrow> wf_frame (frame_new DataChallenge (data_challenge_encode dc))) \<and>
   wf_frame (frame_new Ping (to_be 8 (seq :: u64))) \<and> wf_frame (frame_new Pong (to_be 8 seq)) \<and>
   wf_frame (frame_new Error (encode_error e))"
  by (simp add: control_hello.enc_len control_challenge.enc_len registered.enc_len open_failed.enc_len
      data_hello.enc_len data_challenge.enc_len error_msg.enc_len)

definition demo_hello :: control_hello where
  "demo_hello =
     \<lparr>ch_instance_id = replicate 16 2, ch_client_nonce = replicate 32 5, ch_mode = Fresh,
      ch_requested_port = 4555\<rparr>"

lemma demo_hello_wf [simp]: "wf_control_hello demo_hello"
  by (simp add: wf_control_hello_def demo_hello_def)

theorem messages_fit_their_frames_witness:
  "wf_control_hello demo_hello \<and> wf_frame (frame_new ControlHello (control_hello_encode demo_hello))"
  using messages_fit_their_frames [of demo_hello] by simp

text \<open>
  The preamble is exact: eight bytes are accepted as the opening of a connection of a kind if
  and only if they are the bytes the other side writes for that kind.
\<close>

theorem preamble_exact:
  "length bs = PREAMBLE_LEN \<and> decode_preamble bs = Inr k \<longleftrightarrow> bs = encode_preamble k"
  using preamble_canonical by (auto simp: PREAMBLE_LEN_def)

subsection \<open>Authentication\<close>

definition purposes :: "bytes list" where
  "purposes = [LABEL_CONTROL_SERVER, LABEL_CONTROL_CLIENT, LABEL_CONTROL_READY,
     LABEL_DATA_SERVER, LABEL_DATA_CLIENT]"

text \<open>
  Codes are separated by purpose: a code computed for one of the five purposes verifies for
  another, over any pair of transcripts, only if HMAC collides on two different messages.
\<close>

theorem purposes_separated:
  assumes "l \<in> set purposes" and "l' \<in> set purposes" and "l \<noteq> l'"
    and "verify hmac key l t (mac hmac key l' t')"
  shows "hmac_collision hmac key (l @ t) (l' @ t')"
proof -
  have "is_label l" "is_label l'" using assms(1,2) by (auto simp: purposes_def)
  then show ?thesis using verify_other [OF _ _ assms(4)] assms(3) by blast
qed

theorem purposes_separated_witness:
  "hmac_collision (\<lambda>_ _. []) [] (LABEL_CONTROL_SERVER @ [1]) (LABEL_CONTROL_CLIENT @ [1])"
proof (rule purposes_separated)
  show "LABEL_CONTROL_SERVER \<noteq> LABEL_CONTROL_CLIENT" using labels_distinct by simp
qed (simp_all add: purposes_def verify_def mac_def)

text \<open>
  C18. A control code binds the whole handshake: a code that one side computed over its view of the
  handshake verifies against another view only if the views agree on the client's hello (instance,
  nonce, mode, port), on the server's nonce and on the session, unless HMAC collides. The same holds
  for the data handshake.
\<close>

theorem codes_bind_the_handshake:
  assumes "l \<in> set purposes" and "l' \<in> set purposes"
  shows "(wf_control_hello h \<longrightarrow> wf_control_hello h' \<longrightarrow> length n = 32 \<longrightarrow> length n' = 32 \<longrightarrow>
      verify hmac key l (control_transcript h n s) (mac hmac key l' (control_transcript h' n' s')) \<longrightarrow>
      h = h' \<and> n = n' \<and> s = s' \<and> l = l' \<or>
      hmac_collision hmac key (l @ control_transcript h n s) (l' @ control_transcript h' n' s')) \<and>
    (wf_data_hello d \<longrightarrow> wf_data_hello d' \<longrightarrow>
      verify hmac key l (data_transcript d n) (mac hmac key l' (data_transcript d' n')) \<longrightarrow>
      d = d' \<and> n = n' \<and> l = l' \<or>
      hmac_collision hmac key (l @ data_transcript d n) (l' @ data_transcript d' n'))"
proof -
  have "is_label l" "is_label l'" using assms(1,2) by (auto simp: purposes_def)
  then show ?thesis
    using verify_other [of l l' hmac key] control_transcript_inject data_transcript_inject by blast
qed

theorem codes_bind_the_handshake_witness:
  "hmac_collision (\<lambda>_ _. []) [] (LABEL_CONTROL_CLIENT @ control_transcript demo_hello (replicate 32 1) [])
     (LABEL_CONTROL_CLIENT @ control_transcript demo_hello (replicate 32 2) [])"
proof -
  have "verify (\<lambda>_ _. []) [] LABEL_CONTROL_CLIENT (control_transcript demo_hello (replicate 32 1) [])
      (mac (\<lambda>_ _. []) [] LABEL_CONTROL_CLIENT (control_transcript demo_hello (replicate 32 2) []))"
    by (simp add: verify_def mac_def)
  moreover have "LABEL_CONTROL_CLIENT \<in> set purposes" by (simp add: purposes_def)
  ultimately show ?thesis
    using codes_bind_the_handshake [of LABEL_CONTROL_CLIENT LABEL_CONTROL_CLIENT demo_hello demo_hello
        "replicate 32 1" "replicate 32 2" "\<lambda>_ _. []" "[]" "[]" "[]"] by simp
qed

end
