(* ===== verification/Control_Props.thy ===== *)
theory Control_Props
  imports Server_Control Client_Control Protocol_Props
begin

text \<open>
  The control handshake between server and client: what each side accepts, that honest sides accept
  each other, and what the session loops of both ends do. HMAC-SHA-256 returns 32 bytes; the theorems
  that need it say so (\<open>hmac_len\<close>).
\<close>

definition hmac_len :: "hmac \<Rightarrow> bool" where
  "hmac_len hmac = (\<forall>k m. length (hmac k m) = 32)"

lemma length_mac [simp]: "hmac_len hmac \<Longrightarrow> length (mac hmac k l t) = 32"
  by (simp add: hmac_len_def mac_def)

subsection \<open>Frames of the handshake\<close>

definition hello_frame :: "control_hello \<Rightarrow> frame" where
  "hello_frame h = frame_new ControlHello (control_hello_encode h)"

definition challenge_of :: "hmac \<Rightarrow> string \<Rightarrow> control_hello \<Rightarrow> nonce \<Rightarrow> session_id \<Rightarrow> control_challenge" where
  "challenge_of hmac key h n s =
     \<lparr>cc_server_nonce = n, cc_session_id = s,
      cc_server_mac = mac hmac (bytes_of key) LABEL_CONTROL_SERVER (control_transcript h n s)\<rparr>"

definition challenge_frame :: "hmac \<Rightarrow> string \<Rightarrow> control_hello \<Rightarrow> nonce \<Rightarrow> session_id \<Rightarrow> frame" where
  "challenge_frame hmac key h n s =
     frame_new ControlChallenge (control_challenge_encode (challenge_of hmac key h n s))"

definition proof_frame :: "hmac \<Rightarrow> string \<Rightarrow> control_hello \<Rightarrow> nonce \<Rightarrow> session_id \<Rightarrow> frame" where
  "proof_frame hmac key h n s =
     frame_new ControlProof (mac hmac (bytes_of key) LABEL_CONTROL_CLIENT (control_transcript h n s))"

definition registered_frame ::
  "hmac \<Rightarrow> string \<Rightarrow> control_hello \<Rightarrow> nonce \<Rightarrow> session_id \<Rightarrow> u16 \<Rightarrow> u32 \<Rightarrow> frame" where
  "registered_frame hmac key h n s p m =
     frame_new Registered (registered_encode
       \<lparr>rg_assigned_port = p, rg_max_connections = m,
        rg_ready_mac = mac hmac (bytes_of key) LABEL_CONTROL_READY
          (ready_transcript (control_transcript h n s) p m)\<rparr>)"

lemma hello_frame_wf [simp]: "wf_control_hello h \<Longrightarrow> wf_frame (hello_frame h)"
  by (simp add: hello_frame_def control_hello.enc_len)

lemma challenge_wf:
  "hmac_len hmac \<Longrightarrow> length n = 32 \<Longrightarrow> length s = 16 \<Longrightarrow> wf_control_challenge (challenge_of hmac key h n s)"
  by (simp add: wf_control_challenge_def challenge_of_def)

lemma challenge_frame_wf [simp]:
  "hmac_len hmac \<Longrightarrow> length n = 32 \<Longrightarrow> length s = 16 \<Longrightarrow> wf_frame (challenge_frame hmac key h n s)"
  by (simp add: challenge_frame_def control_challenge.enc_len challenge_wf)

lemma proof_frame_wf [simp]: "hmac_len hmac \<Longrightarrow> wf_frame (proof_frame hmac key h n s)"
  by (simp add: proof_frame_def)

lemma registered_frame_wf [simp]:
  "hmac_len hmac \<Longrightarrow> 1024 \<le> p \<Longrightarrow> m \<noteq> 0 \<Longrightarrow> wf_frame (registered_frame hmac key h n s p m)"
  by (simp add: registered_frame_def registered.enc_len wf_registered_def)

lemma expect_frame_Inr:
  "expect_frame k t c = (Inr f, d) \<longleftrightarrow>
     read_frame c = (Inr f, d) \<and> ty f = t \<and> (case k of Control \<Rightarrow> is_control t | Data \<Rightarrow> is_data t)"
  by (cases k) (auto simp: expect_frame_def io_bind_Inr)

lemma expect_frame_encode:
  assumes "wf_frame f" and "incoming c = frame_encode f @ rest"
    and "case k of Control \<Rightarrow> is_control (ty f) | Data \<Rightarrow> is_data (ty f)"
  shows "expect_frame k (ty f) c = (Inr f, c\<lparr>incoming := rest\<rparr>)"
  using read_frame_encode [OF assms(1,2)] assms(3) by (simp add: expect_frame_Inr)

subsection \<open>What the server admits\<close>

lemma is_control_handshake [simp]:
  "is_control ControlHello" "is_control ControlProof" "is_control ControlChallenge" "is_control Registered"
  "is_control Error"
  by (simp_all add: is_control_def)

lemma control_handshake_Inr:
  assumes run: "control_handshake hmac key nd sd c = (Inr a, d)"
    and wr: "write_fails c = []" and dr: "wf_draw 32 nd" "wf_draw 16 sd" and len: "hmac_len hmac"
  shows "\<exists>h n s. nd = Inr n \<and> sd = Inr s \<and> wf_control_hello h \<and>
      incoming c = frame_encode (hello_frame h) @ frame_encode (proof_frame hmac key h n s) @ incoming d \<and>
      d = c\<lparr>incoming := incoming d, outgoing := outgoing c @ frame_encode (challenge_frame hmac key h n s)\<rparr> \<and>
      a = \<lparr>au_hello = h, au_session_id = s, au_transcript = control_transcript h n s\<rparr>"
proof -
  from run obtain f c1 h n s c2 g where
    f: "expect_frame Control ControlHello c = (Inr f, c1)" "control_hello_decode (payload f) = Inr h"
    and draws: "nd = Inr n" "sd = Inr s"
    and w: "write_frame (challenge_frame hmac key h n s) c1 = (Inr (), c2)"
    and g: "expect_frame Control ControlProof c2 = (Inr g, d)"
    and v: "verify hmac (bytes_of key) LABEL_CONTROL_CLIENT (control_transcript h n s) (payload g)"
    and a: "a = \<lparr>au_hello = h, au_session_id = s, au_transcript = control_transcript h n s\<rparr>"
    unfolding control_handshake_def challenge_frame_def challenge_of_def
    by (auto simp: io_bind_Inr Let_def split: if_splits)
  have h: "wf_control_hello h" "f = hello_frame h"
    using f by (auto simp: control_hello.dec_iff expect_frame_Inr hello_frame_def intro: frame_new_collapse)
  have c1: "incoming c = frame_encode (hello_frame h) @ incoming c1" "c1 = c\<lparr>incoming := incoming c1\<rparr>"
    using f(1) h(2) by (simp_all add: expect_frame_Inr read_frame_iff)
  have "write_fails c1 = []" using wr c1(2) by (metis conn.select_convs(3) conn.surjective conn.update_convs(1))
  moreover have "wf_frame (challenge_frame hmac key h n s)" using dr draws len by simp
  ultimately have c2: "c2 = c1\<lparr>outgoing := outgoing c1 @ frame_encode (challenge_frame hmac key h n s)\<rparr>"
    using w wf_frame_small by simp
  have "g = proof_frame hmac key h n s"
    using g v by (simp add: expect_frame_Inr proof_frame_def verify_def mac_def frame_new_collapse)
  then have "incoming c2 = frame_encode (proof_frame hmac key h n s) @ incoming d" "d = c2\<lparr>incoming := incoming d\<rparr>"
    using g by (simp_all add: expect_frame_Inr read_frame_iff)
  then have "incoming c = frame_encode (hello_frame h) @ frame_encode (proof_frame hmac key h n s) @ incoming d"
    "d = c\<lparr>incoming := incoming d, outgoing := outgoing c @ frame_encode (challenge_frame hmac key h n s)\<rparr>"
    using c1 c2 by (cases c, cases c1, cases d, simp)+
  then show ?thesis using draws h(1) a by blast
qed

lemma control_handshake_ok:
  assumes "wf_control_hello h" and "length n = 32" and "length s = 16" and "hmac_len hmac"
    and "write_fails c = []"
    and inc: "incoming c = frame_encode (hello_frame h) @ frame_encode (proof_frame hmac key h n s) @ rest"
  shows "control_handshake hmac key (Inr n) (Inr s) c =
    (Inr \<lparr>au_hello = h, au_session_id = s, au_transcript = control_transcript h n s\<rparr>,
     c\<lparr>incoming := rest, outgoing := outgoing c @ frame_encode (challenge_frame hmac key h n s)\<rparr>)"
proof -
  let ?c1 = "c\<lparr>incoming := frame_encode (proof_frame hmac key h n s) @ rest\<rparr>"
  let ?c2 = "?c1\<lparr>outgoing := outgoing c @ frame_encode (challenge_frame hmac key h n s)\<rparr>"
  have 1: "expect_frame Control ControlHello c = (Inr (hello_frame h), ?c1)"
    using expect_frame_encode [OF hello_frame_wf [OF assms(1)] inc, of Control] by (simp add: hello_frame_def)
  have 2: "write_frame (challenge_frame hmac key h n s) ?c1 = (Inr (), ?c2)"
    using assms wf_frame_small [OF challenge_frame_wf] by simp
  have 3: "expect_frame Control ControlProof ?c2 = (Inr (proof_frame hmac key h n s), ?c2\<lparr>incoming := rest\<rparr>)"
    using expect_frame_encode [OF proof_frame_wf [OF assms(4)], of ?c2 _ _ _ _ rest Control]
    by (simp add: proof_frame_def)
  show ?thesis
    unfolding control_handshake_def
    using 1 2 3 assms(1)
    by (simp add: io_bind_eq Let_def control_hello.dec_enc hello_frame_def challenge_frame_def
        challenge_of_def proof_frame_def)
qed

text \<open>
  C5. The server admits exactly the clients that know the key: with sound random draws and a socket
  that takes its writes, the handshake succeeds if and only if the client sent a legal hello and then
  the code, under the shared key, of the very transcript with the server's fresh nonce and session
  identifier; the server then sent exactly its challenge and consumed exactly those two frames.
\<close>

theorem server_admits_exactly:
  assumes "write_fails c = []" and "wf_draw 32 nd" and "wf_draw 16 sd" and "hmac_len hmac"
  shows "control_handshake hmac key nd sd c = (Inr a, d) \<longleftrightarrow>
    (\<exists>h n s. nd = Inr n \<and> sd = Inr s \<and> wf_control_hello h \<and>
      incoming c = frame_encode (hello_frame h) @ frame_encode (proof_frame hmac key h n s) @ incoming d \<and>
      d = c\<lparr>incoming := incoming d, outgoing := outgoing c @ frame_encode (challenge_frame hmac key h n s)\<rparr> \<and>
      a = \<lparr>au_hello = h, au_session_id = s, au_transcript = control_transcript h n s\<rparr>)"
    (is "?run \<longleftrightarrow> ?sent")
proof
  assume ?run
  then show ?sent using control_handshake_Inr assms by blast
next
  assume ?sent
  then obtain h n s where e: "nd = Inr n" "sd = Inr s" "wf_control_hello h"
    "incoming c = frame_encode (hello_frame h) @ frame_encode (proof_frame hmac key h n s) @ incoming d"
    and d: "d = c\<lparr>incoming := incoming d, outgoing := outgoing c @ frame_encode (challenge_frame hmac key h n s)\<rparr>"
    and a: "a = \<lparr>au_hello = h, au_session_id = s, au_transcript = control_transcript h n s\<rparr>"
    by blast
  have "control_handshake hmac key (Inr n) (Inr s) c = (Inr a,
      c\<lparr>incoming := incoming d, outgoing := outgoing c @ frame_encode (challenge_frame hmac key h n s)\<rparr>)"
    unfolding a using e assms by (intro control_handshake_ok) simp_all
  then show ?run using e(1,2) by (subst d) simp
qed

definition demo_hmac :: hmac where
  "demo_hmac k m = replicate 32 (of_nat (length k + length m))"

lemma demo_hmac_len [simp]: "hmac_len demo_hmac"
  by (simp add: hmac_len_def demo_hmac_def)

theorem server_admits_exactly_witness:
  "\<exists>a d. control_handshake demo_hmac ''secret'' (Inr (replicate 32 1)) (Inr (replicate 16 2))
     (demo_conn (frame_encode (hello_frame demo_hello) @
        frame_encode (proof_frame demo_hmac ''secret'' demo_hello (replicate 32 1) (replicate 16 2)))) = (Inr a, d) \<and>
     au_hello a = demo_hello \<and> incoming d = []"
proof -
  let ?n = "replicate 32 1 :: bytes" and ?s = "replicate 16 2 :: bytes"
  let ?c = "demo_conn (frame_encode (hello_frame demo_hello) @
        frame_encode (proof_frame demo_hmac ''secret'' demo_hello ?n ?s))"
  let ?d = "?c\<lparr>incoming := [], outgoing := frame_encode (challenge_frame demo_hmac ''secret'' demo_hello ?n ?s)\<rparr>"
  have "control_handshake demo_hmac ''secret'' (Inr ?n) (Inr ?s) ?c =
      (Inr \<lparr>au_hello = demo_hello, au_session_id = ?s, au_transcript = control_transcript demo_hello ?n ?s\<rparr>, ?d)"
    by (subst server_admits_exactly) (auto simp: demo_conn_def)
  then show ?thesis by simp
qed

subsection \<open>What the client accepts\<close>

lemma await_answer_Inr:
  "await_answer t c = (Inr f, d) \<longleftrightarrow> read_frame c = (Inr f, d) \<and> is_control (ty f) \<and> ty f = t \<and> t \<noteq> Error"
  by (auto simp: await_answer_def io_bind_Inr io_map_err_Inr)

lemma await_answer_encode:
  assumes "wf_frame f" and "incoming c = frame_encode f @ rest" and "is_control (ty f)" and "ty f \<noteq> Error"
  shows "await_answer (ty f) c = (Inr f, c\<lparr>incoming := rest\<rparr>)"
  using read_frame_encode [OF assms(1,2)] assms(3,4) by (simp add: await_answer_Inr)

definition client_hello :: "instance_id \<Rightarrow> nonce \<Rightarrow> mode \<Rightarrow> u16 \<Rightarrow> control_hello" where
  "client_hello i n m p =
     \<lparr>ch_instance_id = i, ch_client_nonce = n, ch_mode = m, ch_requested_port = p\<rparr>"

lemma client_register_Inr:
  assumes run: "client_register hmac config i m p nd c = (Inr session, d)"
    and wr: "write_fails c = []" and hw: "wf_draw 32 nd" "length i = 16" and len: "hmac_len hmac"
  shows "\<exists>cn n s q mx. nd = Inr cn \<and>
      incoming c = frame_encode (challenge_frame hmac (ec_key config) (client_hello i cn m p) n s) @
        frame_encode (registered_frame hmac (ec_key config) (client_hello i cn m p) n s q mx) @ incoming d \<and>
      length n = 32 \<and> length s = 16 \<and> 1024 \<le> q \<and> mx \<noteq> 0 \<and> (p \<noteq> 0 \<longrightarrow> q = p) \<and>
      outgoing d = outgoing c @ encode_preamble Control @ frame_encode (hello_frame (client_hello i cn m p)) @
        frame_encode (proof_frame hmac (ec_key config) (client_hello i cn m p) n s) \<and>
      cs_session_id session = s \<and> cs_assigned_port session = q \<and> cs_max_connections session = mx"
proof -
  let ?key = "ec_key config"
  from run obtain c0 cn c1 f c2 ch c3 g r where
    w0: "write_preamble Control c = (Inr (), c0)" and cn: "nd = Inr cn"
    and w1: "write_frame (hello_frame (client_hello i cn m p)) c0 = (Inr (), c1)"
    and f: "await_answer ControlChallenge c1 = (Inr f, c2)" "control_challenge_decode (payload f) = Inr ch"
    and v1: "verify hmac (bytes_of ?key) LABEL_CONTROL_SERVER
      (control_transcript (client_hello i cn m p) (cc_server_nonce ch) (cc_session_id ch)) (cc_server_mac ch)"
    and w2: "write_frame (proof_frame hmac ?key (client_hello i cn m p) (cc_server_nonce ch) (cc_session_id ch)) c2 =
      (Inr (), c3)"
    and g: "await_answer Registered c3 = (Inr g, d)" "registered_decode (payload g) = Inr r"
    and v2: "verify hmac (bytes_of ?key) LABEL_CONTROL_READY (ready_transcript
      (control_transcript (client_hello i cn m p) (cc_server_nonce ch) (cc_session_id ch))
      (rg_assigned_port r) (rg_max_connections r)) (rg_ready_mac r)"
    and pt: "p \<noteq> 0 \<longrightarrow> rg_assigned_port r = p"
    and ss: "cs_session_id session = cc_session_id ch" "cs_assigned_port session = rg_assigned_port r"
      "cs_max_connections session = rg_max_connections r"
    unfolding client_register_def hello_frame_def client_hello_def proof_frame_def
    by (auto simp: io_bind_Inr io_map_err_Inr Let_def split: if_splits)
  let ?h = "client_hello i cn m p" and ?n = "cc_server_nonce ch" and ?s = "cc_session_id ch"
  have small: "length (payload (hello_frame ?h)) \<le> MAX_PAYLOAD"
    using hw cn by (simp add: hello_frame_def client_hello_def control_hello_encode_def MAX_PAYLOAD_def)
  have c0: "c0 = c\<lparr>outgoing := outgoing c @ encode_preamble Control\<rparr>" using w0 wr by simp
  have c1: "c1 = c0\<lparr>outgoing := outgoing c0 @ frame_encode (hello_frame ?h)\<rparr>" using w1 wr small c0 by simp
  have "challenge_of hmac ?key ?h ?n ?s = ch"
    using v1 by (cases ch) (simp add: challenge_of_def verify_def mac_def)
  then have wfch: "wf_control_challenge ch" "f = challenge_frame hmac ?key ?h ?n ?s"
    using f by (auto simp: control_challenge.dec_iff await_answer_Inr challenge_frame_def
        intro!: frame_new_collapse)
  have c2: "incoming c1 = frame_encode f @ incoming c2" "c2 = c1\<lparr>incoming := incoming c2\<rparr>"
    using f(1) by (simp_all add: await_answer_Inr read_frame_iff)
  have "write_fails c2 = []" using wr c0 c1 c2(2) by (cases c2) simp
  then have c3: "c3 = c2\<lparr>outgoing := outgoing c2 @ frame_encode (proof_frame hmac ?key ?h ?n ?s)\<rparr>"
    using w2 wf_frame_small [OF proof_frame_wf [OF len]] by simp
  have "\<lparr>rg_assigned_port = rg_assigned_port r, rg_max_connections = rg_max_connections r,
      rg_ready_mac = mac hmac (bytes_of ?key) LABEL_CONTROL_READY (ready_transcript
        (control_transcript ?h ?n ?s) (rg_assigned_port r) (rg_max_connections r))\<rparr> = r"
    using v2 by (cases r) (simp add: verify_def mac_def)
  then have wfr: "wf_registered r"
    "g = registered_frame hmac ?key ?h ?n ?s (rg_assigned_port r) (rg_max_connections r)"
    using g by (auto simp: registered.dec_iff await_answer_Inr registered_frame_def intro!: frame_new_collapse)
  have d: "incoming c3 = frame_encode g @ incoming d" "d = c3\<lparr>incoming := incoming d\<rparr>"
    using g(1) by (simp_all add: await_answer_Inr read_frame_iff)
  have "incoming c = frame_encode f @ frame_encode g @ incoming d"
    using c0 c1 c2 c3 d by (cases c2, cases d) simp
  moreover have "outgoing d = outgoing c @ encode_preamble Control @ frame_encode (hello_frame ?h) @
      frame_encode (proof_frame hmac ?key ?h ?n ?s)"
    using c0 c1 c2 c3 d by (cases c2, cases d) simp
  ultimately show ?thesis
    using cn wfch wfr pt ss
    by (intro exI [of _ cn] exI [of _ ?n] exI [of _ ?s] exI [of _ "rg_assigned_port r"]
        exI [of _ "rg_max_connections r"]) (simp add: wf_control_challenge_def wf_registered_def)
qed

lemma client_register_ok:
  fixes h config i m p cn n s hmac
  defines "h \<equiv> client_hello i cn m p" and "key \<equiv> ec_key config"
  assumes wf: "wf_control_hello h" "length n = 32" "length s = 16" and len: "hmac_len hmac"
    and wr: "write_fails c = []" and q: "1024 \<le> q" "mx \<noteq> 0" "p \<noteq> 0 \<longrightarrow> q = p"
    and inc: "incoming c = frame_encode (challenge_frame hmac key h n s) @
      frame_encode (registered_frame hmac key h n s q mx) @ rest"
  shows "client_register hmac config i m p (Inr cn) c =
    (Inr \<lparr>cs_session_id = s, cs_server_addr = \<lparr>sa_ip = V4 0, sa_port = 0\<rparr>, cs_assigned_port = q,
          cs_max_connections = mx\<rparr>,
     c\<lparr>incoming := rest, outgoing := outgoing c @ encode_preamble Control @ frame_encode (hello_frame h) @
       frame_encode (proof_frame hmac key h n s)\<rparr>)"
proof -
  let ?c0 = "c\<lparr>outgoing := outgoing c @ encode_preamble Control\<rparr>"
  let ?c1 = "?c0\<lparr>outgoing := outgoing ?c0 @ frame_encode (hello_frame h)\<rparr>"
  let ?c2 = "?c1\<lparr>incoming := frame_encode (registered_frame hmac key h n s q mx) @ rest\<rparr>"
  let ?c3 = "?c2\<lparr>outgoing := outgoing ?c2 @ frame_encode (proof_frame hmac key h n s)\<rparr>"
  have w0: "io_map_err transport (write_preamble Control) c = (Inr (), ?c0)"
    using wr by (simp add: io_map_err_Inr)
  have w1: "io_map_err transport (write_frame (hello_frame h)) ?c0 = (Inr (), ?c1)"
    using wr wf_frame_small [OF hello_frame_wf [OF wf(1)]] by (simp add: io_map_err_Inr)
  have r1: "await_answer ControlChallenge ?c1 = (Inr (challenge_frame hmac key h n s), ?c2)"
    using await_answer_encode [OF challenge_frame_wf [OF len wf(2,3)], of ?c1] inc
    by (simp add: challenge_frame_def)
  have w2: "io_map_err transport (write_frame (proof_frame hmac key h n s)) ?c2 = (Inr (), ?c3)"
    using wr wf_frame_small [OF proof_frame_wf [OF len]] by (simp add: io_map_err_Inr)
  have r2: "await_answer Registered ?c3 = (Inr (registered_frame hmac key h n s q mx), ?c3\<lparr>incoming := rest\<rparr>)"
    using await_answer_encode [OF registered_frame_wf [OF len q(1,2)], of ?c3] by (simp add: registered_frame_def)
  have dec: "control_challenge_decode (payload (challenge_frame hmac key h n s)) = Inr (challenge_of hmac key h n s)"
    using challenge_wf [OF len wf(2,3)] by (simp add: challenge_frame_def control_challenge.dec_enc)
  have dec2: "registered_decode (payload (registered_frame hmac key h n s q mx)) =
      Inr \<lparr>rg_assigned_port = q, rg_max_connections = mx, rg_ready_mac =
        mac hmac (bytes_of key) LABEL_CONTROL_READY (ready_transcript (control_transcript h n s) q mx)\<rparr>"
    using q(1,2) len by (simp add: registered_frame_def registered.dec_enc wf_registered_def)
  have port: "p = 0 \<or> q = p" using q(3) by blast
  show ?thesis
    unfolding client_register_def
    using w0 w1 r1 w2 r2 dec dec2 port
    by (simp add: io_bind_eq Let_def h_def client_hello_def [symmetric] hello_frame_def [symmetric] key_def
        challenge_of_def proof_frame_def [symmetric])
qed

text \<open>
  C6. The client accepts only a server that knows the key: it registers, with sound random draws and
  a socket that takes its writes, only if it received a challenge and a grant whose codes are those of
  the shared key over its own hello, fresh nonce included; the port granted is unprivileged and is the
  one it asked for, if it asked for one.
\<close>

theorem client_accepts_only_key_holder:
  assumes "client_register hmac config i m p nd c = (Inr session, d)"
    and "write_fails c = []" and "wf_draw 32 nd" and "length i = 16" and "hmac_len hmac"
  shows "\<exists>cn n s q mx. nd = Inr cn \<and>
      incoming c = frame_encode (challenge_frame hmac (ec_key config) (client_hello i cn m p) n s) @
        frame_encode (registered_frame hmac (ec_key config) (client_hello i cn m p) n s q mx) @ incoming d \<and>
      length n = 32 \<and> length s = 16 \<and> 1024 \<le> q \<and> mx \<noteq> 0 \<and> (p \<noteq> 0 \<longrightarrow> q = p) \<and>
      outgoing d = outgoing c @ encode_preamble Control @ frame_encode (hello_frame (client_hello i cn m p)) @
        frame_encode (proof_frame hmac (ec_key config) (client_hello i cn m p) n s) \<and>
      cs_session_id session = s \<and> cs_assigned_port session = q \<and> cs_max_connections session = mx"
  using assms by (rule client_register_Inr)

definition demo_expose :: expose_config where
  "demo_expose =
     \<lparr>ec_key = ''secret'', ec_server = \<lparr>host = ''example.org'', port = 4000\<rparr>, ec_remote_port = Some 4555,
      ec_target = \<lparr>host = ''localhost'', port = 80\<rparr>, ec_log_level = LevelInfo, ec_quiet = False\<rparr>"

lemma demo_hello_client: "demo_hello = client_hello (replicate 16 2) (replicate 32 5) Fresh 4555"
  by (simp add: demo_hello_def client_hello_def)

lemma demo_client_register:
  "client_register demo_hmac demo_expose (replicate 16 2) Fresh 4555 (Inr (replicate 32 5))
     (demo_conn (frame_encode (challenge_frame demo_hmac ''secret'' demo_hello (replicate 32 1) (replicate 16 2)) @
       frame_encode (registered_frame demo_hmac ''secret'' demo_hello (replicate 32 1) (replicate 16 2) 4555 256))) =
   (Inr \<lparr>cs_session_id = replicate 16 2, cs_server_addr = \<lparr>sa_ip = V4 0, sa_port = 0\<rparr>,
         cs_assigned_port = 4555, cs_max_connections = 256\<rparr>,
    (demo_conn [])\<lparr>outgoing := encode_preamble Control @ frame_encode (hello_frame demo_hello) @
      frame_encode (proof_frame demo_hmac ''secret'' demo_hello (replicate 32 1) (replicate 16 2))\<rparr>)"
proof -
  let ?c = "demo_conn (frame_encode (challenge_frame demo_hmac ''secret'' demo_hello (replicate 32 1) (replicate 16 2)) @
       frame_encode (registered_frame demo_hmac ''secret'' demo_hello (replicate 32 1) (replicate 16 2) 4555 256))"
  have "client_register demo_hmac demo_expose (replicate 16 2) Fresh 4555 (Inr (replicate 32 5)) ?c =
     (Inr \<lparr>cs_session_id = replicate 16 2, cs_server_addr = \<lparr>sa_ip = V4 0, sa_port = 0\<rparr>,
         cs_assigned_port = 4555, cs_max_connections = 256\<rparr>,
      ?c\<lparr>incoming := [], outgoing := outgoing ?c @ encode_preamble Control @ frame_encode (hello_frame demo_hello) @
      frame_encode (proof_frame demo_hmac ''secret'' demo_hello (replicate 32 1) (replicate 16 2))\<rparr>)"
    using client_register_ok [of "replicate 16 2" "replicate 32 5" Fresh 4555 "replicate 32 1" "replicate 16 2"
        demo_hmac ?c 4555 256 demo_expose "[]"]
    by (simp add: demo_hello_client [symmetric] demo_expose_def demo_conn_def)
  then show ?thesis by (simp add: demo_conn_def)
qed

theorem client_accepts_only_key_holder_witness:
  "\<exists>n s q mx. length n = 32 \<and> q = 4555 \<and>
     frame_encode (challenge_frame demo_hmac ''secret'' demo_hello (replicate 32 1) (replicate 16 2)) @
     frame_encode (registered_frame demo_hmac ''secret'' demo_hello (replicate 32 1) (replicate 16 2) 4555 256) =
     frame_encode (challenge_frame demo_hmac ''secret'' demo_hello n s) @
     frame_encode (registered_frame demo_hmac ''secret'' demo_hello n s q mx)"
proof -
  have io: "incoming (demo_conn bs) = bs" "write_fails (demo_conn bs) = []" for bs
    by (simp_all add: demo_conn_def)
  have key: "ec_key demo_expose = ''secret''" by (simp add: demo_expose_def)
  show ?thesis
    using client_accepts_only_key_holder [OF demo_client_register]
    unfolding io key by (simp add: demo_hello_client io) blast
qed

subsection \<open>Honest sides\<close>

lemma registered_message_frame:
  "registered_message hmac key \<lparr>au_hello = h, au_session_id = s, au_transcript = control_transcript h n s\<rparr> rn =
     OutFrame (registered_frame hmac key h n s (rn_assigned_port rn) (rn_max_connections rn))"
  by (simp add: registered_message_def registered_frame_def outbound_frame_def Let_def)

text \<open>
  C9. Two honest sides with the same key complete the handshake: on each other's bytes, the server
  authenticates the client and, once the registry grants a port the client can accept, the client
  registers; both then agree on the hello, the session identifier, the port and the maximum, and no
  byte is left over.
\<close>

theorem honest_sides_agree:
  assumes "hmac_len hmac" and "wf_control_hello (client_hello i cn m p)"
    and "length n = 32" and "length s = 16"
    and grant: "1024 \<le> rn_assigned_port rn" "rn_max_connections rn \<noteq> 0" "p \<noteq> 0 \<longrightarrow> rn_assigned_port rn = p"
    and "write_fails cc = []" and "write_fails sc = []" and "outgoing cc = []" and "outgoing sc = []"
  shows "\<exists>to_server challenge ready session a.
    client_register hmac config i m p (Inr cn) (cc\<lparr>incoming := challenge @ frame_encode ready\<rparr>) =
      (Inr session, cc\<lparr>incoming := [], outgoing := encode_preamble Control @ to_server\<rparr>) \<and>
    control_handshake hmac (ec_key config) (Inr n) (Inr s) (sc\<lparr>incoming := to_server\<rparr>) =
      (Inr a, sc\<lparr>incoming := [], outgoing := challenge\<rparr>) \<and>
    registered_message hmac (ec_key config) a rn = OutFrame ready \<and>
    au_hello a = client_hello i cn m p \<and>
    cs_session_id session = au_session_id a \<and> cs_assigned_port session = rn_assigned_port rn \<and>
    cs_max_connections session = rn_max_connections rn"
proof -
  let ?h = "client_hello i cn m p" and ?key = "ec_key config"
  let ?ready = "registered_frame hmac ?key ?h n s (rn_assigned_port rn) (rn_max_connections rn)"
  let ?to_server = "frame_encode (hello_frame ?h) @ frame_encode (proof_frame hmac ?key ?h n s)"
  let ?challenge = "frame_encode (challenge_frame hmac ?key ?h n s)"
  have server: "control_handshake hmac ?key (Inr n) (Inr s) (sc\<lparr>incoming := ?to_server\<rparr>) =
      (Inr \<lparr>au_hello = ?h, au_session_id = s, au_transcript = control_transcript ?h n s\<rparr>,
       sc\<lparr>incoming := [], outgoing := ?challenge\<rparr>)"
    using control_handshake_ok [of ?h n s hmac "sc\<lparr>incoming := ?to_server\<rparr>" ?key "[]"] assms by simp
  have client: "client_register hmac config i m p (Inr cn) (cc\<lparr>incoming := ?challenge @ frame_encode ?ready\<rparr>) =
      (Inr \<lparr>cs_session_id = s, cs_server_addr = \<lparr>sa_ip = V4 0, sa_port = 0\<rparr>,
            cs_assigned_port = rn_assigned_port rn, cs_max_connections = rn_max_connections rn\<rparr>,
       cc\<lparr>incoming := [], outgoing := encode_preamble Control @ ?to_server\<rparr>)"
    using client_register_ok [of i cn m p n s hmac "cc\<lparr>incoming := ?challenge @ frame_encode ?ready\<rparr>"
        "rn_assigned_port rn" "rn_max_connections rn" config "[]"] assms by simp
  show ?thesis
    by (rule exI [of _ ?to_server], rule exI [of _ ?challenge], rule exI [of _ ?ready],
        intro exI conjI, rule client, rule server) (simp_all add: registered_message_frame)
qed

theorem honest_sides_agree_witness:
  "\<exists>to_server challenge ready session a.
    client_register demo_hmac demo_expose (replicate 16 2) Fresh 4555 (Inr (replicate 32 5))
      ((demo_conn [])\<lparr>incoming := challenge @ frame_encode ready\<rparr>) =
      (Inr session, (demo_conn [])\<lparr>incoming := [], outgoing := encode_preamble Control @ to_server\<rparr>) \<and>
    control_handshake demo_hmac (ec_key demo_expose) (Inr (replicate 32 1)) (Inr (replicate 16 2))
      ((demo_conn [])\<lparr>incoming := to_server\<rparr>) =
      (Inr a, (demo_conn [])\<lparr>incoming := [], outgoing := challenge\<rparr>) \<and>
    cs_session_id session = au_session_id a \<and> cs_assigned_port session = 4555"
proof -
  have "wf_control_hello (client_hello (replicate 16 2) (replicate 32 5) Fresh 4555)"
    using demo_hello_wf by (simp only: demo_hello_client)
  then show ?thesis
    using honest_sides_agree [of demo_hmac "replicate 16 2" "replicate 32 5" Fresh 4555 "replicate 32 1"
        "replicate 16 2" "\<lparr>rn_assigned_port = 4555, rn_max_connections = 256, rn_generation = 1\<rparr>"
        "demo_conn []" "demo_conn []" demo_expose]
    by (simp add: demo_conn_def) blast
qed

subsection \<open>Reports of the server's handler\<close>

definition is_report :: "action \<Rightarrow> bool" where
  "is_report a = (case a of Request (CmdGoodbye _ _) \<Rightarrow> True | Request (CmdSessionLost _ _) \<Rightarrow> True | _ \<Rightarrow> False)"

lemma control_frame_no_report: "control_frame sid po f hb = (t, as) \<Longrightarrow> \<forall>a \<in> set as. \<not> is_report a"
  by (auto simp: control_frame_def queue_if_def is_report_def split: msg_type.splits sum.splits if_splits)

lemma session_iteration_no_report:
  "session_iteration tm sid po hb = (t, as) \<Longrightarrow> \<forall>a \<in> set as. \<not> is_report a"
  by (auto simp: session_iteration_def ping_turn_def is_report_def Let_def dest: control_frame_no_report
      split: if_splits option.splits sum.splits)

lemma session_iteration_clean:
  "session_iteration tm sid po hb = (Break clean, as) \<Longrightarrow>
   clean \<longleftrightarrow> \<not> po_cancelled po \<and> \<not> pong_due po hb \<and> \<not> po_tick po \<and>
     (\<exists>f. po_incoming po = Some (Some (Inr f)) \<and> ty f = Goodbye)"
  by (auto simp: session_iteration_def ping_turn_def control_frame_def Let_def
      split: if_splits option.splits sum.splits msg_type.splits)

lemma select_loop_actions:
  assumes "\<And>po hb t as. iter po hb = (t, as) \<Longrightarrow> \<forall>a \<in> set as. P a"
    and "select_loop iter pos hb = (r, as)"
  shows "\<forall>a \<in> set as. P a"
  using assms(2)
proof (induction pos arbitrary: hb as)
  case (Cons po pos)
  then show ?case
    using assms(1) [of po hb] by (cases "iter po hb") (fastforce split: turn.splits prod.splits)
qed simp

text \<open>The loop ends cleanly exactly if it takes GOODBYE in a turn it reaches.\<close>

lemma session_loop_clean:
  assumes "select_loop (session_iteration tm sid) pos hb0 = (Some clean, as)"
  shows "clean \<longleftrightarrow> (\<exists>pre po post hb f. pos = pre @ po # post \<and>
    loop_state (session_iteration tm sid) pre hb0 = Some hb \<and> \<not> po_cancelled po \<and> \<not> pong_due po hb \<and>
    \<not> po_tick po \<and> po_incoming po = Some (Some (Inr f)) \<and> ty f = Goodbye)"
proof
  assume clean
  from select_loop_last [OF assms] obtain pre po post hb as' where last: "pos = pre @ po # post"
    "loop_state (session_iteration tm sid) pre hb0 = Some hb" "session_iteration tm sid po hb = (Break clean, as')"
    by blast
  with \<open>clean\<close> session_iteration_clean [OF last(3)] show "\<exists>pre po post hb f. pos = pre @ po # post \<and>
    loop_state (session_iteration tm sid) pre hb0 = Some hb \<and> \<not> po_cancelled po \<and> \<not> pong_due po hb \<and>
    \<not> po_tick po \<and> po_incoming po = Some (Some (Inr f)) \<and> ty f = Goodbye"
    by blast
next
  assume "\<exists>pre po post hb f. pos = pre @ po # post \<and>
    loop_state (session_iteration tm sid) pre hb0 = Some hb \<and> \<not> po_cancelled po \<and> \<not> pong_due po hb \<and>
    \<not> po_tick po \<and> po_incoming po = Some (Some (Inr f)) \<and> ty f = Goodbye"
  then obtain pre po post hb f where pos: "pos = pre @ po # post"
    and state: "loop_state (session_iteration tm sid) pre hb0 = Some hb"
    and turn: "\<not> po_cancelled po" "\<not> pong_due po hb" "\<not> po_tick po" "po_incoming po = Some (Some (Inr f))" "ty f = Goodbye"
    by blast
  obtain as' where "session_iteration tm sid po hb = (Break True, as')"
    using turn by (simp add: session_iteration_def control_frame_def)
  from select_loop_break [OF state this, of post] show clean using assms pos by simp
qed

text \<open>
  C13. Every session the server granted ends with exactly one report to the registry, after which the
  handler only cancels its tokens, each for the generation of the grant: a goodbye if and only if the
  grant was announced and GOODBYE is what the loop took in one of its turns (a turn takes a frame when
  the session is not cancelled, no PONG is overdue and no ping is due), a loss otherwise, also when the
  grant could not be announced.
\<close>

theorem session_ends_with_one_report:
  assumes run: "control_session hmac key tm a req (Inr rn) announce_ok pos = (Some clean, as)"
  shows "\<exists>bs cs. as = bs @ [Request (if clean then CmdGoodbye (au_session_id a) (rn_generation rn)
      else CmdSessionLost (au_session_id a) (rn_generation rn))] @ cs \<and> (\<forall>x \<in> set bs. \<not> is_report x) \<and>
    cs = (if announce_ok then [Cancel (rq_data_cancel req), Cancel (rq_control_cancel req)] else []) \<and>
    (clean \<longleftrightarrow> announce_ok \<and> (\<exists>pre po post hb f. pos = pre @ po # post \<and>
       loop_state (session_iteration tm (au_session_id a)) pre heartbeat_initial = Some hb \<and>
       \<not> po_cancelled po \<and> \<not> pong_due po hb \<and> \<not> po_tick po \<and>
       po_incoming po = Some (Some (Inr f)) \<and> ty f = Goodbye))"
proof (cases announce_ok)
  case False
  then show ?thesis using run by (auto simp: control_session_def is_report_def)
next
  case True
  let ?sid = "au_session_id a" and ?tok = "rq_control_cancel req"
  let ?start = "[Request (CmdRegister req), Queue (registered_message hmac key a rn)]"
  obtain r bs where loop: "select_loop (session_iteration tm ?sid) pos heartbeat_initial = (r, bs)" by fastforce
  have r: "r = Some clean"
    and as: "as = (?start @ bs @ [Cancel ?tok]) @
      [Request (if clean then CmdGoodbye ?sid (rn_generation rn) else CmdSessionLost ?sid (rn_generation rn))] @
      [Cancel (rq_data_cancel req), Cancel ?tok]"
    using run True loop by (auto simp: control_session_def session_loop_def split: option.splits)
  have "\<forall>x \<in> set bs. \<not> is_report x"
    by (rule select_loop_actions [OF session_iteration_no_report loop])
  then have none: "\<forall>x \<in> set (?start @ bs @ [Cancel ?tok]). \<not> is_report x" by (simp add: is_report_def)
  show ?thesis
    by (intro exI conjI, rule as, rule none) (use True session_loop_clean [OF loop [unfolded r]] in simp_all)
qed

definition demo_poll :: "frame \<Rightarrow> poll" where
  "demo_poll f =
     \<lparr>po_cancelled = False, po_now = 5, po_tick = False, po_incoming = Some (Some (Inr f)),
      po_send_ok = (\<lambda>_. True)\<rparr>"

theorem session_ends_with_one_report_witness:
  "\<exists>as bs. control_session demo_hmac ''secret'' timing_default
      \<lparr>au_hello = demo_hello, au_session_id = [1], au_transcript = []\<rparr>
      (control_request \<lparr>au_hello = demo_hello, au_session_id = [1], au_transcript = []\<rparr> 1 2 3)
      (Inr \<lparr>rn_assigned_port = 4555, rn_max_connections = 256, rn_generation = 7\<rparr>) True
      [demo_poll (frame_empty Goodbye)] = (Some True, as) \<and>
      as = bs @ [Request (CmdGoodbye [1] 7)] @ [Cancel 2, Cancel 3]"
proof -
  let ?a = "\<lparr>au_hello = demo_hello, au_session_id = [1], au_transcript = []\<rparr>"
  let ?rn = "\<lparr>rn_assigned_port = 4555, rn_max_connections = 256, rn_generation = 7\<rparr>"
  obtain as where run: "control_session demo_hmac ''secret'' timing_default ?a (control_request ?a 1 2 3) (Inr ?rn) True
      [demo_poll (frame_empty Goodbye)] = (Some True, as)"
    by (simp add: control_session_def session_loop_def session_iteration_def control_frame_def demo_poll_def
        pong_due_def heartbeat_initial_def)
  from session_ends_with_one_report [OF run] run show ?thesis by (auto simp: control_request_def)
qed

end
