(* ===== verification/Session_Props.thy ===== *)
theory Session_Props
  imports Control_Props
begin

text \<open>
  The established session on both ends: heartbeats, the writer task, and the client's life over many
  attempts.
\<close>

subsection \<open>Heartbeats\<close>

text \<open>
  C14. A dead peer is noticed by both ends: while a ping is unanswered, either loop ends at the latest
  with the first turn at or after the ping's deadline, whatever else arrives in between, unless the
  matching PONG does.
\<close>

theorem dead_peer_noticed_by_both:
  assumes "outstanding hb = Some (n, d)"
  shows "((\<forall>po \<in> set pos. \<not> pong_in po n) \<longrightarrow> (\<exists>po \<in> set pos. d \<le> po_now po) \<longrightarrow>
      (\<exists>clean as. select_loop (session_iteration tm sid) pos hb = (Some clean, as))) \<and>
    ((\<forall>po \<in> set cpos. \<not> pong_in po n) \<longrightarrow> (\<exists>po \<in> set cpos. d \<le> po_now po) \<longrightarrow>
      (\<exists>a as. select_loop (client_iteration tm ctx) cpos hb = (Some a, as)))"
  using server_heart.dead_peer_noticed [OF assms] client_heart.dead_peer_noticed [OF assms] by blast

definition demo_idle :: "instant \<Rightarrow> bool \<Rightarrow> client_poll" where
  "demo_idle t tick =
     \<lparr>po_cancelled = False, po_now = t, po_tick = tick, po_incoming = None, po_send_ok = (\<lambda>_. True),
      po_quit = False, po_permit = True\<rparr>"

definition demo_granted :: client_session where
  "demo_granted =
     \<lparr>cs_session_id = replicate 16 2, cs_server_addr = \<lparr>sa_ip = V4 0x7F000001, sa_port = 4000\<rparr>,
      cs_assigned_port = 4555, cs_max_connections = 256\<rparr>"

definition demo_ctx :: "request_id \<Rightarrow> open_context" where
  "demo_ctx = open_context_for demo_expose demo_granted 7 timing_default 4"

theorem dead_peer_noticed_by_both_witness:
  "\<exists>a as. select_loop (client_iteration timing_default demo_ctx) [demo_idle 5 False, demo_idle 900 True]
     \<lparr>sequence = 3, outstanding = Some (3, 800)\<rparr> = (Some a, as)"
  using dead_peer_noticed_by_both [where hb = "\<lparr>sequence = 3, outstanding = Some (3, 800)\<rparr>" and n = 3 and
      d = 800 and pos = "[]" and tm = timing_default and ctx = demo_ctx and
      cpos = "[demo_idle 5 False, demo_idle 900 True]"]
  by (simp add: demo_idle_def pong_in_def)

text \<open>
  C25. At most one ping is in flight, on either end. A turn sends PING only if none is unanswered, then
  with the next number (modulo \<open>2 ^ 64\<close>), as its only action and with a deadline \<open>heartbeat_timeout\<close>
  ahead. Over a whole session, however far it got, the PINGs sent are numbered 1, 2, 3 and so on, and
  for each of them but the last the matching PONG has arrived.
\<close>

theorem one_ping_in_flight:
  "pings_if_idle tm po hb (session_iteration tm sid po hb) \<and>
   pings_if_idle tm cpo hb (client_iteration tm ctx cpo hb) \<and>
   one_in_flight 0 pos (snd (select_loop (session_iteration tm sid) pos heartbeat_initial)) \<and>
   one_in_flight 0 cpos (snd (select_loop (client_iteration tm ctx) cpos heartbeat_initial))"
proof -
  have start: "hb_ok heartbeat_initial" "sequence heartbeat_initial = 0"
    by (simp_all add: hb_ok_def heartbeat_initial_def)
  then show ?thesis
    using server_heart.idle client_heart.idle
      server_heart.loop_pings [OF prod.collapse [symmetric] start(1), where tm = tm and sid = sid and pos = pos]
      client_heart.loop_pings [OF prod.collapse [symmetric] start(1), where tm = tm and ctx = ctx and pos = cpos]
    by (simp only: start(2) simp_thms)
qed

subsection \<open>The writer task\<close>

text \<open>
  C24. The writer task sends the queued frames in order, whole and each at most once, and nothing
  after the request to close: whatever write fails or stalls, the peer has received the frames before
  some point, and of the next one at most a prefix; if no write fails or stalls, it has received
  exactly the frames queued before the request to close.
\<close>

theorem writer_sends_in_order:
  "(\<exists>k n. outgoing (fst (writer_loop tok stalls ms c)) =
      outgoing c @ concat (map frame_encode (take k (frames_until_close ms))) @
      take n (concat (map frame_encode (take 1 (drop k (frames_until_close ms)))))) \<and>
   ((\<forall>f \<in> set (frames_until_close ms). wf_frame f) \<longrightarrow> write_fails c = [] \<longrightarrow> set stalls \<subseteq> {None} \<longrightarrow>
      outgoing (fst (writer_loop tok stalls ms c)) =
      outgoing c @ concat (map frame_encode (frames_until_close ms)))"
  using write_queue_prefix [of stalls ms c] write_queue_complete [of ms c stalls] wf_frame_small
  by (auto simp: writer_loop_def)

theorem writer_sends_in_order_witness:
  "outgoing (fst (writer_loop 3 [] [OutFrame (frame_empty GoodbyeAck), CloseAfterFlush, OutFrame (frame_empty Goodbye)]
     (demo_conn []))) = frame_encode (frame_empty GoodbyeAck)"
  using writer_sends_in_order [of 3 "[]" "[OutFrame (frame_empty GoodbyeAck), CloseAfterFlush,
      OutFrame (frame_empty Goodbye)]" "demo_conn []"]
  by (simp add: demo_conn_def wf_frame_def)

subsection \<open>Answering requests\<close>

lemma select_loop_action:
  "x \<in> set (snd (select_loop iter pos hb)) \<Longrightarrow> \<exists>po \<in> set pos. \<exists>hb'. x \<in> set (snd (iter po hb'))"
proof (induction pos arbitrary: hb)
  case (Cons po pos)
  obtain t as where it: "iter po hb = (t, as)" by fastforce
  show ?case
  proof (cases "x \<in> set as")
    case True
    then have "x \<in> set (snd (iter po hb))" using it by simp
    then show ?thesis by auto
  next
    case False
    then obtain hb' where "x \<in> set (snd (select_loop iter pos hb'))"
      using Cons.prems it by (cases t) (auto simp: case_prod_beta)
    then show ?thesis using Cons.IH by fastforce
  qed
qed simp

lemma client_iteration_spawn:
  assumes "SpawnOpen c \<in> set (snd (client_iteration tm ctx po hb))"
  shows "\<exists>f rid. po_incoming po = Some (Some (Inr f)) \<and> ty f = Open \<and> decode_request_id (payload f) = Inr rid \<and>
    po_permit po \<and> c = ctx rid"
  using assms
  by (auto simp: client_iteration_def client_goodbye_def ping_turn_def client_frame_def queue_if_def Let_def
      split: if_splits option.splits sum.splits app_error.splits msg_type.splits)

text \<open>
  Every data connection the client opens answers an OPEN of its session and belongs to it: it goes to
  the address of the server that holds the control connection, with the session's identifier, the
  configured key and target, and only when one of the permits was free.
\<close>

lemma opens_belong_to_session:
  assumes "SpawnOpen c \<in> set (snd (run_session config session tm w tok pos))"
  shows "\<exists>po \<in> set pos. \<exists>f rid. po_incoming po = Some (Some (Inr f)) \<and> ty f = Open \<and>
    decode_request_id (payload f) = Inr rid \<and> po_permit po \<and> c = open_context_for config session w tm tok rid"
proof -
  let ?iter = "client_iteration tm (open_context_for config session w tm tok)"
  have "SpawnOpen c \<in> set (snd (select_loop ?iter pos heartbeat_initial))"
    using assms by (auto simp: run_session_def split: prod.splits option.splits)
  from select_loop_action [OF this] show ?thesis using client_iteration_spawn by blast
qed

subsection \<open>The client over many attempts\<close>

lemma client_register_port:
  assumes "client_register hmac config i m p nd c = (Inr session, d)"
  shows "1024 \<le> cs_assigned_port session \<and> (p \<noteq> 0 \<longrightarrow> cs_assigned_port session = p)"
  using assms
  by (auto simp: client_register_def io_bind_Inr Let_def registered.dec_iff wf_registered_def split: if_splits)

lemma connect_and_register_port:
  assumes "fst (connect_and_register hmac config i m p tm env peer nd c) = Inr session"
  shows "1024 \<le> cs_assigned_port session \<and> (p \<noteq> 0 \<longrightarrow> cs_assigned_port session = p)"
proof -
  obtain d where "connect_and_register hmac config i m p tm env peer nd c = (Inr session, d)"
    using assms by (metis prod.collapse)
  then show ?thesis
    by (auto simp: connect_and_register_def io_bind_Inr io_or_else_Inr dest: client_register_port)
qed

text \<open>The port the client is bound to: the one it was assigned, or the one it was told to ask for.\<close>

definition settled :: "u16 \<Rightarrow> client_state \<Rightarrow> bool" where
  "settled p st = (1024 \<le> p \<and> cl_ever_registered st \<and> cl_last_assigned st = Some p)"

definition bound_to :: "u16 \<Rightarrow> client_state \<Rightarrow> bool" where
  "bound_to p st = (settled p st \<or> \<not> cl_ever_registered st \<and> cl_requested_port st = Some p \<and> p \<noteq> 0)"

definition port_line :: "u16 \<Rightarrow> string" where
  "port_line p = ''remote_port='' @ show_nat (unat p)"

lemma client_attempt_settles:
  "ar_stdout (client_attempt hmac config tm ae st) = [] \<and>
     ar_state (client_attempt hmac config tm ae st) = st \<or>
   (\<exists>p. ar_stdout (client_attempt hmac config tm ae st) = [port_line p] \<and>
     settled p (ar_state (client_attempt hmac config tm ae st)) \<and> (\<forall>q. bound_to q st \<longrightarrow> p = q))"
proof -
  obtain m p where mp: "attempt_mode st = (m, p)" by (cases "attempt_mode st")
  have asked: "p = q \<and> p \<noteq> 0" if "bound_to q st" for q
    using mp that by (auto simp: bound_to_def settled_def attempt_mode_def)
  show ?thesis
  proof (cases "fst (connect_and_register hmac config (cl_instance_id st) m p tm (ae_dial ae) (ae_peer ae)
      (ae_nonce ae) (ae_conn ae))")
    case (Inl f)
    then show ?thesis by (simp add: client_attempt_def mp ended_def)
  next
    case (Inr session)
    from connect_and_register_port [OF this]
    have "1024 \<le> cs_assigned_port session" "\<forall>q. bound_to q st \<longrightarrow> cs_assigned_port session = q"
      using asked by auto
    then show ?thesis
      using Inr by (auto simp: client_attempt_def mp ended_def settled_def port_line_def split: prod.splits)
  qed
qed

lemma client_loop_cases:
  assumes "client_loop hmac config tm (ro # ros) st = (r, st', out)"
  obtains (stopped) "st' = st" "out = []"
  | (last) "st' = ar_state (client_attempt hmac config tm (ro_env ro) st)"
      "out = ar_stdout (client_attempt hmac config tm (ro_env ro) st)"
  | (again) r' o' where "client_loop hmac config tm ros (ar_state (client_attempt hmac config tm (ro_env ro) st)) = (r', st', o')"
      "out = ar_stdout (client_attempt hmac config tm (ro_env ro) st) @ o'"
  using assms by (auto simp: Let_def split: if_splits option.splits attempt.splits prod.splits)

lemma client_loop_bound:
  assumes "bound_to p st" and "client_loop hmac config tm ros st = (r, st', out)"
  shows "bound_to p st' \<and> set out \<subseteq> {port_line p}"
  using assms
proof (induction ros arbitrary: st r st' out)
  case (Cons ro ros)
  have res: "bound_to p (ar_state (client_attempt hmac config tm (ro_env ro) st))"
    "set (ar_stdout (client_attempt hmac config tm (ro_env ro) st)) \<subseteq> {port_line p}"
    using client_attempt_settles [of hmac config tm "ro_env ro" st] Cons.prems(1) by (auto simp: bound_to_def)
  from Cons.prems(2) show ?case
    using res Cons.prems(1) Cons.IH [OF res(1)] by (cases rule: client_loop_cases) auto
qed simp

lemma client_loop_one_port:
  "client_loop hmac config tm ros st = (r, st', out) \<Longrightarrow> \<exists>p. set out \<subseteq> {port_line p}"
proof (induction ros arbitrary: st r st' out)
  case (Cons ro ros)
  let ?res = "client_attempt hmac config tm (ro_env ro) st"
  consider (none) "ar_stdout ?res = []" | (some) p where "ar_stdout ?res = [port_line p]" "settled p (ar_state ?res)"
    using client_attempt_settles [of hmac config tm "ro_env ro" st] by blast
  then show ?case
  proof cases
    case none
    from Cons.prems show ?thesis
    proof (cases rule: client_loop_cases)
      case (again r' o')
      then show ?thesis using Cons.IH none by simp
    qed (use none in auto)
  next
    case some
    from Cons.prems show ?thesis
    proof (cases rule: client_loop_cases)
      case (again r' o')
      then show ?thesis using client_loop_bound [OF _ again(1), of p] some by (intro exI [of _ p]) (simp add: bound_to_def)
    qed (use some in auto)
  qed
qed simp

text \<open>
  C22. The client announces one port for its whole life: however often it loses the server and
  reconnects, every line it prints names the same port, the one of its first registration, and that is
  the port it was configured to ask for if there is one.
\<close>

theorem client_announces_one_port:
  "\<exists>p :: u16. set (snd (client_run hmac config tm instance_draw ros)) \<subseteq> {''remote_port='' @ show_nat (unat p)} \<and>
     (\<forall>q. ec_remote_port config = Some q \<longrightarrow> q \<noteq> 0 \<longrightarrow> p = q)"
proof (cases "random instance_draw")
  case (Inl e)
  then show ?thesis by (intro exI [of _ "the (ec_remote_port config)"]) (simp add: client_run_def)
next
  case (Inr i)
  let ?st = "client_state_new config i"
  obtain r st out where loop: "client_loop hmac config tm ros ?st = (r, st, out)"
    by (cases "client_loop hmac config tm ros ?st")
  then have out: "snd (client_run hmac config tm instance_draw ros) = out" using Inr by (simp add: client_run_def)
  show ?thesis
  proof (cases "\<exists>q. ec_remote_port config = Some q \<and> q \<noteq> 0")
    case True
    then obtain q where q: "ec_remote_port config = Some q" "q \<noteq> 0" by blast
    then have "bound_to q ?st" by (simp add: bound_to_def client_state_new_def)
    from client_loop_bound [OF this loop] show ?thesis using q out by (auto simp: port_line_def)
  next
    case False
    then show ?thesis using client_loop_one_port [OF loop] out by (auto simp: port_line_def)
  qed
qed

definition demo_net :: "(io_error, socket_addr list) result \<Rightarrow> dial_env" where
  "demo_net found =
     \<lparr>di_clock = (\<lambda>_. 0), di_lookup = (\<lambda>_ _. Done found), di_connect = (\<lambda>_ _. Done (Inr 1)),
      di_nodelay = (\<lambda>_. Inr ())\<rparr>"

definition demo_up :: dial_env where
  "demo_up = demo_net (Inr [\<lparr>sa_ip = V4 0x7F000001, sa_port = 4000\<rparr>])"

definition demo_down :: dial_env where
  "demo_down = demo_net (Inl \<lparr>kind = OtherKind, io_text = ''unreachable''\<rparr>)"

definition demo_round :: "dial_env \<Rightarrow> bytes \<Rightarrow> round" where
  "demo_round env bs =
     \<lparr>ro_cancelled = False,
      ro_env = \<lparr>ae_quit = False, ae_elapsed = False, ae_dial = env,
                ae_peer = Inr \<lparr>sa_ip = V4 0x7F000001, sa_port = 4000\<rparr>, ae_nonce = Inr (replicate 32 5),
                ae_conn = demo_conn bs, ae_writer = 7, ae_session_cancel = 4, ae_polls = []\<rparr>,
      ro_cancelled_after = False, ro_cancelled_asleep = False\<rparr>"

lemma demo_dial_up: "dial demo_up ep (control_attempt timing_default) = Inr 1"
  by (simp add: dial_def demo_up_def demo_net_def timing_default_def from_secs_def net_remaining_def Let_def)

lemma demo_dial_down:
  "dial demo_down \<lparr>host = ''example.org'', port = 4000\<rparr> (control_attempt timing_default) =
   Inl (Runtime (''resolving '' @ endpoint_display \<lparr>host = ''example.org'', port = 4000\<rparr> @ '' failed: unreachable''))"
  by (simp add: dial_def demo_down_def demo_net_def timing_default_def from_secs_def net_remaining_def Let_def)

text \<open>The server grants the port that was asked for.\<close>

definition demo_grant :: bytes where
  "demo_grant =
     frame_encode (challenge_frame demo_hmac ''secret'' demo_hello (replicate 32 1) (replicate 16 2)) @
     frame_encode (registered_frame demo_hmac ''secret'' demo_hello (replicate 32 1) (replicate 16 2) 4555 256)"

theorem client_announces_one_port_witness:
  "set (snd (client_run demo_hmac demo_expose timing_default (Inr (replicate 16 2))
     [demo_round demo_up demo_grant])) \<subseteq> {''remote_port='' @ show_nat 4555}"
  using client_announces_one_port [of demo_hmac demo_expose timing_default "Inr (replicate 16 2)"
      "[demo_round demo_up demo_grant]"]
  by (simp add: demo_expose_def)

subsection \<open>What ends the client\<close>

text \<open>
  The errors that may end the process: a violation, a failed authentication, a refusal, and no entropy,
  that is, the error \<open>random\<close> makes of one of the failed draws \<open>ds\<close>.
\<close>

fun ends_client :: "draw list \<Rightarrow> app_error \<Rightarrow> bool" where
  "ends_client ds (Protocol _) = True"
| "ends_client ds Auth = True"
| "ends_client ds (Registration c) = (c \<noteq> ServerBusy)"
| "ends_client ds (Runtime m) = (\<exists>t. Inl t \<in> set ds \<and> m = ''operating-system entropy unavailable: '' @ t)"
| "ends_client ds _ = False"

lemma ends_client_mono: "ends_client ds e \<Longrightarrow> set ds \<subseteq> set ds' \<Longrightarrow> ends_client ds' e"
  by (cases e) auto

definition client_draws :: "draw \<Rightarrow> round list \<Rightarrow> draw list" where
  "client_draws instance_draw ros = instance_draw # map (\<lambda>ro. ae_nonce (ro_env ro)) ros"

definition frame_fault :: "app_error \<Rightarrow> bool" where
  "frame_fault e = ((\<exists>i. e = Io i) \<or> (\<exists>p. e = Protocol p))"

lemma read_frame_fault: "read_frame c = (Inl e, d) \<Longrightarrow> frame_fault e"
  by (auto simp: read_frame_def io_bind_Inl read_exact_err app_error_protocol_def frame_fault_def
      lift_protocol_def map_err_eq_Inl Let_def split: if_splits)

lemma write_frame_fault: "write_frame f c = (Inl e, d) \<Longrightarrow> frame_fault e"
  using write_all_Io
  by (auto simp: write_frame_def flush_def io_bind_Inl app_error_protocol_def frame_fault_def split: if_splits)

lemma transport_fatal:
  assumes "io_map_err transport m c = (Inl (Fatal e), d)" and "\<And>e' c' d'. m c' = (Inl e', d') \<Longrightarrow> frame_fault e'"
  shows "ends_client ds e"
proof -
  from assms(1) obtain e' where e': "m c = (Inl e', d)" "transport e' = Fatal e"
    by (auto simp: io_map_err_def map_err_eq_Inl split: prod.splits)
  from assms(2) [OF e'(1)] e'(2) show ?thesis by (auto simp: frame_fault_def)
qed

lemma classify_fatal: "classify c = Fatal e \<Longrightarrow> ends_client ds e"
  by (auto simp: classify_def is_fatal_iff split: if_splits)

lemma await_answer_fatal: "await_answer t c = (Inl (Fatal e), d) \<Longrightarrow> ends_client ds e"
  by (auto simp: await_answer_def io_bind_Inl map_err_eq_Inl dest: transport_fatal [OF _ read_frame_fault]
      classify_fatal split: if_splits)

lemma client_register_fatal:
  assumes "client_register hmac config i m p nd c = (Inl (Fatal e), d)"
  shows "ends_client [nd] e"
proof -
  have preamble: "write_preamble k c' = (Inl e', d') \<Longrightarrow> frame_fault e'" for k c' e' d'
    using write_all_Io by (auto simp: write_preamble_def frame_fault_def)
  show ?thesis
    using assms unfolding client_register_def
    by (auto simp: io_bind_Inl io_bind_Inr Let_def map_err_eq_Inl random_def app_error_protocol_def
        dest: transport_fatal [OF _ preamble] transport_fatal [OF _ write_frame_fault] await_answer_fatal
        split: if_splits)
qed

lemma client_frame_fatal:
  "client_frame ctx po f hb = (Break (AttemptFatal e), as) \<Longrightarrow> ends_client ds e"
  by (auto simp: client_frame_def malformed_def app_error_protocol_def
      split: msg_type.splits sum.splits if_splits)
    (metis attempt.distinct(5) attempt.inject(1) attempt_of.elims classify_fatal)

lemma client_iteration_fatal:
  "client_iteration tm ctx po hb = (Break (AttemptFatal e), as) \<Longrightarrow> ends_client ds e"
  by (auto simp: client_iteration_def client_goodbye_def ping_turn_def Let_def dest: client_frame_fatal
      split: if_splits option.splits sum.splits app_error.splits prod.splits)

lemma client_attempt_fatal:
  assumes "ar_attempt (client_attempt hmac config tm ae st) = Some (AttemptFatal e)"
  shows "ends_client [ae_nonce ae] e"
proof -
  obtain m p where mp: "attempt_mode st = (m, p)" by (cases "attempt_mode st")
  obtain r d where run: "connect_and_register hmac config (cl_instance_id st) m p tm (ae_dial ae) (ae_peer ae)
      (ae_nonce ae) (ae_conn ae) = (r, d)" by fastforce
  show ?thesis
  proof (cases r)
    case (Inl f)
    then have "f = Fatal e"
      using assms run mp by (cases f) (auto simp: client_attempt_def ended_def split: if_splits)
    then show ?thesis
      using run Inl by (auto simp: connect_and_register_def io_bind_Inl io_or_else_Inl map_err_eq_Inl dest: client_register_fatal)
  next
    case (Inr session)
    then obtain as where "run_session config session tm (ae_writer ae)
        (ae_session_cancel ae) (ae_polls ae) = (Some (AttemptFatal e), as)"
      using assms run mp by (auto simp: client_attempt_def ended_def split: if_splits prod.splits)
    then obtain ctx po hb as' where "client_iteration tm ctx po hb = (Break (AttemptFatal e), as')"
      unfolding run_session_def by (auto dest: select_loop_last split: option.splits prod.splits)
    then show ?thesis by (rule client_iteration_fatal)
  qed
qed

lemma client_loop_fatal:
  "client_loop hmac config tm ros st = (Some (Inl e), st', out) \<Longrightarrow> ends_client (client_draws d ros) e"
proof (induction ros arbitrary: st st' out)
  case (Cons ro ros)
  let ?res = "client_attempt hmac config tm (ro_env ro) st"
  have "ar_attempt ?res = Some (AttemptFatal e) \<or>
      (\<exists>st1 out1. client_loop hmac config tm ros st1 = (Some (Inl e), st', out1))"
    using Cons.prems by (auto simp: Let_def split: if_splits option.splits attempt.splits prod.splits)
  then have "ends_client [ae_nonce (ro_env ro)] e \<or> ends_client (client_draws d ros) e"
    using client_attempt_fatal Cons.IH by blast
  then show ?case by (auto simp: client_draws_def elim: ends_client_mono)
qed simp

lemma client_run_ends:
  "fst (client_run hmac config tm instance_draw ros) = Some (Inl e) \<Longrightarrow> ends_client (client_draws instance_draw ros) e"
  using client_loop_fatal
  by (auto simp: client_run_def random_def map_err_eq_Inl client_draws_def split: sum.splits prod.splits)


text \<open>The network is down once, then the server refuses the registration.\<close>

lemma demo_refused:
  "fst (client_run demo_hmac demo_expose timing_default (Inr (replicate 16 2))
     [demo_round demo_down [],
      demo_round demo_up (frame_encode (frame_new Error (encode_error AuthFailed)))]) =
   Some (Inl (Registration AuthFailed))"
proof -
  let ?f = "frame_new Error (encode_error AuthFailed)"
  let ?h = "client_hello (replicate 16 2) (replicate 32 5) Fresh 4555"
  have wf: "wf_frame ?f" by (simp add: error_msg.enc_len)
  have small: "length (payload (hello_frame ?h)) \<le> MAX_PAYLOAD"
    using wf_frame_small [OF hello_frame_wf] demo_hello_wf by (simp only: demo_hello_client)
  let ?c = "demo_conn (frame_encode ?f)"
  let ?c1 = "?c\<lparr>outgoing := encode_preamble Control @ frame_encode (hello_frame ?h)\<rparr>"
  have "read_frame ?c1 = (Inr ?f, ?c1\<lparr>incoming := []\<rparr>)"
    by (rule read_frame_encode [OF wf]) (simp add: demo_conn_def)
  then have "await_answer ControlChallenge ?c1 = (Inl (Fatal (Registration AuthFailed)), ?c1\<lparr>incoming := []\<rparr>)"
    by (simp add: await_answer_def io_bind_eq io_map_err_eq error_msg.dec_enc classify_def is_fatal_iff)
  moreover have "io_map_err transport (write_preamble Control) ?c =
      (Inr (), ?c\<lparr>outgoing := encode_preamble Control\<rparr>)"
    by (simp add: io_map_err_Inr demo_conn_def)
  moreover have "io_map_err transport (write_frame (hello_frame ?h)) (?c\<lparr>outgoing := encode_preamble Control\<rparr>) =
      (Inr (), ?c1)"
    using small by (simp add: io_map_err_Inr demo_conn_def)
  ultimately have refused: "client_register demo_hmac demo_expose (replicate 16 2) Fresh 4555
      (Inr (replicate 32 5)) ?c = (Inl (Fatal (Registration AuthFailed)), ?c1\<lparr>incoming := []\<rparr>)"
    by (simp add: client_register_def io_bind_eq Let_def hello_frame_def client_hello_def)
  let ?st = "client_state_new demo_expose (replicate 16 2)"
  have mode: "attempt_mode ?st = (Fresh, 4555)" "cl_instance_id ?st = replicate 16 2"
    by (simp_all add: attempt_mode_def client_state_new_def demo_expose_def)
  have down: "client_attempt demo_hmac demo_expose timing_default
      (ro_env (demo_round demo_down [])) ?st =
      ended (AttemptRetry (''resolving '' @ endpoint_display (ec_server demo_expose) @ '' failed: unreachable'')) ?st"
    using demo_dial_down by (simp add: client_attempt_def mode demo_round_def connect_and_register_def demo_expose_def)
  have "client_attempt demo_hmac demo_expose timing_default (ro_env (demo_round demo_up (frame_encode ?f))) ?st =
      ended (AttemptFatal (Registration AuthFailed)) ?st"
    using refused
    by (simp add: client_attempt_def mode demo_round_def connect_and_register_def io_bind_eq io_or_else_def
        demo_dial_up)
  then show ?thesis
    by (simp add: client_run_def down ended_def Let_def) (simp add: demo_round_def)
qed


end
