(* ===== verification/Client_Data.thy ===== *)
theory Client_Data
  imports Server_Control Net_Addr
begin

text \<open>
  \<open>src/client/data.rs\<close>: answering one OPEN. The client dials its local target and the server within one
  time budget, authenticates the data connection, and forwards; every failure is reported with its
  reason. The clock readings, what the network answers to each dialling and the timers are arguments;
  \<open>oe_socket\<close> is the socket a stream number stands for.
\<close>

datatype open_error = Cancelled | Reported open_failure string

definition remaining :: "instant \<Rightarrow> instant \<Rightarrow> (open_error, duration) result" where
  "remaining t deadline =
     (if t \<ge> deadline then Inl (Reported SetupTimeout ''setup budget expired'')
      else Inr (deadline - t))"

subsection \<open>Data handshake\<close>

text \<open>
  Read an answer: an ERROR of the server is a refusal, anything else must be the frame expected. After
  the hello a refusal also shuts the socket down (\<open>close\<close>).
\<close>

definition data_answer :: "bool \<Rightarrow> msg_type \<Rightarrow> frame io" where
  "data_answer close t =
     io_bind read_frame (\<lambda>frame.
     io_bind (io_lift (lift_protocol (require_kind frame Data))) (\<lambda>_.
     if ty frame = Error then
       io_bind (io_lift (lift_protocol (decode_error (payload frame)))) (\<lambda>c.
       io_bind (if close then shutdown else io_return ()) (\<lambda>_.
       io_fail (Runtime (''server refused: '' @ error_code_message c))))
     else
       io_bind (io_lift (lift_protocol (require_type frame t))) (\<lambda>_.
       io_return frame)))"

definition client_data_handshake :: "hmac \<Rightarrow> open_context \<Rightarrow> draw \<Rightarrow> unit io" where
  "client_data_handshake hmac ctx nonce_draw =
     io_bind (write_preamble Data) (\<lambda>_.
     io_bind (io_lift (random nonce_draw)) (\<lambda>client_nonce.
     let hello = \<lparr>dh_session_id = oc_session_id ctx, dh_request_id = oc_request_id ctx,
                  dh_client_nonce = client_nonce\<rparr> in
     io_bind (write_frame (frame_new DataHello (data_hello_encode hello))) (\<lambda>_.
     io_bind (data_answer True DataChallenge) (\<lambda>frame.
     io_bind (io_lift (lift_protocol (data_challenge_decode (payload frame)))) (\<lambda>challenge.
     let transcript = data_transcript hello (dc_server_nonce challenge) in
     if \<not> verify hmac (bytes_of (oc_key ctx)) LABEL_DATA_SERVER transcript (dc_server_mac challenge)
     then io_fail Auth
     else
     io_bind (write_frame (frame_new DataProof
       (mac hmac (bytes_of (oc_key ctx)) LABEL_DATA_CLIENT transcript))) (\<lambda>_.
     io_bind (data_answer False DataReady) (\<lambda>_.
     io_return ())))))))"

subsection \<open>Setup and report\<close>

record open_env =
  oe_cancelled :: bool
  oe_start :: instant
  oe_clock :: "instant \<times> instant \<times> instant"
  oe_target_net :: dial_env
  oe_data_net :: dial_env
  oe_socket :: "nat \<Rightarrow> conn"
  oe_elapsed :: bool
  oe_nonce :: draw

text \<open>\<open>oe_clock\<close> holds the readings of the three calls of \<open>remaining\<close>.\<close>

definition open_setup ::
  "hmac \<Rightarrow> open_context \<Rightarrow> open_env \<Rightarrow> instant \<Rightarrow> (open_error, nat \<times> conn) result" where
  "open_setup hmac ctx oe deadline =
     and_then (remaining (fst (oe_clock oe)) deadline) (\<lambda>first.
     let target_budget = min (target_connect (oc_timing ctx)) first in
     and_then (remaining (fst (snd (oe_clock oe))) deadline) (\<lambda>data_budget.
     let target = dial (oe_target_net oe) (oc_target ctx) target_budget;
         data = connect_addr (oe_data_net oe) (oc_server_addr ctx) data_budget in
     case target of
       Inl e \<Rightarrow> Inl (Reported TargetConnect
         (''local target '' @ endpoint_display (oc_target ctx) @ '' unavailable: '' @ app_error_display e))
     | Inr target \<Rightarrow>
         (case data of
            Inl e \<Rightarrow> Inl (Reported DataAuth (''data connection failed: '' @ app_error_display e))
          | Inr stream \<Rightarrow>
              and_then (remaining (snd (snd (oe_clock oe))) deadline) (\<lambda>budget.
              if oe_elapsed oe then Inl (Reported SetupTimeout ''data handshake timed out'')
              else case client_data_handshake hmac ctx (oe_nonce oe) (oe_socket oe stream) of
                  (Inr _, d) \<Rightarrow> Inr (target, d)
                | (Inl e, d) \<Rightarrow> Inl (Reported DataAuth (''data handshake failed: '' @ app_error_display e))))))"

text \<open>The sockets handed to \<open>forward\<close>, or nothing.\<close>

datatype open_result = Forwarded nat conn | Dropped

text \<open>What is offered to the writer queue of the session in the end.\<close>

definition handle_open ::
  "hmac \<Rightarrow> open_context \<Rightarrow> open_env \<Rightarrow> open_result \<times> (writer \<times> outbound) list" where
  "handle_open hmac ctx oe =
     (let deadline = oe_start oe + request_wait (oc_timing ctx);
          result = (if oe_cancelled oe then Inl Cancelled else open_setup hmac ctx oe deadline)
      in case result of
           Inr (target, d) \<Rightarrow> (Forwarded target d, [])
         | Inl Cancelled \<Rightarrow> (Dropped, [])
         | Inl (Reported reason message) \<Rightarrow>
             (Dropped, [(oc_writer ctx, outbound_frame OpenFailed
                (open_failed_encode \<lparr>of_request_id = oc_request_id ctx, of_reason = reason\<rparr>))]))"

end
