(* ===== verification/State_Machines_Lib.thy ===== *)
theory State_Machines_Lib
  imports Tunlet_Prelude
begin

text \<open>
  Runs of deterministic machines that take one input at a time. \<open>step i s = None\<close> means that the
  machine has no next state (it stopped, panicked or does not return). \<open>reach step ok s t\<close> says that
  \<open>t\<close> is reached from \<open>s\<close> by inputs that satisfy \<open>ok\<close> in the state in which they arrive. The
  locale \<open>invariant_machine\<close> is the contract of a machine whose steps keep an invariant; every
  stateful component interprets it.
\<close>

inductive reach :: "('i \<Rightarrow> 's \<Rightarrow> 's option) \<Rightarrow> ('i \<Rightarrow> 's \<Rightarrow> bool) \<Rightarrow> 's \<Rightarrow> 's \<Rightarrow> bool"
  for step ok where
  reach_refl: "reach step ok s s"
| reach_step: "reach step ok s t \<Longrightarrow> ok i t \<Longrightarrow> step i t = Some u \<Longrightarrow> reach step ok s u"

inductive_cases reach_elim: "reach step ok s t"

lemma reach_trans: "reach step ok t u \<Longrightarrow> reach step ok s t \<Longrightarrow> reach step ok s u"
  by (induction rule: reach.induct) (auto intro: reach_step)

lemma reach_one: "ok i s \<Longrightarrow> step i s = Some t \<Longrightarrow> reach step ok s t"
  by (rule reach_step [OF reach_refl])

fun steps :: "('i \<Rightarrow> 's \<Rightarrow> 's option) \<Rightarrow> 'i list \<Rightarrow> 's \<Rightarrow> 's option" where
  "steps step [] s = Some s"
| "steps step (i # is) s = (case step i s of None \<Rightarrow> None | Some t \<Rightarrow> steps step is t)"

fun all_ok :: "('i \<Rightarrow> 's \<Rightarrow> 's option) \<Rightarrow> ('i \<Rightarrow> 's \<Rightarrow> bool) \<Rightarrow> 'i list \<Rightarrow> 's \<Rightarrow> bool" where
  "all_ok step ok [] s = True"
| "all_ok step ok (i # is) s =
     (ok i s \<and> (case step i s of None \<Rightarrow> True | Some t \<Rightarrow> all_ok step ok is t))"

lemma steps_reach: "all_ok step ok is s \<Longrightarrow> steps step is s = Some t \<Longrightarrow> reach step ok s t"
proof (induction "is" arbitrary: s)
  case Nil
  then show ?case by (simp add: reach_refl)
next
  case (Cons i "is")
  then obtain u where u: "ok i s" "step i s = Some u" "all_ok step ok is u" "steps step is u = Some t"
    by (auto split: option.splits)
  then have "reach step ok u t" by (intro Cons.IH)
  then show ?case using u(1,2) by (blast intro: reach_trans reach_one)
qed

lemma steps_append:
  "steps step (is @ js) s = (case steps step is s of None \<Rightarrow> None | Some t \<Rightarrow> steps step js t)"
  by (induction "is" arbitrary: s) (auto split: option.splits)

locale invariant_machine =
  fixes step :: "'i \<Rightarrow> 's \<Rightarrow> 's option"
    and ok :: "'i \<Rightarrow> 's \<Rightarrow> bool"
    and inv :: "'s \<Rightarrow> bool"
  assumes step_inv: "inv s \<Longrightarrow> ok i s \<Longrightarrow> step i s = Some t \<Longrightarrow> inv t"
begin

lemma reach_inv: "reach step ok s t \<Longrightarrow> inv s \<Longrightarrow> inv t"
  by (induction rule: reach.induct) (auto intro: step_inv)

lemma steps_inv: "all_ok step ok is s \<Longrightarrow> steps step is s = Some t \<Longrightarrow> inv s \<Longrightarrow> inv t"
  by (rule reach_inv [OF steps_reach])

end

text \<open>A machine whose steps also never decrease some quantity.\<close>

locale monotone_machine = invariant_machine +
  fixes quantity :: "'s \<Rightarrow> 'q::preorder"
  assumes step_mono: "inv s \<Longrightarrow> ok i s \<Longrightarrow> step i s = Some t \<Longrightarrow> quantity s \<le> quantity t"
begin

lemma reach_mono: "reach step ok s t \<Longrightarrow> inv s \<Longrightarrow> quantity s \<le> quantity t"
proof (induction rule: reach.induct)
  case (reach_step s t i u)
  then have "inv t" by (blast intro: reach_inv)
  then have "quantity t \<le> quantity u" using reach_step.hyps by (intro step_mono)
  with reach_step show ?case by (blast intro: order_trans)
qed simp

end

end
