(* ===== verification/Data_Props.thy ===== *)
theory Data_Props
  imports Server_Run Client_Data Control_Props State_Machines_Lib
begin

text \<open>
  The data path: only a peer that knows the key and names a waiting request claims it, honest sides
  complete the handshake and end with DATA-READY, failures are reported with the reason the code gives,
  and every public connection reports its end once.
\<close>

subsection \<open>Frames of the data handshake\<close>

definition data_hello_frame :: "data_hello \<Rightarrow> frame" where
  "data_hello_frame h = frame_new DataHello (data_hello_encode h)"

definition data_challenge_of :: "hmac \<Rightarrow> string \<Rightarrow> data_hello \<Rightarrow> nonce \<Rightarrow> data_challenge" where
  "data_challenge_of hmac key h n =
     \<lparr>dc_server_nonce = n, dc_server_mac = mac hmac (bytes_of key) LABEL_DATA_SERVER (data_transcript h n)\<rparr>"

definition data_challenge_frame :: "hmac \<Rightarrow> string \<Rightarrow> data_hello \<Rightarrow> nonce \<Rightarrow> frame" where
  "data_challenge_frame hmac key h n =
     frame_new DataChallenge (data_challenge_encode (data_challenge_of hmac key h n))"

definition data_proof_frame :: "hmac \<Rightarrow> string \<Rightarrow> data_hello \<Rightarrow> nonce \<Rightarrow> frame" where
  "data_proof_frame hmac key h n =
     frame_new DataProof (mac hmac (bytes_of key) LABEL_DATA_CLIENT (data_transcript h n))"

lemma data_frames_wf [simp]:
  "wf_data_hello h \<Longrightarrow> wf_frame (data_hello_frame h)"
  "hmac_len hmac \<Longrightarrow> length n = 32 \<Longrightarrow> wf_frame (data_challenge_frame hmac key h n)"
  "hmac_len hmac \<Longrightarrow> wf_frame (data_proof_frame hmac key h n)"
  "wf_frame (frame_empty DataReady)"
  by (simp_all add: data_hello_frame_def data_hello.enc_len data_challenge_frame_def data_challenge.enc_len
      data_challenge_of_def wf_data_challenge_def data_proof_frame_def wf_frame_def [of "frame_empty _"])

lemma is_data_handshake [simp]:
  "is_data DataHello" "is_data DataChallenge" "is_data DataProof" "is_data DataReady"
  by (simp_all add: is_data_def)

lemma is_frame_iff: "is_frame Data t f \<longleftrightarrow> is_data (ty f) \<and> ty f = t"
  by (auto simp: is_frame_def is_ok_def require_kind_def require_type_def Let_def)

subsection \<open>Claiming a request\<close>

definition claims :: "command list \<Rightarrow> command list" where
  "claims cmds = filter (\<lambda>c. case c of CmdClaimData _ _ _ \<Rightarrow> True | _ \<Rightarrow> False) cmds"

lemma data_claim_cmds: "snd (data_claim ask socket h c) = [CmdClaimData (dh_session_id h) (dh_request_id h) socket]"
  by (simp add: data_claim_def Let_def)

lemma data_prove_claims:
  assumes "claims (snd (data_prove hmac key ask nd socket h c)) \<noteq> []"
    and "write_fails c = []" and "wf_draw 32 nd" and "hmac_len hmac"
  shows "\<exists>n rest. nd = Inr n \<and> incoming c = frame_encode (data_proof_frame hmac key h n) @ rest \<and>
    snd (data_prove hmac key ask nd socket h c) = [CmdClaimData (dh_session_id h) (dh_request_id h) socket]"
proof -
  obtain n where n: "nd = Inr n" using assms(1) by (cases nd) (auto simp: data_prove_def claims_def)
  then have "length n = 32" using assms(3) by simp
  let ?f = "data_challenge_frame hmac key h n" and ?d = "c\<lparr>outgoing := outgoing c @ frame_encode (data_challenge_frame hmac key h n)\<rparr>"
  have w: "write_frame ?f c = (Inr (), ?d)"
    using assms(2,4) \<open>length n = 32\<close> wf_frame_small [of ?f] by simp
  note step = assms(1) [unfolded data_prove_def n Let_def, folded data_challenge_of_def data_challenge_frame_def]
  obtain g d where g: "read_frame ?d = (Inr g, d)" "is_frame Data DataProof g"
    "verify hmac (bytes_of key) LABEL_DATA_CLIENT (data_transcript h n) (payload g)"
    using step w by (auto simp: claims_def split: prod.splits sum.splits if_splits)
  then have "g = data_proof_frame hmac key h n"
    by (simp add: is_frame_iff verify_def mac_def data_proof_frame_def frame_new_collapse)
  then have "incoming c = frame_encode (data_proof_frame hmac key h n) @ incoming d"
    using g(1) by (simp add: read_frame_iff)
  moreover have "snd (data_prove hmac key ask nd socket h c) = [CmdClaimData (dh_session_id h) (dh_request_id h) socket]"
    using w g unfolding data_prove_def n Let_def
    by (simp add: data_claim_cmds data_challenge_of_def [symmetric] data_challenge_frame_def [symmetric])
  ultimately show ?thesis using n by blast
qed

text \<open>
  C7. Only a peer that knows the key claims a request: if the handler of a data connection sends the
  registry a claim at all (on a socket whose writes succeed), then the peer's first frame was a legal
  hello naming that session and request, the registry said that the request waits, and the peer's second
  frame was the code under the shared key over that hello and the server's fresh nonce. A bad proof never
  consumes a request, and there is at most one claim per connection.
\<close>

theorem claim_needs_proof:
  assumes cl: "claims (snd (data_handshake hmac key ask nd socket c)) \<noteq> []"
    and wr: "write_fails c = []" and dr: "wf_draw 32 nd" and len: "hmac_len hmac"
  shows "\<exists>h n rest. wf_data_hello h \<and> nd = Inr n \<and>
    incoming c = frame_encode (data_hello_frame h) @ frame_encode (data_proof_frame hmac key h n) @ rest \<and>
    ask (CmdPeekData (dh_session_id h) (dh_request_id h)) = Some (PeekReply True) \<and>
    snd (data_handshake hmac key ask nd socket c) =
      [CmdPeekData (dh_session_id h) (dh_request_id h),
       CmdClaimData (dh_session_id h) (dh_request_id h) socket]"
proof -
  from cl obtain f d h where f: "read_frame c = (Inr f, d)" "is_frame Data DataHello f"
    "data_hello_decode (payload f) = Inr h" and pk: "handle_peek (ask (CmdPeekData (dh_session_id h) (dh_request_id h)))"
    by (auto simp: data_handshake_def claims_def Let_def split: prod.splits sum.splits if_splits)
  let ?peek = "CmdPeekData (dh_session_id h) (dh_request_id h)"
  have run: "snd (data_handshake hmac key ask nd socket c) = ?peek # snd (data_prove hmac key ask nd socket h d)"
    using f pk by (simp add: data_handshake_def Let_def case_prod_beta)
  have h: "wf_data_hello h" "f = data_hello_frame h"
    using f(2,3) by (auto simp: data_hello.dec_iff is_frame_iff data_hello_frame_def intro: frame_new_collapse)
  have d: "incoming c = frame_encode f @ incoming d" "d = c\<lparr>incoming := incoming d\<rparr>"
    using f(1) by (simp_all add: read_frame_iff)
  have "claims (snd (data_prove hmac key ask nd socket h d)) \<noteq> []" using cl run by (simp add: claims_def)
  moreover have "write_fails d = []" using wr d(2) by (cases d) simp
  ultimately obtain n rest where "nd = Inr n" "incoming d = frame_encode (data_proof_frame hmac key h n) @ rest"
    "snd (data_prove hmac key ask nd socket h d) = [CmdClaimData (dh_session_id h) (dh_request_id h) socket]"
    using data_prove_claims dr len by blast
  moreover have "ask ?peek = Some (PeekReply True)"
    using pk by (auto elim: handle_peek.elims)
  ultimately show ?thesis using run h d(1) by auto
qed

subsection \<open>Honest sides\<close>

lemma data_handshake_ok:
  assumes h: "wf_data_hello h" and len: "hmac_len hmac" "length n = 32" and wr: "write_fails c = []"
    and inc: "incoming c = frame_encode (data_hello_frame h) @ frame_encode (data_proof_frame hmac key h n)"
    and pk: "ask (CmdPeekData (dh_session_id h) (dh_request_id h)) = Some (PeekReply True)"
    and cl: "ask (CmdClaimData (dh_session_id h) (dh_request_id h) socket) = Some (ClaimReply Delivered)"
  shows "data_handshake hmac key ask (Inr n) socket c =
    ((Inr (), c\<lparr>incoming := [], outgoing := outgoing c @ frame_encode (data_challenge_frame hmac key h n)\<rparr>),
     [CmdPeekData (dh_session_id h) (dh_request_id h), CmdClaimData (dh_session_id h) (dh_request_id h) socket])"
proof -
  let ?d = "c\<lparr>incoming := frame_encode (data_proof_frame hmac key h n)\<rparr>"
  let ?d1 = "?d\<lparr>outgoing := outgoing c @ frame_encode (data_challenge_frame hmac key h n)\<rparr>"
  have r1: "read_frame c = (Inr (data_hello_frame h), ?d)" using h inc by (intro read_frame_encode) simp_all
  have w: "write_frame (data_challenge_frame hmac key h n) ?d = (Inr (), ?d1)"
    using wr len wf_frame_small [of "data_challenge_frame hmac key h n"] by simp
  have r2: "read_frame ?d1 = (Inr (data_proof_frame hmac key h n), ?d1\<lparr>incoming := []\<rparr>)"
    using len by (intro read_frame_encode) simp_all
  have f1: "is_frame Data DataHello (data_hello_frame h)" "data_hello_decode (payload (data_hello_frame h)) = Inr h"
    using h by (simp_all add: is_frame_iff data_hello_frame_def data_hello.dec_enc)
  have f2: "is_frame Data DataProof (data_proof_frame hmac key h n)"
    "verify hmac (bytes_of key) LABEL_DATA_CLIENT (data_transcript h n) (payload (data_proof_frame hmac key h n))"
    by (simp_all add: is_frame_iff data_proof_frame_def)
  have "data_prove hmac key ask (Inr n) socket h ?d = ((Inr (), ?d1\<lparr>incoming := []\<rparr>),
      [CmdClaimData (dh_session_id h) (dh_request_id h) socket])"
    unfolding data_prove_def using w r2 f2 cl
    by (simp add: Let_def data_claim_def data_challenge_of_def [symmetric] data_challenge_frame_def [symmetric])
  then show ?thesis
    unfolding data_handshake_def using r1 f1 pk by (simp add: Let_def)
qed

lemma data_answer_encode:
  assumes "wf_frame f" and "incoming c = frame_encode f @ rest" and "is_data (ty f)" and "ty f \<noteq> Error"
  shows "data_answer close (ty f) c = (Inr f, c\<lparr>incoming := rest\<rparr>)"
  using read_frame_encode [OF assms(1,2)] assms(3,4)
  by (simp add: data_answer_def io_bind_eq require_kind_def require_type_def)

definition context_hello :: "open_context \<Rightarrow> nonce \<Rightarrow> data_hello" where
  "context_hello ctx cn =
     \<lparr>dh_session_id = oc_session_id ctx, dh_request_id = oc_request_id ctx, dh_client_nonce = cn\<rparr>"

lemma client_data_handshake_ok:
  fixes ctx cn
  defines "h \<equiv> context_hello ctx cn"
  assumes h: "wf_data_hello h" and len: "hmac_len hmac" "length n = 32" and wr: "write_fails c = []"
    and inc: "incoming c = frame_encode (data_challenge_frame hmac (oc_key ctx) h n) @
      frame_encode (frame_empty DataReady) @ rest"
  shows "client_data_handshake hmac ctx (Inr cn) c =
    (Inr (), c\<lparr>incoming := rest, outgoing := outgoing c @ encode_preamble Data @
       frame_encode (data_hello_frame h) @ frame_encode (data_proof_frame hmac (oc_key ctx) h n)\<rparr>)"
proof -
  let ?key = "oc_key ctx"
  let ?c0 = "c\<lparr>outgoing := outgoing c @ encode_preamble Data\<rparr>"
  let ?c1 = "?c0\<lparr>outgoing := outgoing ?c0 @ frame_encode (data_hello_frame h)\<rparr>"
  let ?c2 = "?c1\<lparr>incoming := frame_encode (frame_empty DataReady) @ rest\<rparr>"
  let ?c3 = "?c2\<lparr>outgoing := outgoing ?c2 @ frame_encode (data_proof_frame hmac ?key h n)\<rparr>"
  have w0: "write_preamble Data c = (Inr (), ?c0)" using wr by simp
  have w1: "write_frame (data_hello_frame h) ?c0 = (Inr (), ?c1)"
    using wr h wf_frame_small [of "data_hello_frame h"] by simp
  have r1: "data_answer True DataChallenge ?c1 = (Inr (data_challenge_frame hmac ?key h n), ?c2)"
    using data_answer_encode [OF data_frames_wf(2) [OF len], of ?c1] inc
    by (simp add: data_challenge_frame_def)
  have w2: "write_frame (data_proof_frame hmac ?key h n) ?c2 = (Inr (), ?c3)"
    using wr len wf_frame_small [of "data_proof_frame hmac ?key h n"] by simp
  have r2: "data_answer False DataReady ?c3 = (Inr (frame_empty DataReady), ?c3\<lparr>incoming := rest\<rparr>)"
    using data_answer_encode [of "frame_empty DataReady" ?c3] by simp
  have dec: "data_challenge_decode (payload (data_challenge_frame hmac ?key h n)) = Inr (data_challenge_of hmac ?key h n)"
    using len by (simp add: data_challenge_frame_def data_challenge.dec_enc wf_data_challenge_def data_challenge_of_def)
  show ?thesis
    unfolding client_data_handshake_def
    using w0 w1 r1 w2 r2 dec
    by (simp add: io_bind_eq Let_def h_def context_hello_def data_challenge_of_def
        data_hello_frame_def [symmetric] data_proof_frame_def [symmetric])
qed

definition demo_context :: open_context where
  "demo_context =
     \<lparr>oc_request_id = replicate 16 0, oc_session_id = replicate 16 1,
      oc_server_addr = \<lparr>sa_ip = V4 0x7F000001, sa_port = 4000\<rparr>,
      oc_target = \<lparr>host = ''localhost'', port = 80\<rparr>, oc_key = ''secret'', oc_writer = 7,
      oc_timing = timing_default, oc_cancel = 4\<rparr>"

definition demo_ask :: "command \<Rightarrow> reply option" where
  "demo_ask c = (case c of CmdPeekData _ _ \<Rightarrow> Some (PeekReply True) | _ \<Rightarrow> Some (ClaimReply Delivered))"

lemma demo_context_wf: "wf_data_hello (context_hello demo_context (replicate 32 5))"
  by (simp add: wf_data_hello_def context_hello_def demo_context_def)

theorem claim_needs_proof_witness:
  "\<exists>h :: data_hello. snd (data_handshake demo_hmac ''secret'' demo_ask (Inr (replicate 32 1)) 43
      (demo_conn (frame_encode (data_hello_frame (context_hello demo_context (replicate 32 5))) @
        frame_encode (data_proof_frame demo_hmac ''secret'' (context_hello demo_context (replicate 32 5)) (replicate 32 1))))) =
    [CmdPeekData (dh_session_id h) (dh_request_id h), CmdClaimData (dh_session_id h) (dh_request_id h) 43]"
proof -
  let ?h = "context_hello demo_context (replicate 32 5)"
  let ?c = "demo_conn (frame_encode (data_hello_frame ?h) @
        frame_encode (data_proof_frame demo_hmac ''secret'' ?h (replicate 32 1)))"
  have io: "write_fails ?c = []" by (simp add: demo_conn_def)
  have "snd (data_handshake demo_hmac ''secret'' demo_ask (Inr (replicate 32 1)) 43 ?c) =
      [CmdPeekData (dh_session_id ?h) (dh_request_id ?h), CmdClaimData (dh_session_id ?h) (dh_request_id ?h) 43]"
    by (subst data_handshake_ok [OF demo_context_wf]) (simp_all add: demo_conn_def demo_ask_def)
  then have "claims (snd (data_handshake demo_hmac ''secret'' demo_ask (Inr (replicate 32 1)) 43 ?c)) \<noteq> []"
    by (simp add: claims_def)
  from claim_needs_proof [OF this io _ demo_hmac_len] show ?thesis
    by auto
qed

text \<open>
  Honest sides complete the data handshake: when the registry finds the request waiting and delivers the
  socket, an honest server and an honest client complete the data handshake on each other's bytes; the
  server hands over its socket after its challenge, the public connection's task adds DATA-READY to it
  and starts forwarding, and the client forwards with whatever follows DATA-READY still unread.
\<close>

lemma data_path_completes:
  assumes len: "hmac_len hmac" and h: "wf_data_hello (context_hello ctx cn)" and n: "length n = 32"
    and pk: "ask (CmdPeekData (oc_session_id ctx) (oc_request_id ctx)) = Some (PeekReply True)"
    and cl: "ask (CmdClaimData (oc_session_id ctx) (oc_request_id ctx) socket) = Some (ClaimReply Delivered)"
    and io: "write_fails cc = []" "write_fails sc = []" "outgoing cc = []" "outgoing sc = []"
  shows "\<exists>to_server sc' sc''.
    data_handshake hmac (oc_key ctx) ask (Inr n) socket (sc\<lparr>incoming := to_server\<rparr>) =
      ((Inr (), sc'), [CmdPeekData (oc_session_id ctx) (oc_request_id ctx),
                       CmdClaimData (oc_session_id ctx) (oc_request_id ctx) socket]) \<and>
    serve_public (oc_session_id ctx) (oc_request_id ctx) False False (Some sc') False False sent =
      (Some sc'', [ForwardBoth, Finished (CmdRequestFinished (oc_session_id ctx) (oc_request_id ctx))]) \<and>
    client_data_handshake hmac ctx (Inr cn) (cc\<lparr>incoming := outgoing sc'' @ application\<rparr>) =
      (Inr (), cc\<lparr>incoming := application, outgoing := encode_preamble Data @ to_server\<rparr>)"
proof -
  let ?h = "context_hello ctx cn" and ?key = "oc_key ctx"
  let ?to = "frame_encode (data_hello_frame ?h) @ frame_encode (data_proof_frame hmac ?key ?h n)"
  let ?sc1 = "sc\<lparr>incoming := [], outgoing := frame_encode (data_challenge_frame hmac ?key ?h n)\<rparr>"
  let ?sc2 = "?sc1\<lparr>outgoing := outgoing ?sc1 @ frame_encode (frame_empty DataReady)\<rparr>"
  have ids: "dh_session_id ?h = oc_session_id ctx" "dh_request_id ?h = oc_request_id ctx"
    by (simp_all add: context_hello_def)
  have "data_handshake hmac ?key ask (Inr n) socket (sc\<lparr>incoming := ?to\<rparr>) =
      ((Inr (), ?sc1), [CmdPeekData (oc_session_id ctx) (oc_request_id ctx),
                       CmdClaimData (oc_session_id ctx) (oc_request_id ctx) socket])"
    using data_handshake_ok [OF h len n, of "sc\<lparr>incoming := ?to\<rparr>" ?key ask socket] pk cl io ids by simp
  moreover have "serve_public (oc_session_id ctx) (oc_request_id ctx) False False (Some ?sc1) False False sent =
      (Some ?sc2, [ForwardBoth, Finished (CmdRequestFinished (oc_session_id ctx) (oc_request_id ctx))])"
    using io by (simp add: serve_public_def Let_def is_ok_def)
  moreover have "client_data_handshake hmac ctx (Inr cn) (cc\<lparr>incoming := outgoing ?sc2 @ application\<rparr>) =
      (Inr (), cc\<lparr>incoming := application, outgoing := encode_preamble Data @ ?to\<rparr>)"
    using client_data_handshake_ok [OF h len n, of "cc\<lparr>incoming := outgoing ?sc2 @ application\<rparr>" application] io
    by simp
  ultimately show ?thesis by blast
qed

subsection \<open>Failures and ends\<close>

lemma open_setup_Inl:
  "open_setup hmac ctx oe deadline = Inl e \<Longrightarrow>
     \<exists>x m. e = Reported x m \<and> x \<in> {SetupTimeout, TargetConnect, DataAuth}"
  by (auto simp: open_setup_def remaining_def and_then_def Let_def split: sum.splits if_splits prod.splits)

lemma open_setup_Inr:
  assumes "open_setup hmac ctx oe deadline = Inr (target, d)"
  shows "\<not> oe_elapsed oe \<and> (\<exists>s b b'. b' \<le> target_connect (oc_timing ctx) \<and>
      dial (oe_target_net oe) (oc_target ctx) b' = Inr target \<and>
      connect_addr (oe_data_net oe) (oc_server_addr ctx) b = Inr s \<and>
      client_data_handshake hmac ctx (oe_nonce oe) (oe_socket oe s) = (Inr (), d))"
proof -
  obtain first budget where budgets: "remaining (fst (oe_clock oe)) deadline = Inr first"
    "remaining (fst (snd (oe_clock oe))) deadline = Inr budget"
    using assms by (auto simp: open_setup_def and_then_eq_Inr)
  let ?b = "min (target_connect (oc_timing ctx)) first"
  have "\<not> oe_elapsed oe \<and> (\<exists>s. dial (oe_target_net oe) (oc_target ctx) ?b = Inr target \<and>
      connect_addr (oe_data_net oe) (oc_server_addr ctx) budget = Inr s \<and>
      client_data_handshake hmac ctx (oe_nonce oe) (oe_socket oe s) = (Inr (), d))"
    using assms budgets
    by (auto simp: open_setup_def and_then_eq_Inr Let_def split: sum.splits if_splits prod.splits)
  then show ?thesis by (metis min.cobounded1)
qed

text \<open>
  C26. An OPEN that fails is reported once, to the queue of its session, with the request's identifier
  and one of three reasons: out of time, the local target, or the data connection and its handshake; a
  cancelled one and a successful one report nothing. The
  report is a frame the server accepts. A successful one forwards between a stream dialled to the
  configured target and a stream to the address of the session's server that passed the data
  handshake.
\<close>

theorem open_failure_reported:
  assumes rid: "length (oc_request_id ctx) = 16"
  shows "case handle_open hmac ctx oe of
      (Forwarded target d, reports) \<Rightarrow> reports = [] \<and> \<not> oe_cancelled oe \<and> \<not> oe_elapsed oe \<and>
        (\<exists>s b b'. b' \<le> target_connect (oc_timing ctx) \<and> dial (oe_target_net oe) (oc_target ctx) b' = Inr target \<and>
           connect_addr (oe_data_net oe) (oc_server_addr ctx) b = Inr s \<and>
           client_data_handshake hmac ctx (oe_nonce oe) (oe_socket oe s) = (Inr (), d))
    | (Dropped, reports) \<Rightarrow>
        (if oe_cancelled oe then reports = []
         else \<exists>f reason. reports = [(oc_writer ctx, OutFrame f)] \<and> wf_frame f \<and> ty f = OpenFailed \<and>
           open_failed_decode (payload f) = Inr \<lparr>of_request_id = oc_request_id ctx, of_reason = reason\<rparr> \<and>
           reason \<in> {SetupTimeout, TargetConnect, DataAuth})"
proof -
  have frame: "\<exists>f. outbound_frame OpenFailed (open_failed_encode \<lparr>of_request_id = oc_request_id ctx, of_reason = x\<rparr>) = OutFrame f \<and>
      wf_frame f \<and> ty f = OpenFailed \<and>
      open_failed_decode (payload f) = Inr \<lparr>of_request_id = oc_request_id ctx, of_reason = x\<rparr>" for x
    using rid by (simp add: outbound_frame_def open_failed.enc_len open_failed.dec_enc wf_open_failed_def)
  let ?deadline = "oe_start oe + request_wait (oc_timing ctx)"
  show ?thesis
  proof (cases "oe_cancelled oe")
    case False
    show ?thesis
    proof (cases "open_setup hmac ctx oe ?deadline")
      case (Inl e)
      then obtain x m where x: "e = Reported x m" "x \<in> {SetupTimeout, TargetConnect, DataAuth}"
        using open_setup_Inl by blast
      obtain f where "outbound_frame OpenFailed (open_failed_encode
          \<lparr>of_request_id = oc_request_id ctx, of_reason = x\<rparr>) = OutFrame f"
        "wf_frame f" "ty f = OpenFailed"
        "open_failed_decode (payload f) = Inr \<lparr>of_request_id = oc_request_id ctx, of_reason = x\<rparr>"
        using frame by blast
      then show ?thesis using Inl x False by (simp add: handle_open_def Let_def)
    next
      case (Inr p)
      then obtain target d where p: "p = (target, d)" by (cases p)
      then show ?thesis using open_setup_Inr [of hmac ctx oe ?deadline target d] Inr False
        by (simp add: handle_open_def Let_def)
    qed
  qed (simp add: handle_open_def Let_def)
qed

definition demo_unreachable :: dial_env where
  "demo_unreachable =
     \<lparr>di_clock = (\<lambda>_. 0), di_lookup = (\<lambda>_ _. Done (Inr [])), di_connect = (\<lambda>_ _. Done (Inr 1)),
      di_nodelay = (\<lambda>_. Inr ())\<rparr>"

definition demo_open :: open_env where
  "demo_open =
     \<lparr>oe_cancelled = False, oe_start = 0, oe_clock = (1, 1, 2), oe_target_net = demo_unreachable,
      oe_data_net = demo_unreachable, oe_socket = (\<lambda>_. demo_conn []), oe_elapsed = False,
      oe_nonce = Inr (replicate 32 5)\<rparr>"

theorem open_failure_reported_witness:
  "case handle_open demo_hmac demo_context demo_open of
     (Forwarded target d, reports) \<Rightarrow> False
   | (Dropped, reports) \<Rightarrow> \<exists>f. reports = [(7, OutFrame f)] \<and> ty f = OpenFailed"
proof -
  have "fst (handle_open demo_hmac demo_context demo_open) = Dropped"
    by (simp add: handle_open_def open_setup_def remaining_def demo_open_def demo_context_def timing_default_def
        from_secs_def from_millis_def and_then_def Let_def dial_def demo_unreachable_def net_remaining_def)
  moreover have "\<not> oe_cancelled demo_open" "length (oc_request_id demo_context) = 16" "oc_writer demo_context = 7"
    by (simp_all add: demo_open_def demo_context_def)
  ultimately show ?thesis
    using open_failure_reported [where ctx = demo_context and hmac = demo_hmac and oe = demo_open]
    by (auto split: prod.splits open_result.splits)
qed

text \<open>The three ways in which the task of a public connection ends.\<close>

lemma serve_public_cases:
  fixes sid rid cancelled expired received cancelled' expired' sent
  defines "run \<equiv> serve_public sid rid cancelled expired received cancelled' expired' sent"
    and "fin \<equiv> Finished (CmdRequestFinished sid rid)"
  obtains (unserved) "run = (None, [PublicShutdown] @ [fin])"
  | (abandoned) data d k where "run = (Some d, [PublicShutdown, DataShutdown] @ [fin])" "received = Some data"
      "outgoing d = outgoing data @ take k (frame_encode (frame_empty DataReady))"
  | (ready) data d where "run = (Some d, [ForwardBoth] @ [fin])" "received = Some data" "\<not> cancelled" "\<not> expired"
      "outgoing d = outgoing data @ frame_encode (frame_empty DataReady)"
proof (cases "cancelled \<or> expired \<or> received = None")
  case True
  then have "run = (None, [PublicShutdown] @ [fin])" by (auto simp: run_def fin_def serve_public_def Let_def)
  then show thesis by (rule unserved)
next
  case False
  then obtain data where data: "received = Some data" by auto
  obtain r d where w: "write_frame (frame_empty DataReady) data = (r, d)" by fastforce
  show thesis
  proof (cases "cancelled' \<or> expired' \<or> \<not> is_ok r")
    case True
    let ?cut = "d\<lparr>outgoing := take (length (outgoing data) + sent) (outgoing d)\<rparr>"
    have "run = (Some ?cut, [PublicShutdown, DataShutdown] @ [fin]) \<or> run = (Some d, [PublicShutdown, DataShutdown] @ [fin])"
      using True False data w by (auto simp: run_def fin_def serve_public_def Let_def)
    moreover obtain k where "outgoing d = outgoing data @ take k (frame_encode (frame_empty DataReady))"
      using write_frame_prefix [OF w] by blast
    ultimately show thesis using abandoned data by (fastforce simp: take_append)
  next
    case written: False
    then have "run = (Some d, [ForwardBoth] @ [fin])"
      using False data w by (simp add: run_def fin_def serve_public_def Let_def)
    moreover have "outgoing d = outgoing data @ frame_encode (frame_empty DataReady)"
      using written w write_frame_complete by (cases r) (auto simp: is_ok_def)
    ultimately show thesis using ready False data by blast
  qed
qed

text \<open>
  C27. Every public connection ends with one notice to the registry, the last thing its task does,
  whatever was cancelled, expired or failed; application bytes flow only after DATA-READY was written
  whole to the data socket, and otherwise the public socket is shut down, and so is the data socket if
  there was one, to which nothing but a part of DATA-READY went out.
\<close>

theorem public_connection_ends:
  "\<exists>d evs. serve_public sid rid cancelled expired received cancelled' expired' sent =
      (d, evs @ [Finished (CmdRequestFinished sid rid)]) \<and>
    (\<forall>c. Finished c \<notin> set evs) \<and>
    (if ForwardBoth \<in> set evs
     then \<exists>data d'. received = Some data \<and> d = Some d' \<and> \<not> cancelled \<and> \<not> expired \<and>
       outgoing d' = outgoing data @ frame_encode (frame_empty DataReady)
     else PublicShutdown \<in> set evs \<and>
       (case d of None \<Rightarrow> True
        | Some d' \<Rightarrow> DataShutdown \<in> set evs \<and> (\<exists>data k. received = Some data \<and>
            outgoing d' = outgoing data @ take k (frame_encode (frame_empty DataReady)))))"
proof (cases rule: serve_public_cases [of sid rid cancelled expired received cancelled' expired' sent])
  case unserved
  then show ?thesis by (intro exI conjI, assumption) simp_all
next
  case (abandoned data d k)
  show ?thesis by (intro exI conjI, rule abandoned(1)) (use abandoned in auto)
next
  case (ready data d)
  show ?thesis by (intro exI conjI, rule ready(1)) (simp_all add: ready)
qed

end
