(* ===== verification/Registry_Inv.thy ===== *)
theory Registry_Inv
  imports Server_Registry State_Machines_Lib
begin

text \<open>
  The invariant of the registry actor and its preservation by every sweep and command.

  The clauses say how the three tables agree: a session is current exactly when its port slot is
  active for it, every pending request belongs to a current session and generation, generations and
  listener identifiers lie below their counters, at most \<open>MAX_SLOTS\<close> ports are held, and no held
  port is privileged or the control port. A registration binds a placeholder slot before it installs
  the owner, so \<open>registry_inv_except p\<close> is the invariant with the generation clause suspended at
  the one port being registered.
\<close>

fun slot_generation :: "slot_state \<Rightarrow> u64" where
  "slot_generation (Active s) = sr_generation s"
| "slot_generation (Reserved _ g _) = g"

definition inv_maps :: "registry \<Rightarrow> bool" where
  "inv_maps r = (bt_wf (ports r) \<and> hm_wf (sessions r) \<and> hm_wf (pending r))"

definition inv_slots :: "registry \<Rightarrow> bool" where
  "inv_slots r = (length (ports r) \<le> MAX_SLOTS)"

definition inv_sessions :: "registry \<Rightarrow> bool" where
  "inv_sessions r =
     (\<forall>sid s. mget (sessions r) sid = Some s \<longrightarrow>
        sr_session_id s = sid \<and>
        (\<exists>slot. mget (ports r) (sr_port s) = Some slot \<and> ps_state slot = Active s))"

definition inv_active :: "registry \<Rightarrow> bool" where
  "inv_active r =
     (\<forall>p slot s. mget (ports r) p = Some slot \<longrightarrow> ps_state slot = Active s \<longrightarrow>
        sr_port s = p \<and> mget (sessions r) (sr_session_id s) = Some s)"

definition inv_pending :: "registry \<Rightarrow> bool" where
  "inv_pending r =
     (\<forall>sid rid e. mget (pending r) (sid, rid) = Some e \<longrightarrow>
        (\<exists>s. mget (sessions r) sid = Some s \<and> sr_generation s = pr_generation e))"

definition inv_generations :: "(u16 \<Rightarrow> bool) \<Rightarrow> registry \<Rightarrow> bool" where
  "inv_generations exempt r =
     (0 < unat (next_generation r) \<and>
      (\<forall>p slot. mget (ports r) p = Some slot \<longrightarrow> \<not> exempt p \<longrightarrow>
        0 < unat (slot_generation (ps_state slot)) \<and>
        unat (slot_generation (ps_state slot)) < unat (next_generation r)))"

definition inv_listeners :: "nat \<Rightarrow> registry \<Rightarrow> bool" where
  "inv_listeners slack r =
     (unat (next_listener_id r) \<le> unat (next_generation r) + slack \<and>
      (\<forall>p slot. mget (ports r) p = Some slot \<longrightarrow>
         unat (ps_listener_id slot) < unat (next_listener_id r)) \<and>
      (\<forall>p q slot slot'. mget (ports r) p = Some slot \<longrightarrow> mget (ports r) q = Some slot' \<longrightarrow>
         ps_listener_id slot = ps_listener_id slot' \<longrightarrow> p = q))"

definition inv_ports :: "registry \<Rightarrow> bool" where
  "inv_ports r =
     (\<forall>p slot. mget (ports r) p = Some slot \<longrightarrow>
        p \<noteq> sa_port (sc_listen (reg_config r)) \<and> 1024 \<le> p)"

definition registry_inv :: "registry \<Rightarrow> bool" where
  "registry_inv r =
     (wf_server_config (reg_config r) \<and> inv_maps r \<and> inv_slots r \<and> inv_sessions r \<and> inv_active r \<and>
      inv_pending r \<and> inv_generations (\<lambda>_. False) r \<and> inv_listeners 0 r \<and> inv_ports r)"

definition registry_inv_except :: "nat \<Rightarrow> u16 \<Rightarrow> registry \<Rightarrow> bool" where
  "registry_inv_except slack p r =
     (wf_server_config (reg_config r) \<and> inv_maps r \<and> inv_slots r \<and> inv_sessions r \<and> inv_active r \<and>
      inv_pending r \<and> inv_generations (\<lambda>q. q = p) r \<and> inv_listeners slack r \<and> inv_ports r)"

lemmas inv_defs = inv_maps_def inv_slots_def inv_sessions_def inv_active_def inv_pending_def
  inv_generations_def inv_listeners_def inv_ports_def

text \<open>
  What the rest of the server guarantees of a registration: the session identifier, sixteen random
  bytes, is not that of a current session, and the port passed the checks of
  \<open>ControlHello::decode\<close>.
\<close>

fun command_ok :: "command \<Rightarrow> registry \<Rightarrow> bool" where
  "command_ok (CmdRegister req) r =
     (mget (sessions r) (rq_session_id req) = None \<and>
      (rq_requested_port req = 0 \<or> 1024 \<le> rq_requested_port req) \<and>
      (rq_mode req = Resume \<longrightarrow> rq_requested_port req \<noteq> 0))"
| "command_ok _ r = True"

fun input_ok :: "input \<Rightarrow> registry \<Rightarrow> bool" where
  "input_ok (Tick t) r = True"
| "input_ok (Cmd env c) r = command_ok c r"

definition registry_step :: "input \<Rightarrow> registry \<Rightarrow> registry option" where
  "registry_step i r =
     (case i of
        Tick t \<Rightarrow> Some (fst (sweep t r))
      | Cmd env c \<Rightarrow> map_option (\<lambda>(rep, stop, r', es). r') (handle_command env c r))"

subsection \<open>Removing things keeps the invariant\<close>

lemma inv_new: "wf_server_config c \<Longrightarrow> registry_inv (registry_new c t)"
  by (simp add: registry_inv_def registry_new_def inv_defs)

text \<open>Each clause reads only some of the fields.\<close>

lemma inv_frame_pending [simp]:
  "inv_slots (r\<lparr>pending := pd\<rparr>) = inv_slots r"
  "inv_sessions (r\<lparr>pending := pd\<rparr>) = inv_sessions r"
  "inv_active (r\<lparr>pending := pd\<rparr>) = inv_active r"
  "inv_generations x (r\<lparr>pending := pd\<rparr>) = inv_generations x r"
  "inv_listeners n (r\<lparr>pending := pd\<rparr>) = inv_listeners n r"
  "inv_ports (r\<lparr>pending := pd\<rparr>) = inv_ports r"
  "inv_maps (r\<lparr>pending := pd\<rparr>) = (bt_wf (ports r) \<and> hm_wf (sessions r) \<and> hm_wf pd)"
  by (simp_all add: inv_defs)

lemma inv_frame_sessions [simp]:
  "inv_slots (r\<lparr>sessions := ss\<rparr>) = inv_slots r"
  "inv_generations x (r\<lparr>sessions := ss\<rparr>) = inv_generations x r"
  "inv_listeners n (r\<lparr>sessions := ss\<rparr>) = inv_listeners n r"
  "inv_ports (r\<lparr>sessions := ss\<rparr>) = inv_ports r"
  by (simp_all add: inv_defs)

lemma inv_frame_ports [simp]:
  "inv_pending (r\<lparr>ports := ps\<rparr>) = inv_pending r"
  by (simp_all add: inv_defs)

lemma inv_wfD:
  assumes "registry_inv r"
  shows "bt_wf (ports r)" and "hm_wf (sessions r)" and "hm_wf (pending r)"
  using assms by (simp_all add: registry_inv_def inv_maps_def)

lemma inv_mono_pending:
  assumes "registry_inv r" and "hm_wf pd"
    and "\<And>k e. mget pd k = Some e \<Longrightarrow> mget (pending r) k = Some e"
  shows "registry_inv (r\<lparr>pending := pd\<rparr>)"
proof -
  have "inv_pending r" using assms(1) by (simp add: registry_inv_def)
  then have "inv_pending (r\<lparr>pending := pd\<rparr>)"
    using assms(3) by (fastforce simp: inv_pending_def)
  then show ?thesis using assms(1,2) by (simp add: registry_inv_def inv_wfD [OF assms(1)])
qed

lemma inv_drop_request: "registry_inv r \<Longrightarrow> registry_inv (r\<lparr>pending := mrem k (pending r)\<rparr>)"
  by (rule inv_mono_pending) (auto simp: hm.wf_rem hm.rem_Some registry_inv_def inv_maps_def)

lemma inv_retain_requests:
  "registry_inv r \<Longrightarrow> registry_inv (r\<lparr>pending := mretain P (pending r)\<rparr>)"
  by (rule inv_mono_pending) (auto simp: hm.wf_retain hm.retain_Some registry_inv_def inv_maps_def)

lemma inv_claim:
  assumes "registry_inv r" and "claim env sid rid socket r = (out, r', es)"
  shows "registry_inv r'"
  using assms(2) inv_drop_request [OF assms(1)] assms(1)
  by (auto simp: claim_def Let_def split: option.splits if_splits)

lemma inv_free_reserved:
  assumes "registry_inv r" and "mget (ports r) p = Some slot" and "\<forall>s. ps_state slot \<noteq> Active s"
  shows "registry_inv (r\<lparr>ports := mrem p (ports r)\<rparr>)"
proof -
  have "length (mrem p (ports r)) \<le> length (ports r)" by (rule length_mrem)
  moreover have "sr_port s \<noteq> p" if "mget (sessions r) sid = Some s" for sid s
    using assms that by (fastforce simp: registry_inv_def inv_sessions_def)
  ultimately show ?thesis
    using assms(1) unfolding registry_inv_def inv_defs
    by (simp add: map_simps bt.wf_rem)
qed

lemma inv_release_ports:
  assumes "registry_inv r" and "distinct ps"
    and "\<forall>p \<in> set ps. \<forall>slot s. mget (ports r) p = Some slot \<longrightarrow> ps_state slot \<noteq> Active s"
  shows "registry_inv (fst (release_ports ps r))"
  using assms
proof (induction ps arbitrary: r)
  case (Cons p ps)
  show ?case
  proof (cases "mget (ports r) p")
    case None
    then show ?thesis using Cons by simp
  next
    case (Some slot)
    have "registry_inv (r\<lparr>ports := mrem p (ports r)\<rparr>)"
      using Cons.prems Some by (intro inv_free_reserved) auto
    then have "registry_inv (fst (release_ports ps (r\<lparr>ports := mrem p (ports r)\<rparr>)))"
      using Cons.prems by (intro Cons.IH) (auto simp: map_simps)
    then show ?thesis using Some by (simp add: case_prod_beta)
  qed
qed simp

lemma inv_sweep:
  assumes "registry_inv r"
  shows "registry_inv (fst (sweep t r))"
proof -
  let ?r1 = "r\<lparr>pending := mretain (\<lambda>_ e. pr_deadline e > t) (pending r)\<rparr>"
  let ?expired = "map fst (filter (\<lambda>(p, slot). slot_expired t (ps_state slot)) (ports r))"
  have wf: "bt_wf (ports r)" using assms by (simp add: registry_inv_def inv_maps_def)
  have d: "distinct ?expired"
    using distinct_mretain [OF bt_wf_distinct [OF wf]] by (simp add: mretain_def)
  have "ps_state slot \<noteq> Active s"
    if "p \<in> set ?expired" and "mget (ports r) p = Some slot" for p slot s
    using that wf by (auto simp: mget_eq_set bt_wf_distinct) (metis map_of_eq_Some_iff
        bt_wf_distinct option.inject slot_expired.simps(2))
  then have "registry_inv (fst (release_ports ?expired ?r1))"
    using d by (intro inv_release_ports inv_retain_requests assms) auto
  then show ?thesis by (simp add: sweep_def Let_def)
qed

subsection \<open>Ending a session\<close>

text \<open>
  Both \<open>session_lost\<close> and \<open>goodbye\<close> first forget the session and its requests; what remains is
  the slot, whose owner is then replaced by a reservation or which is removed.
\<close>

definition forget :: "session_id \<Rightarrow> registry \<Rightarrow> registry" where
  "forget sid r = drop_pending_for sid (r\<lparr>sessions := mrem sid (sessions r)\<rparr>)"

lemma forget_sel [simp]:
  "ports (forget sid r) = ports r"
  "reg_config (forget sid r) = reg_config r"
  "reg_timing (forget sid r) = reg_timing r"
  "next_generation (forget sid r) = next_generation r"
  "next_listener_id (forget sid r) = next_listener_id r"
  "sessions (forget sid r) = mrem sid (sessions r)"
  by (simp_all add: forget_def drop_pending_for_def)

lemma forget_pending:
  "hm_wf (pending r) \<Longrightarrow>
   mget (pending (forget sid r)) (s, rid) = (if s = sid then None else mget (pending r) (s, rid))"
  by (auto simp: forget_def drop_pending_for_def hm.get_retain split: option.splits)

lemma forget_wf: "hm_wf (pending r) \<Longrightarrow> hm_wf (pending (forget sid r))"
  by (simp add: forget_def drop_pending_for_def hm.wf_retain)

lemma current_slot:
  assumes "registry_inv r" and "mget (sessions r) sid = Some s"
  obtains slot where "mget (ports r) (sr_port s) = Some slot" "ps_state slot = Active s"
    "sr_session_id s = sid"
  using assms by (auto simp: registry_inv_def inv_sessions_def)

lemma session_slot:
  assumes "registry_inv r" and "mget (sessions r) sid = Some s"
    and "mget (ports r) (sr_port s) = Some slot"
  shows "ps_state slot = Active s \<and> sr_session_id s = sid"
proof -
  obtain sl where "mget (ports r) (sr_port s) = Some sl" "ps_state sl = Active s" "sr_session_id s = sid"
    using assms(1,2) by (rule current_slot)
  with assms(3) show ?thesis by simp
qed

lemma active_session:
  assumes "registry_inv r" and "mget (ports r) p = Some slot" and "ps_state slot = Active s"
  shows "sr_port s = p \<and> mget (sessions r) (sr_session_id s) = Some s"
  using assms by (auto simp: registry_inv_def inv_active_def)

lemma same_port_same_session:
  assumes "registry_inv r" and "mget (sessions r) a = Some s" and "mget (sessions r) b = Some t"
    and "sr_port s = sr_port t"
  shows "a = b"
proof -
  obtain sl where "mget (ports r) (sr_port s) = Some sl" "ps_state sl = Active s" "sr_session_id s = a"
    using assms(1,2) by (rule current_slot)
  moreover obtain tl where "mget (ports r) (sr_port t) = Some tl" "ps_state tl = Active t"
    "sr_session_id t = b"
    using assms(1,3) by (rule current_slot)
  ultimately show ?thesis using assms(4) by simp
qed

text \<open>Replacing or removing the slot of a forgotten session.\<close>

lemma inv_forget_slot:
  assumes inv: "registry_inv r" and s: "mget (sessions r) sid = Some s"
    and slot: "mget (ports r) (sr_port s) = Some slot"
    and st: "\<forall>t. st \<noteq> Active t" "slot_generation st = sr_generation s"
  shows "registry_inv ((forget sid r)\<lparr>ports := bt_insert (sr_port s) (slot\<lparr>ps_state := st\<rparr>) (ports r)\<rparr>)"
    (is "registry_inv ?r'")
proof -
  have act: "ps_state slot = Active s" and sid: "sr_session_id s = sid"
    using session_slot [OF inv s slot] by simp_all
  have old: "wf_server_config (reg_config r)" "inv_maps r" "inv_slots r" "inv_sessions r" "inv_active r"
    "inv_pending r" "inv_generations (\<lambda>_. False) r" "inv_listeners 0 r" "inv_ports r"
    using inv by (simp_all add: registry_inv_def)
  have wf: "bt_wf (ports r)" "hm_wf (sessions r)" "hm_wf (pending r)" using inv_wfD [OF inv] .
  have "inv_sessions ?r'"
    using old(4) same_port_same_session [OF inv _ s] sid
    unfolding inv_sessions_def by (auto simp: map_simps hm.rem_Some bt.ins_Some)
  moreover have "inv_active ?r'"
    using old(5) st(1) sid act s unfolding inv_active_def
    by (auto simp: map_simps split: if_splits) (metis option.inject)
  moreover have "inv_pending ?r'"
    using old(6) wf(3) unfolding inv_pending_def by (auto simp: forget_pending map_simps)
  moreover have "inv_generations (\<lambda>_. False) ?r'"
    using old(7) slot act st(2) unfolding inv_generations_def
    by (auto simp: map_simps split: if_splits) (metis slot_generation.simps(1))+
  moreover have "inv_listeners 0 ?r'"
    using old(8) slot unfolding inv_listeners_def by (auto simp: map_simps split: if_splits)
  moreover have "inv_ports ?r'"
    using old(9) slot unfolding inv_ports_def by (auto simp: map_simps split: if_splits)
  ultimately show ?thesis
    using old(1,3) wf slot
    by (simp add: registry_inv_def inv_maps_def inv_slots_def forget_wf bt.wf_ins hm.wf_rem bt.len_overwrite)
qed

lemma inv_forget_free:
  assumes inv: "registry_inv r" and s: "mget (sessions r) sid = Some s"
  shows "registry_inv ((forget sid r)\<lparr>ports := mrem (sr_port s) (ports r)\<rparr>)"
proof -
  obtain slot where slot: "mget (ports r) (sr_port s) = Some slot" "ps_state slot = Active s"
    using current_slot [OF inv s] by metis
  let ?held = "slot\<lparr>ps_state := Reserved [] (sr_generation s) 0\<rparr>"
  let ?r1 = "(forget sid r)\<lparr>ports := bt_insert (sr_port s) ?held (ports r)\<rparr>"
  have "registry_inv ?r1"
    using inv s slot(1) by (rule inv_forget_slot) simp_all
  then have "registry_inv (?r1\<lparr>ports := mrem (sr_port s) (ports ?r1)\<rparr>)"
    by (rule inv_free_reserved [where slot = ?held]) (simp_all add: map_simps)
  moreover have "mrem (sr_port s) (bt_insert (sr_port s) ?held (ports r)) = mrem (sr_port s) (ports r)"
    by (rule mrem_bt_insert [OF inv_wfD(1) [OF inv]])
  ultimately show ?thesis by simp
qed

lemma session_lost_eq:
  assumes inv: "registry_inv r" and s: "mget (sessions r) sid = Some s"
    and g: "sr_generation s = generation" and slot: "mget (ports r) (sr_port s) = Some slot"
  shows "session_lost env sid generation r =
    ((forget sid r)\<lparr>ports := bt_insert (sr_port s)
        (slot\<lparr>ps_state := Reserved (sr_instance_id s) generation (now env + reservation (reg_timing r))\<rparr>)
        (ports r)\<rparr>,
     [CancelToken (sr_data_cancel s), CancelToken (sr_control_cancel s)])"
  using session_slot [OF inv s slot] s g slot
  by (simp add: session_lost_def Let_def forget_def [symmetric])

lemma session_lost_stale:
  assumes "\<And>s. mget (sessions r) sid = Some s \<Longrightarrow> sr_generation s \<noteq> generation"
  shows "session_lost env sid generation r = (r, [])"
  using assms by (simp add: session_lost_def split: option.splits)

lemma inv_session_lost:
  assumes inv: "registry_inv r"
  shows "registry_inv (fst (session_lost env sid generation r))"
proof (cases "\<exists>s. mget (sessions r) sid = Some s \<and> sr_generation s = generation")
  case True
  then obtain s where s: "mget (sessions r) sid = Some s" "sr_generation s = generation" by blast
  obtain slot where slot: "mget (ports r) (sr_port s) = Some slot"
    using current_slot [OF inv s(1)] by metis
  show ?thesis
    unfolding session_lost_eq [OF inv s slot] fst_conv
    using inv s(1) slot by (rule inv_forget_slot) (simp_all add: s(2))
next
  case False
  then have "session_lost env sid generation r = (r, [])" by (intro session_lost_stale) blast
  with inv show ?thesis by simp
qed

lemma goodbye_eq:
  assumes inv: "registry_inv r" and s: "mget (sessions r) sid = Some s"
    and g: "sr_generation s = generation" and slot: "mget (ports r) (sr_port s) = Some slot"
  shows "goodbye env sid generation r =
    ((forget sid r)\<lparr>ports := mrem (sr_port s) (ports r)\<rparr>,
     [CancelToken (sr_data_cancel s), CancelToken (ps_listener_cancel slot)])"
  using session_slot [OF inv s slot] s g slot
  by (simp add: goodbye_def Let_def forget_def [symmetric])

lemma goodbye_stale:
  assumes "\<And>s. mget (sessions r) sid = Some s \<Longrightarrow> sr_generation s \<noteq> generation"
  shows "goodbye env sid generation r = (r, [])"
  using assms by (simp add: goodbye_def split: option.splits)

lemma inv_goodbye:
  assumes inv: "registry_inv r"
  shows "registry_inv (fst (goodbye env sid generation r))"
proof (cases "\<exists>s. mget (sessions r) sid = Some s \<and> sr_generation s = generation")
  case True
  then obtain s where s: "mget (sessions r) sid = Some s" "sr_generation s = generation" by blast
  obtain slot where slot: "mget (ports r) (sr_port s) = Some slot"
    using current_slot [OF inv s(1)] by metis
  show ?thesis
    unfolding goodbye_eq [OF inv s slot] fst_conv by (rule inv_forget_free [OF inv s(1)])
next
  case False
  then have "goodbye env sid generation r = (r, [])" by (intro goodbye_stale) blast
  with inv show ?thesis by simp
qed

lemma inv_shutdown_all: "registry_inv r \<Longrightarrow> registry_inv (fst (shutdown_all env r))"
  by (simp add: shutdown_all_def registry_inv_def inv_defs)

lemma inv_add_request:
  assumes "registry_inv r" and "mget (sessions r) sid = Some s" and "pr_generation e = sr_generation s"
  shows "registry_inv (r\<lparr>pending := hm_insert (sid, rid) e (pending r)\<rparr>)"
proof -
  have "inv_pending r" using assms(1) by (simp add: registry_inv_def)
  then have "inv_pending (r\<lparr>pending := hm_insert (sid, rid) e (pending r)\<rparr>)"
    using assms(2,3) by (auto simp: inv_pending_def map_simps)
  then show ?thesis
    using assms(1) by (simp add: registry_inv_def inv_wfD [OF assms(1)] hm.wf_ins)
qed

lemma inv_accepted_public:
  assumes inv: "registry_inv r" and acc: "accepted_public env lid p socket at r = Some (r', es)"
  shows "registry_inv r'"
proof -
  have "registry_inv (r\<lparr>pending := hm_insert (sr_session_id s, rid) e (pending r)\<rparr>)"
    if "mget (ports r) p = Some slot" "ps_state slot = Active s" "pr_generation e = sr_generation s"
    for slot s rid e
    using active_session [OF inv that(1,2)] that(3) by (intro inv_add_request [OF inv]) auto
  moreover have "registry_inv r1" if "session_lost env sid g r = (r1, es1)" for sid g r1 es1
    using inv_session_lost [OF inv, of env sid g] that by simp
  ultimately show ?thesis
    using acc inv
    by (auto simp: accepted_public_def Let_def split: option.splits slot_state.splits if_splits prod.splits)
qed

subsection \<open>Choosing a port\<close>

definition bound :: "env \<Rightarrow> u16 \<Rightarrow> registry \<Rightarrow> registry" where
  "bound env p r =
     r\<lparr>next_listener_id := next_listener_id r + 1,
       ports := bt_insert p
         \<lparr>ps_listener_id = next_listener_id r, ps_listener_cancel = fresh_token env,
          ps_state = Reserved (replicate 16 0) 0 (now env + reservation (reg_timing r))\<rparr> (ports r)\<rparr>"

lemma bound_sel [simp]:
  "reg_config (bound env p r) = reg_config r"
  "reg_timing (bound env p r) = reg_timing r"
  "sessions (bound env p r) = sessions r"
  "pending (bound env p r) = pending r"
  "next_generation (bound env p r) = next_generation r"
  "next_listener_id (bound env p r) = next_listener_id r + 1"
  by (simp_all add: bound_def)

abbreviation bindable :: "env \<Rightarrow> registry \<Rightarrow> u16 \<Rightarrow> bool" where
  "bindable env r p \<equiv> (\<exists>u. bind_outcome env (sc_data_bind (reg_config r)) p = Inr u)"

lemma bind_slot_Inr:
  "bind_slot env p r = (Inr l, r', es) \<longleftrightarrow>
     bindable env r p \<and> l = next_listener_id r \<and> r' = bound env p r \<and>
     es = [ListenerSpawned (next_listener_id r) p (fresh_token env)]"
  by (auto simp: bind_slot_def bound_def Let_def split: sum.splits)

lemma bind_slot_Inl:
  "bind_slot env p r = (Inl c, r', es) \<Longrightarrow>
     \<not> bindable env r p \<and> r' = r \<and> es = [] \<and> c \<in> {PortUnavailable, InternalError}"
  by (auto simp: bind_slot_def Let_def split: sum.splits if_splits)

lemma scan_ports_Cons:
  "scan_ports env (p # ps) r =
     (if p = sa_port (sc_listen (reg_config r)) \<or> mcontains (ports r) p then scan_ports env ps r
      else case bind_outcome env (sc_data_bind (reg_config r)) p of
          Inr _ \<Rightarrow> (Inr p, bound env p r, [ListenerSpawned (next_listener_id r) p (fresh_token env)])
        | Inl e \<Rightarrow> if is_port_taken e then scan_ports env ps r else (Inl InternalError, r, []))"
  by (simp add: bind_slot_def bound_def Let_def split: sum.splits)

lemma set_port_range: "q \<in> set (port_range (a, b)) \<longleftrightarrow> a \<le> q \<and> q \<le> b"
proof -
  have "q \<in> set (port_range (a, b)) \<longleftrightarrow> (\<exists>n. unat a \<le> n \<and> n \<le> unat b \<and> q = of_nat n)"
    by (auto simp: port_range_def)
  also have "\<dots> \<longleftrightarrow> unat a \<le> unat q \<and> unat q \<le> unat b"
  proof
    assume "\<exists>n. unat a \<le> n \<and> n \<le> unat b \<and> q = of_nat n"
    then obtain n where n: "unat a \<le> n" "n \<le> unat b" "q = of_nat n" by blast
    have "n < 2 ^ LENGTH(16)" using n(2) unsigned_less [of b] by (rule le_less_trans)
    then have "unat q = n" by (simp add: n(3) unat_of_nat take_bit_nat_eq_self)
    with n show "unat a \<le> unat q \<and> unat q \<le> unat b" by simp
  qed (auto intro: exI [of _ "unat q"])
  finally show ?thesis by (simp add: word_le_nat_alt)
qed

lemma scan_ports_Inr:
  "scan_ports env ps r = (Inr p, r', es) \<Longrightarrow>
     p \<in> set ps \<and> p \<noteq> sa_port (sc_listen (reg_config r)) \<and> mget (ports r) p = None \<and>
     bindable env r p \<and> r' = bound env p r \<and>
     es = [ListenerSpawned (next_listener_id r) p (fresh_token env)]"
  by (induction ps) (auto simp: scan_ports_Cons mcontains_def simp del: scan_ports.simps(2)
      split: if_splits sum.splits)

lemma scan_ports_Inl:
  "scan_ports env ps r = (Inl c, r', es) \<Longrightarrow> r' = r \<and> es = []"
  by (induction ps) (auto simp: scan_ports_Cons simp del: scan_ports.simps(2)
      split: if_splits sum.splits)

definition chosen :: "env \<Rightarrow> u16 \<Rightarrow> registry \<Rightarrow> registry \<Rightarrow> effect list \<Rightarrow> bool" where
  "chosen env p r r' es =
     (r' = r \<and> es = [] \<and> mcontains (ports r) p \<or>
      r' = bound env p r \<and> es = [ListenerSpawned (next_listener_id r) p (fresh_token env)] \<and>
      mget (ports r) p = None \<and> length (ports r) < MAX_SLOTS \<and> bindable env r p)"

lemma chosen_held: "mget (ports r) p = Some slot \<Longrightarrow> chosen env p r r []"
  by (simp add: chosen_def mcontains_def)

lemma find_port_Some:
  assumes "find P m = Some (k, v)" and "distinct (map fst m)"
  shows "mget m k = Some v \<and> P (k, v)"
  using assms by (auto simp: find_Some_iff mget_eq_set)

lemma ensure_slot_Inr:
  "ensure_slot env p inst ex r = (Inr u, r', es) \<Longrightarrow> chosen env p r r' es"
  by (auto simp: ensure_slot_def chosen_def mcontains_def bind_slot_Inr
      split: if_splits prod.splits sum.splits)

lemma ensure_slot_Inl:
  "ensure_slot env p inst ex r = (Inl c, r', es) \<Longrightarrow> r' = r \<and> es = []"
  by (auto simp: ensure_slot_def dest: bind_slot_Inl split: if_splits prod.splits sum.splits)

lemma allocate_automatic_Inr:
  assumes "allocate_automatic env inst r = (Inr p, r', es)" and "bt_wf (ports r)"
  shows "chosen env p r r' es"
  using assms find_port_Some [OF _ bt_wf_distinct [OF assms(2)]]
  by (auto simp: allocate_automatic_def chosen_def mcontains_def dest!: scan_ports_Inr
      split: option.splits if_splits)

lemma select_port_Inr:
  assumes "select_port env req r = (Inr p, r', es)" and "bt_wf (ports r)"
  shows "chosen env p r r' es"
  using assms
  by (auto simp: select_port_def Let_def intro: chosen_held
      dest: ensure_slot_Inr allocate_automatic_Inr split: if_splits prod.splits sum.splits option.splits)

lemma select_port_Inl:
  "select_port env req r = (Inl c, r', es) \<Longrightarrow> r' = r \<and> es = []"
  by (auto simp: select_port_def allocate_automatic_def Let_def
      dest: ensure_slot_Inl scan_ports_Inl split: if_splits prod.splits sum.splits option.splits)

lemma select_port_port:
  assumes sel: "select_port env req r = (Inr p, r', es)" and inv: "registry_inv r"
    and ok: "command_ok (CmdRegister req) r"
    and listen: "rq_requested_port req \<noteq> 0 \<Longrightarrow> rq_requested_port req \<noteq> sa_port (sc_listen (reg_config r))"
  shows "p \<noteq> sa_port (sc_listen (reg_config r)) \<and> 1024 \<le> p"
proof (cases "rq_requested_port req = 0")
  case False
  then have "p = rq_requested_port req"
    using sel by (auto simp: select_port_def Let_def split: if_splits prod.splits sum.splits option.splits)
  then show ?thesis using False ok listen by auto
next
  case True
  then have alloc: "allocate_automatic env (rq_instance_id req) r = (Inr p, r', es)"
    using sel ok by (cases "rq_mode req") (auto simp: select_port_def Let_def)
  have held: "mget (ports r) p = Some slot \<Longrightarrow> ?thesis" for slot
    using inv by (auto simp: registry_inv_def inv_ports_def)
  obtain a b where range: "sc_allowed_ports (reg_config r) = (a, b)" by (cases "sc_allowed_ports (reg_config r)")
  have "1024 \<le> a" using inv range by (simp add: registry_inv_def wf_server_config_def)
  then show ?thesis
    using alloc held find_port_Some [OF _ bt_wf_distinct [OF inv_wfD(1) [OF inv]]]
    by (auto simp: allocate_automatic_def range set_port_range dest!: scan_ports_Inr
        split: option.splits if_splits)
qed

subsection \<open>Installing an owner\<close>

lemma unat_next: "(w :: u64) \<noteq> - 1 \<Longrightarrow> unat (w + 1) = Suc (unat w)"
  using unatSuc [of w] by (auto simp: add.commute add_eq_0_iff)

lemma inv_except_self: "registry_inv r \<Longrightarrow> registry_inv_except 1 p r"
  by (auto simp: registry_inv_def registry_inv_except_def inv_generations_def inv_listeners_def)

lemma inv_except_bound:
  assumes inv: "registry_inv r" and free: "mget (ports r) p = None"
    and room: "length (ports r) < MAX_SLOTS"
    and p: "p \<noteq> sa_port (sc_listen (reg_config r))" "1024 \<le> p"
    and gen: "next_generation r \<noteq> - 1"
  shows "registry_inv_except 1 p (bound env p r)"
proof -
  have wf: "bt_wf (ports r)" using inv by (rule inv_wfD)
  have old: "inv_maps r" "inv_sessions r" "inv_active r" "inv_pending r"
    "inv_generations (\<lambda>_. False) r" "inv_listeners 0 r" "inv_ports r"
    using inv by (simp_all add: registry_inv_def)
  have "next_listener_id r \<noteq> - 1"
    using old(6) gen by (metis (mono_tags) inv_listeners_def add_0_right word_le_nat_alt
        word_order.extremum_unique)
  then have lid: "unat (next_listener_id r + 1) = Suc (unat (next_listener_id r))" by (rule unat_next)
  have "inv_sessions (bound env p r)"
    using old(2) free unfolding inv_sessions_def bound_def by (auto simp: map_simps) force
  moreover have "inv_active (bound env p r)"
    using old(3) unfolding inv_active_def bound_def by (auto simp: map_simps split: if_splits)
  moreover have "inv_pending (bound env p r)"
    using old(4) by (simp add: inv_pending_def)
  moreover have "inv_generations (\<lambda>q. q = p) (bound env p r)"
    using old(5) unfolding inv_generations_def bound_def by (auto simp: map_simps)
  moreover have "inv_listeners 1 (bound env p r)"
    using old(6) unfolding inv_listeners_def bound_def
    by (auto simp: map_simps lid split: if_splits) (metis less_SucI less_irrefl_nat)+
  moreover have "inv_ports (bound env p r)"
    using old(7) p unfolding inv_ports_def bound_def by (auto simp: map_simps)
  ultimately show ?thesis
    using inv old(1) room free wf
    by (simp add: registry_inv_except_def registry_inv_def inv_maps_def inv_slots_def bound_def
        bt.wf_ins bt.len_ins)
qed

text \<open>The session a registration creates, and the state after its installation.\<close>

definition new_session :: "register_request \<Rightarrow> u16 \<Rightarrow> registry \<Rightarrow> session_ref" where
  "new_session req p r =
     \<lparr>sr_session_id = rq_session_id req, sr_instance_id = rq_instance_id req,
      sr_generation = next_generation r, sr_port = p, sr_writer = rq_writer req,
      sr_data_cancel = rq_data_cancel req, sr_control_cancel = rq_control_cancel req,
      sr_permits = SessionPermits (next_generation r) (unat (sc_max_connections (reg_config r)))\<rparr>"

definition evict :: "slot_state \<Rightarrow> registry \<Rightarrow> registry" where
  "evict st r = (case st of Active previous \<Rightarrow> forget (sr_session_id previous) r | Reserved _ _ _ \<Rightarrow> r)"

definition evict_effects :: "env \<Rightarrow> slot_state \<Rightarrow> registry \<Rightarrow> effect list" where
  "evict_effects env st r =
     (case st of Active previous \<Rightarrow> snd (displace env previous r) | Reserved _ _ _ \<Rightarrow> [])"

definition owned :: "register_request \<Rightarrow> u16 \<Rightarrow> port_slot \<Rightarrow> registry \<Rightarrow> registry" where
  "owned req p slot r =
     (evict (ps_state slot) r)
       \<lparr>next_generation := next_generation r + 1,
        ports := bt_insert p (slot\<lparr>ps_state := Active (new_session req p r)\<rparr>) (ports r),
        sessions := hm_insert (rq_session_id req) (new_session req p r) (sessions (evict (ps_state slot) r))\<rparr>"

lemma install_Some:
  "install env req p r = Some (rn, r', es) \<longleftrightarrow>
     next_generation r \<noteq> - 1 \<and>
     (\<exists>slot. mget (ports r) p = Some slot \<and> r' = owned req p slot r \<and>
        es = evict_effects env (ps_state slot) r \<and>
        rn = \<lparr>rn_assigned_port = p, rn_max_connections = sc_max_connections (reg_config r),
              rn_generation = next_generation r\<rparr>)"
  by (auto simp: install_def take_generation_def owned_def evict_def evict_effects_def new_session_def
      displace_def forget_def drop_pending_for_def Let_def try_send_def
      split: option.splits slot_state.splits)

lemma evict_sel [simp]:
  "ports (evict st r) = ports r"
  "reg_config (evict st r) = reg_config r"
  "reg_timing (evict st r) = reg_timing r"
  "next_generation (evict st r) = next_generation r"
  "next_listener_id (evict st r) = next_listener_id r"
  by (simp_all add: evict_def split: slot_state.splits)

lemma evict_wf:
  "hm_wf (sessions r) \<Longrightarrow> hm_wf (sessions (evict st r))"
  "hm_wf (pending r) \<Longrightarrow> hm_wf (pending (evict st r))"
  by (simp_all add: evict_def hm.wf_rem forget_wf split: slot_state.splits)

lemma evict_sessions:
  "mget (sessions (evict st r)) sid =
     (if \<exists>previous. st = Active previous \<and> sr_session_id previous = sid then None else mget (sessions r) sid)"
  by (cases st) (auto simp: evict_def map_simps)

lemma evict_pending:
  "hm_wf (pending r) \<Longrightarrow> mget (pending (evict st r)) (sid, rid) =
     (if \<exists>previous. st = Active previous \<and> sr_session_id previous = sid then None else mget (pending r) (sid, rid))"
  by (cases st) (auto simp: evict_def forget_pending)

lemma owned_sel [simp]:
  "ports (owned req p slot r) = bt_insert p (slot\<lparr>ps_state := Active (new_session req p r)\<rparr>) (ports r)"
  "sessions (owned req p slot r) =
     hm_insert (rq_session_id req) (new_session req p r) (sessions (evict (ps_state slot) r))"
  "pending (owned req p slot r) = pending (evict (ps_state slot) r)"
  "next_generation (owned req p slot r) = next_generation r + 1"
  "next_listener_id (owned req p slot r) = next_listener_id r"
  "reg_config (owned req p slot r) = reg_config r"
  "reg_timing (owned req p slot r) = reg_timing r"
  by (simp_all add: owned_def)

lemma new_session_sel [simp]:
  "sr_session_id (new_session req p r) = rq_session_id req"
  "sr_instance_id (new_session req p r) = rq_instance_id req"
  "sr_port (new_session req p r) = p"
  "sr_generation (new_session req p r) = next_generation r"
  "sr_writer (new_session req p r) = rq_writer req"
  by (simp_all add: new_session_def)

lemma inv_owned:
  assumes inv: "registry_inv_except 1 p r" and slot: "mget (ports r) p = Some slot"
    and fresh: "mget (sessions r) (rq_session_id req) = None" and gen: "next_generation r \<noteq> - 1"
  shows "registry_inv (owned req p slot r)"
proof -
  let ?r' = "owned req p slot r"
  have old: "inv_maps r" "inv_slots r" "inv_sessions r" "inv_active r" "inv_pending r"
    "inv_generations (\<lambda>q. q = p) r" "inv_listeners 1 r" "inv_ports r"
    using inv by (simp_all add: registry_inv_except_def)
  have wf: "bt_wf (ports r)" "hm_wf (sessions r)" "hm_wf (pending r)"
    using old(1) by (simp_all add: inv_maps_def)
  have g: "unat (next_generation r + 1) = Suc (unat (next_generation r))" using gen by (rule unat_next)
  have kept: "sr_port s \<noteq> p"
    if "mget (sessions (evict (ps_state slot) r)) sid = Some s" for sid s
    using that old(3) slot unfolding inv_sessions_def
    by (auto simp: evict_sessions split: if_splits) force
  have act: "sr_port s = q \<and> mget (sessions r) (sr_session_id s) = Some s"
    if "mget (ports r) q = Some sl" "ps_state sl = Active s" for q sl s
    using that old(4) by (simp add: inv_active_def)
  have mine: "sr_session_id s \<noteq> rq_session_id req"
    "ps_state slot = Active prev \<Longrightarrow> sr_session_id prev \<noteq> sr_session_id s"
    if "mget (ports r) q = Some sl" "ps_state sl = Active s" "q \<noteq> p" for q sl s prev
    using act [OF that(1,2)] act [OF slot, of prev] that(3) fresh by auto
  have "inv_sessions ?r'"
    using old(3) kept unfolding inv_sessions_def
    by (auto simp: map_simps evict_sessions split: if_splits)
  moreover have "inv_active ?r'"
    using old(4) mine unfolding inv_active_def
    by (auto simp: map_simps evict_sessions split: if_splits)
  moreover have "inv_pending ?r'"
    using old(5) wf(3) fresh unfolding inv_pending_def
    by (auto simp: map_simps evict_sessions evict_pending split: if_splits) force+
  moreover have "inv_generations (\<lambda>_. False) ?r'"
    using old(6) unfolding inv_generations_def by (auto simp: map_simps g less_SucI split: if_splits)
  moreover have "inv_listeners 0 ?r'"
    using old(7) slot unfolding inv_listeners_def by (auto simp: map_simps g split: if_splits)
  moreover have "inv_ports ?r'"
    using old(8) slot unfolding inv_ports_def by (auto simp: map_simps split: if_splits)
  ultimately show ?thesis
    using inv old(2) wf slot
    by (simp add: registry_inv_def registry_inv_except_def inv_maps_def inv_slots_def evict_wf
        bt.wf_ins hm.wf_ins bt.len_overwrite)
qed

subsection \<open>Every step keeps the invariant\<close>

lemma register_cases:
  assumes "register env req r = Some (out, r', es)" and inv: "registry_inv r"
  obtains (refused) c where "out = Inl c" "r' = r" "es = []"
  | (installed) p rn r1 es1 slot where "out = Inr rn" "chosen env p r r1 es1" "mget (ports r1) p = Some slot"
      "r' = owned req p slot r1" "es = es1 @ evict_effects env (ps_state slot) r1"
      "rn = \<lparr>rn_assigned_port = p, rn_max_connections = sc_max_connections (reg_config r),
             rn_generation = next_generation r\<rparr>"
      "next_generation r \<noteq> - 1" "select_port env req r = (Inr p, r1, es1)"
      "rq_requested_port req \<noteq> 0 \<longrightarrow> rq_requested_port req \<noteq> sa_port (sc_listen (reg_config r))"
proof -
  show thesis
  proof (cases "select_port env req r")
    case (fields sel r1 es1)
    show thesis
    proof (cases sel)
      case (Inl c)
      with assms fields show thesis
        by (auto simp: register_def intro: refused dest: select_port_Inl split: if_splits)
    next
      case (Inr p)
      with fields have ch: "chosen env p r r1 es1"
        using select_port_Inr inv_wfD(1) [OF inv] by blast
      then have "next_generation r1 = next_generation r" "reg_config r1 = reg_config r"
        by (auto simp: chosen_def)
      with assms fields Inr ch show thesis
        by (auto simp: register_def install_Some intro: refused installed split: if_splits option.splits)
    qed
  qed
qed

lemma inv_register:
  assumes inv: "registry_inv r" and ok: "command_ok (CmdRegister req) r"
    and reg: "register env req r = Some (out, r', es)"
  shows "registry_inv r'"
  using reg inv
proof (cases rule: register_cases)
  case refused
  with inv show ?thesis by simp
next
  case (installed p rn r1 es1 slot)
  have port: "p \<noteq> sa_port (sc_listen (reg_config r))" "1024 \<le> p"
    using select_port_port [OF installed(8) inv ok] installed(9) by auto
  have "registry_inv_except 1 p r1 \<and> sessions r1 = sessions r \<and> next_generation r1 = next_generation r"
    using installed(2) inv_except_self [OF inv] inv_except_bound [OF inv _ _ port installed(7)]
    by (auto simp: chosen_def)
  then show ?thesis
    unfolding installed(4) using installed(3,7) ok by (intro inv_owned) auto
qed

lemma inv_handle_command:
  assumes inv: "registry_inv r" and ok: "command_ok c r"
    and h: "handle_command env c r = Some (rep, stop, r', es)"
  shows "registry_inv r'"
proof (cases c)
  case (CmdRegister req)
  with h obtain out where "register env req r = Some (out, r', es)" by (auto split: option.splits)
  with inv ok CmdRegister show ?thesis by (auto intro: inv_register)
next
  case (CmdAcceptedPublic lid p socket peer at)
  with h show ?thesis by (auto intro: inv_accepted_public [OF inv] split: option.splits)
next
  case (CmdClaimData sid rid socket)
  with h show ?thesis by (auto intro: inv_claim [OF inv] split: prod.splits)
next
  case (CmdSessionLost sid g)
  with h show ?thesis using inv_session_lost [OF inv, of env sid g] by (auto split: prod.splits)
next
  case (CmdGoodbye sid g)
  with h show ?thesis using inv_goodbye [OF inv, of env sid g] by (auto split: prod.splits)
next
  case CmdShutdown
  with h show ?thesis using inv_shutdown_all [OF inv, of env] by (auto split: prod.splits)
qed (use h inv inv_drop_request [OF inv] in auto)

lemma registry_step_inv:
  assumes "registry_inv r" and "input_ok i r" and "registry_step i r = Some r'"
  shows "registry_inv r'"
  using assms by (cases i) (auto simp: registry_step_def inv_sweep intro: inv_handle_command)

interpretation registry_machine: invariant_machine registry_step input_ok registry_inv
  by unfold_locales (rule registry_step_inv)

definition registry_reachable :: "server_config \<Rightarrow> timing \<Rightarrow> registry \<Rightarrow> bool" where
  "registry_reachable c t r = reach registry_step input_ok (registry_new c t) r"

lemma reachable_inv: "wf_server_config c \<Longrightarrow> registry_reachable c t r \<Longrightarrow> registry_inv r"
  unfolding registry_reachable_def using registry_machine.reach_inv inv_new by blast

end
