(* ===== verification/Registry_Spec.thy ===== *)
theory Registry_Spec
  imports Registry_Inv
begin

text \<open>
  What the registry promises, without its bookkeeping: a table of tunnels and a table of connection
  requests (\<open>table\<close>). There are no generations, listener identifiers, writers or a separate session
  table here; the simulation theorem shows that under the invariant the concrete actor, with all of
  these, makes exactly the moves of the table.
\<close>

subsection \<open>The abstract tunnel table\<close>

datatype tunnel =
    Live session_id instance_id u64
  | Held instance_id instant

record table =
  tunnels :: "u16 \<rightharpoonup> tunnel"
  requests :: "session_id \<times> request_id \<rightharpoonup> instant"

fun tunnel_owner :: "tunnel \<Rightarrow> instance_id" where
  "tunnel_owner (Live _ i _) = i"
| "tunnel_owner (Held i _) = i"

definition spec_live :: "session_id \<Rightarrow> u64 \<Rightarrow> table \<Rightarrow> bool" where
  "spec_live sid g t = (\<exists>p i. tunnels t p = Some (Live sid i g))"

definition spec_drop :: "session_id \<Rightarrow> (session_id \<times> request_id \<rightharpoonup> instant) \<Rightarrow> (session_id \<times> request_id \<rightharpoonup> instant)" where
  "spec_drop sid q = (\<lambda>(s, rid). if s = sid then None else q (s, rid))"

definition spec_register :: "session_id \<Rightarrow> instance_id \<Rightarrow> u64 \<Rightarrow> u16 \<Rightarrow> table \<Rightarrow> table" where
  "spec_register sid inst g p t =
     t\<lparr>tunnels := (tunnels t)(p \<mapsto> Live sid inst g),
       requests := (case tunnels t p of
                      Some (Live previous _ _) \<Rightarrow> spec_drop previous (requests t)
                    | _ \<Rightarrow> requests t)\<rparr>"

definition spec_end :: "session_id \<Rightarrow> (instance_id \<Rightarrow> tunnel option) \<Rightarrow> table \<Rightarrow> table" where
  "spec_end sid becomes t =
     t\<lparr>tunnels := (\<lambda>p. case tunnels t p of
                         Some (Live s i g) \<Rightarrow> if s = sid then becomes i else Some (Live s i g)
                       | x \<Rightarrow> x),
       requests := spec_drop sid (requests t)\<rparr>"

definition spec_lost :: "session_id \<Rightarrow> u64 \<Rightarrow> instant \<Rightarrow> table \<Rightarrow> table" where
  "spec_lost sid g expires_at t =
     (if spec_live sid g t then spec_end sid (\<lambda>i. Some (Held i expires_at)) t else t)"

definition spec_goodbye :: "session_id \<Rightarrow> u64 \<Rightarrow> table \<Rightarrow> table" where
  "spec_goodbye sid g t = (if spec_live sid g t then spec_end sid (\<lambda>_. None) t else t)"

definition spec_sweep :: "instant \<Rightarrow> table \<Rightarrow> table" where
  "spec_sweep time t =
     t\<lparr>tunnels := (\<lambda>p. case tunnels t p of
                         Some (Held i e) \<Rightarrow> if e \<le> time then None else Some (Held i e)
                       | x \<Rightarrow> x),
       requests := (\<lambda>k. case requests t k of
                          Some d \<Rightarrow> if d > time then Some d else None
                        | None \<Rightarrow> None)\<rparr>"

definition spec_cancel :: "session_id \<times> request_id \<Rightarrow> table \<Rightarrow> table" where
  "spec_cancel k t = t\<lparr>requests := (requests t)(k := None)\<rparr>"

definition spec_waiting :: "instant \<Rightarrow> session_id \<times> request_id \<Rightarrow> table \<Rightarrow> bool" where
  "spec_waiting time k t = (\<exists>d. requests t k = Some d \<and> time < d)"

text \<open>Which port a registration may be granted.\<close>

definition spec_grants :: "server_config \<Rightarrow> register_request \<Rightarrow> u16 \<Rightarrow> table \<Rightarrow> bool" where
  "spec_grants c req p t =
     (p \<noteq> sa_port (sc_listen c) \<and> 1024 \<le> p \<and>
      (if rq_requested_port req \<noteq> 0 then p = rq_requested_port req
       else if \<exists>q tn. tunnels t q = Some tn \<and> tunnel_owner tn = rq_instance_id req then
         (\<exists>tn. tunnels t p = Some tn \<and> tunnel_owner tn = rq_instance_id req)
       else tunnels t p = None \<and> fst (sc_allowed_ports c) \<le> p \<and> p \<le> snd (sc_allowed_ports c)) \<and>
      (rq_mode req = Resume \<longrightarrow>
         (\<forall>tn. tunnels t p = Some tn \<longrightarrow> tunnel_owner tn = rq_instance_id req)))"

text \<open>One move of the table, labelled with the actor's input and its reply.\<close>

inductive spec_step :: "server_config \<Rightarrow> timing \<Rightarrow> input \<Rightarrow> reply \<Rightarrow> table \<Rightarrow> table \<Rightarrow> bool"
  for c tm where
  sp_tick: "spec_step c tm (Tick time) NoReply t (spec_sweep time t)"
| sp_grant: "spec_grants c req (rn_assigned_port rn) t \<Longrightarrow>
     rn_max_connections rn = sc_max_connections c \<Longrightarrow>
     spec_step c tm (Cmd e (CmdRegister req)) (RegisterReply (Inr rn)) t
       (spec_register (rq_session_id req) (rq_instance_id req) (rn_generation rn) (rn_assigned_port rn) t)"
| sp_refuse: "spec_step c tm (Cmd e (CmdRegister req)) (RegisterReply (Inl err)) t t"
| sp_turn_away: "spec_step c tm (Cmd e (CmdAcceptedPublic lid p sock peer at)) NoReply t t"
| sp_open: "tunnels t p = Some (Live sid inst g) \<Longrightarrow> requests t (sid, rid) = None \<Longrightarrow>
     spec_step c tm (Cmd e (CmdAcceptedPublic lid p sock peer at)) NoReply t
       (t\<lparr>requests := (requests t)((sid, rid) \<mapsto> at + request_wait tm)\<rparr>)"
| sp_open_fails: "tunnels t p = Some (Live sid inst g) \<Longrightarrow>
     spec_step c tm (Cmd e (CmdAcceptedPublic lid p sock peer at)) NoReply t
       (spec_lost sid g (now e + reservation tm) t)"
| sp_claim: "spec_waiting (now e) (sid, rid) t \<Longrightarrow>
     out \<in> {Delivered, Rejected RequestUnavailable (Some sock)} \<Longrightarrow>
     spec_step c tm (Cmd e (CmdClaimData sid rid sock)) (ClaimReply out) t (spec_cancel (sid, rid) t)"
| sp_claim_late: "\<not> spec_waiting (now e) (sid, rid) t \<Longrightarrow>
     spec_step c tm (Cmd e (CmdClaimData sid rid sock))
       (ClaimReply (Rejected RequestUnavailable (Some sock))) t t"
| sp_peek: "spec_step c tm (Cmd e (CmdPeekData sid rid)) (PeekReply (spec_waiting (now e) (sid, rid) t)) t t"
| sp_open_failed: "spec_step c tm (Cmd e (CmdOpenFailed sid rid reason)) NoReply t (spec_cancel (sid, rid) t)"
| sp_finished: "spec_step c tm (Cmd e (CmdRequestFinished sid rid)) NoReply t (spec_cancel (sid, rid) t)"
| sp_lost: "spec_step c tm (Cmd e (CmdSessionLost sid g)) NoReply t
     (spec_lost sid g (now e + reservation tm) t)"
| sp_goodbye: "spec_step c tm (Cmd e (CmdGoodbye sid g)) UnitReply t (spec_goodbye sid g t)"
| sp_shutdown: "spec_step c tm (Cmd e CmdShutdown) UnitReply t
     (t\<lparr>tunnels := Map.empty, requests := Map.empty\<rparr>)"

inductive_cases spec_claim_elim: "spec_step c tm (Cmd e (CmdClaimData sid rid sock)) rep t u"
inductive_cases spec_register_elim: "spec_step c tm (Cmd e (CmdRegister req)) rep t u"

subsection \<open>Abstraction\<close>

fun abs_state :: "slot_state \<Rightarrow> tunnel" where
  "abs_state (Active s) = Live (sr_session_id s) (sr_instance_id s) (sr_generation s)"
| "abs_state (Reserved i _ e) = Held i e"

definition abs_registry :: "registry \<Rightarrow> table" where
  "abs_registry r =
     \<lparr>tunnels = (\<lambda>p. map_option (\<lambda>slot. abs_state (ps_state slot)) (mget (ports r) p)),
      requests = (\<lambda>k. map_option pr_deadline (mget (pending r) k))\<rparr>"

lemma abs_sel [simp]:
  "tunnels (abs_registry r) p = map_option (\<lambda>slot. abs_state (ps_state slot)) (mget (ports r) p)"
  "requests (abs_registry r) k = map_option pr_deadline (mget (pending r) k)"
  by (simp_all add: abs_registry_def)

lemma abs_state_Live:
  "abs_state st = Live sid inst g \<longleftrightarrow>
     (\<exists>s. st = Active s \<and> sr_session_id s = sid \<and> sr_instance_id s = inst \<and> sr_generation s = g)"
  by (cases st) auto

lemma tunnel_owner_abs [simp]: "tunnel_owner (abs_state st) = slot_owner st"
  by (cases st) simp_all

lemma table_eqI:
  "(\<And>p. tunnels t p = tunnels u p) \<Longrightarrow> (\<And>s rid. requests t (s, rid) = requests u (s, rid)) \<Longrightarrow>
   (t :: table) = u"
  by (cases t, cases u) (auto simp: fun_eq_iff)

lemma spec_live_iff:
  assumes "registry_inv r"
  shows "spec_live sid g (abs_registry r) \<longleftrightarrow>
    (\<exists>s. mget (sessions r) sid = Some s \<and> sr_generation s = g)"
proof
  assume "spec_live sid g (abs_registry r)"
  then obtain p slot s where "mget (ports r) p = Some slot" "ps_state slot = Active s"
    "sr_session_id s = sid" "sr_generation s = g"
    by (auto simp: spec_live_def abs_state_Live)
  then show "\<exists>s. mget (sessions r) sid = Some s \<and> sr_generation s = g"
    using active_session [OF assms] by blast
next
  assume "\<exists>s. mget (sessions r) sid = Some s \<and> sr_generation s = g"
  then obtain s where s: "mget (sessions r) sid = Some s" "sr_generation s = g"
    by blast
  obtain slot where "mget (ports r) (sr_port s) = Some slot" "ps_state slot = Active s" "sr_session_id s = sid"
    using assms s(1) by (rule current_slot)
  with s show "spec_live sid g (abs_registry r)"
    by (auto simp: spec_live_def intro!: exI [of _ "sr_port s"])
qed

subsection \<open>Each operation is a move of the table\<close>

lemma abs_owned:
  assumes "hm_wf (pending r)" and "mget (ports r) p = Some slot"
  shows "abs_registry (owned req p slot r) =
    spec_register (rq_session_id req) (rq_instance_id req) (next_generation r) p (abs_registry r)"
  by (rule table_eqI)
    (use assms in \<open>auto simp: spec_register_def spec_drop_def map_simps evict_pending
        split: slot_state.splits tunnel.splits elim!: abs_state.elims\<close>)

lemma abs_owned_bound:
  assumes "mget (ports r) p = None" and "mget (ports (bound env p r)) p = Some slot"
  shows "abs_registry (owned req p slot (bound env p r)) =
    spec_register (rq_session_id req) (rq_instance_id req) (next_generation r) p (abs_registry r)"
proof -
  have "ps_state slot = Reserved (replicate 16 0) 0 (now env + reservation (reg_timing r))"
    using assms(2) by (auto simp: bound_def map_simps)
  then show ?thesis
    by (intro table_eqI)
      (use assms in \<open>auto simp: spec_register_def map_simps evict_def bound_def split: if_splits\<close>)
qed

lemma abs_chosen:
  assumes "registry_inv r" and "chosen env p r r1 es" and "mget (ports r1) p = Some slot"
  shows "abs_registry (owned req p slot r1) =
    spec_register (rq_session_id req) (rq_instance_id req) (next_generation r) p (abs_registry r)"
  using assms(2,3) abs_owned [of r1 p slot] abs_owned_bound [of r p env slot] inv_wfD(3) [OF assms(1)]
  by (auto simp: chosen_def)

lemma select_port_owner:
  assumes "select_port env req r = (Inr p, r1, es)" and "rq_mode req = Resume"
    and "mget (ports r) p = Some slot"
  shows "slot_owner (ps_state slot) = rq_instance_id req"
  using assms by (auto simp: select_port_def Let_def ensure_slot_def mcontains_def
      split: if_splits option.splits prod.splits sum.splits)

lemma select_port_requested:
  assumes "select_port env req r = (Inr p, r1, es)" and "rq_requested_port req \<noteq> 0"
  shows "p = rq_requested_port req"
  using assms by (auto simp: select_port_def Let_def split: if_splits prod.splits sum.splits option.splits)

lemma find_owner:
  assumes "bt_wf (ports r)"
  shows "(find (\<lambda>(p, slot). slot_owner (ps_state slot) = inst) (ports r) = None) \<longleftrightarrow>
    \<not> (\<exists>q slot. mget (ports r) q = Some slot \<and> slot_owner (ps_state slot) = inst)"
  using bt_wf_distinct [OF assms] by (auto simp: find_None_iff mget_eq_set)

lemma select_port_automatic:
  assumes sel: "select_port env req r = (Inr p, r1, es)" and zero: "rq_requested_port req = 0"
    and fresh: "rq_mode req = Fresh" and wf: "bt_wf (ports r)"
  shows "if \<exists>q slot. mget (ports r) q = Some slot \<and> slot_owner (ps_state slot) = rq_instance_id req
    then \<exists>slot. mget (ports r) p = Some slot \<and> slot_owner (ps_state slot) = rq_instance_id req
    else mget (ports r) p = None \<and> p \<in> set (port_range (sc_allowed_ports (reg_config r)))"
proof -
  let ?P = "\<lambda>(p, slot). slot_owner (ps_state slot) = rq_instance_id req"
  have alloc: "allocate_automatic env (rq_instance_id req) r = (Inr p, r1, es)"
    using sel zero fresh by (simp add: select_port_def Let_def)
  show ?thesis
  proof (cases "find ?P (ports r)")
    case None
    then have "scan_ports env (port_range (sc_allowed_ports (reg_config r))) r = (Inr p, r1, es)"
      using alloc by (simp add: allocate_automatic_def split: if_splits)
    then show ?thesis using None find_owner [OF wf] by (auto dest: scan_ports_Inr)
  next
    case (Some qs)
    obtain q sl where qs: "qs = (q, sl)" by (cases qs)
    then have "q = p" using alloc Some by (simp add: allocate_automatic_def)
    moreover have "mget (ports r) q = Some sl \<and> slot_owner (ps_state sl) = rq_instance_id req"
      using find_port_Some [of ?P "ports r" q sl] Some qs bt_wf_distinct [OF wf] by simp
    ultimately show ?thesis by auto
  qed
qed

lemma owner_iff:
  "(\<exists>tn. tunnels (abs_registry r) q = Some tn \<and> tunnel_owner tn = inst) \<longleftrightarrow>
   (\<exists>slot. mget (ports r) q = Some slot \<and> slot_owner (ps_state slot) = inst)"
  by auto

lemma abs_grants:
  assumes sel: "select_port env req r = (Inr p, r1, es)" and inv: "registry_inv r"
    and ok: "command_ok (CmdRegister req) r"
    and port: "p \<noteq> sa_port (sc_listen (reg_config r))" "1024 \<le> p"
  shows "spec_grants (reg_config r) req p (abs_registry r)"
proof -
  have resume: "rq_mode req = Resume \<Longrightarrow>
    \<forall>tn. tunnels (abs_registry r) p = Some tn \<longrightarrow> tunnel_owner tn = rq_instance_id req"
    using select_port_owner [OF sel] by auto
  obtain a b where ab: "sc_allowed_ports (reg_config r) = (a, b)" by (cases "sc_allowed_ports (reg_config r)")
  show ?thesis
  proof (cases "rq_requested_port req = 0")
    case True
    then have "rq_mode req = Fresh" using ok by (cases "rq_mode req") auto
    then show ?thesis
      using select_port_automatic [OF sel True _ inv_wfD(1) [OF inv]] True port
      unfolding spec_grants_def owner_iff ab
      by (cases "\<exists>q slot. mget (ports r) q = Some slot \<and> slot_owner (ps_state slot) = rq_instance_id req")
        (simp_all only: if_True if_False simp_thms mode.distinct set_port_range, auto simp: set_port_range)
  next
    case False
    then show ?thesis
      using select_port_requested [OF sel False] port resume by (auto simp: spec_grants_def)
  qed
qed

lemma abs_register_step:
  assumes inv: "registry_inv r" and ok: "command_ok (CmdRegister req) r"
    and reg: "register env req r = Some (out, r', es)"
  shows "spec_step (reg_config r) (reg_timing r) (Cmd env (CmdRegister req)) (RegisterReply out)
    (abs_registry r) (abs_registry r')"
  using reg inv
proof (cases rule: register_cases)
  case refused
  then show ?thesis by (simp add: sp_refuse)
next
  case (installed p rn r1 es1 slot)
  have "p \<noteq> sa_port (sc_listen (reg_config r)) \<and> 1024 \<le> p"
    using select_port_port [OF installed(8) inv ok] installed(9) by auto
  then have "spec_grants (reg_config r) req p (abs_registry r)"
    using abs_grants [OF installed(8) inv ok] by blast
  then show ?thesis
    using sp_grant [of "reg_config r" req rn "abs_registry r" "reg_timing r" env]
      abs_chosen [OF inv installed(2,3), of req] installed(1,4,6)
    by simp
qed

text \<open>Both ways a session ends are the same move with a different fate for its tunnel.\<close>

lemma abs_end:
  assumes inv: "registry_inv r" and s: "mget (sessions r) sid = Some s"
    and ports: "\<And>p. map_option (\<lambda>slot. abs_state (ps_state slot)) (mget ps p) =
      (if p = sr_port s then becomes (sr_instance_id s)
       else map_option (\<lambda>slot. abs_state (ps_state slot)) (mget (ports r) p))"
  shows "abs_registry ((forget sid r)\<lparr>ports := ps\<rparr>) = spec_end sid becomes (abs_registry r)"
proof -
  obtain slot where slot: "mget (ports r) (sr_port s) = Some slot" "ps_state slot = Active s"
    "sr_session_id s = sid"
    using inv s by (rule current_slot)
  have other: "p = sr_port s"
    if "mget (ports r) p = Some sl" "ps_state sl = Active t" "sr_session_id t = sid" for p sl t
    using active_session [OF inv that(1,2)] that(3) s by auto
  show ?thesis
  proof (rule table_eqI, goal_cases)
    case (1 p)
    show ?case
    proof (cases "mget (ports r) p")
      case (Some sl)
      then show ?thesis
        using slot other [OF Some] by (cases "ps_state sl") (auto simp: spec_end_def ports)
    qed (use slot in \<open>auto simp: spec_end_def ports\<close>)
  next
    case (2 s rid)
    then show ?case
      using inv_wfD(3) [OF inv] by (simp add: spec_end_def spec_drop_def forget_pending)
  qed
qed

lemma abs_session_lost:
  assumes inv: "registry_inv r"
  shows "abs_registry (fst (session_lost env sid generation r)) =
    spec_lost sid generation (now env + reservation (reg_timing r)) (abs_registry r)"
proof (cases "spec_live sid generation (abs_registry r)")
  case True
  then obtain s where s: "mget (sessions r) sid = Some s" "sr_generation s = generation"
    using spec_live_iff [OF inv] by blast
  obtain slot where slot: "mget (ports r) (sr_port s) = Some slot"
    using current_slot [OF inv s(1)] by metis
  show ?thesis
    unfolding session_lost_eq [OF inv s slot] fst_conv spec_lost_def if_P [OF True]
    by (rule abs_end [OF inv s(1)]) (simp add: map_simps)
next
  case False
  then have "session_lost env sid generation r = (r, [])"
    using spec_live_iff [OF inv] by (intro session_lost_stale) blast
  with False show ?thesis by (simp add: spec_lost_def)
qed

lemma abs_goodbye:
  assumes inv: "registry_inv r"
  shows "abs_registry (fst (goodbye env sid generation r)) = spec_goodbye sid generation (abs_registry r)"
proof (cases "spec_live sid generation (abs_registry r)")
  case True
  then obtain s where s: "mget (sessions r) sid = Some s" "sr_generation s = generation"
    using spec_live_iff [OF inv] by blast
  obtain slot where slot: "mget (ports r) (sr_port s) = Some slot"
    using current_slot [OF inv s(1)] by metis
  show ?thesis
    unfolding goodbye_eq [OF inv s slot] fst_conv spec_goodbye_def if_P [OF True]
    by (rule abs_end [OF inv s(1)]) (simp add: map_simps)
next
  case False
  then have "goodbye env sid generation r = (r, [])"
    using spec_live_iff [OF inv] by (intro goodbye_stale) blast
  with False show ?thesis by (simp add: spec_goodbye_def)
qed

lemma release_ports_get:
  "mget (ports (fst (release_ports ps r))) p = (if p \<in> set ps then None else mget (ports r) p)"
  by (induction ps arbitrary: r) (auto simp: case_prod_beta map_simps split: option.splits)

lemma release_ports_frame [simp]:
  "pending (fst (release_ports ps r)) = pending r"
  "sessions (fst (release_ports ps r)) = sessions r"
  "reg_config (fst (release_ports ps r)) = reg_config r"
  "reg_timing (fst (release_ports ps r)) = reg_timing r"
  "next_generation (fst (release_ports ps r)) = next_generation r"
  by (induction ps arbitrary: r) (auto simp: case_prod_beta split: option.splits)

lemma sweep_ports:
  assumes "bt_wf (ports r)"
  shows "mget (ports (fst (sweep t r))) p =
    (case mget (ports r) p of
       None \<Rightarrow> None | Some slot \<Rightarrow> if slot_expired t (ps_state slot) then None else Some slot)"
  using bt_wf_distinct [OF assms]
  by (auto simp: sweep_def Let_def release_ports_get mget_None_iff mget_eq_set image_iff
      split: option.splits) (metis eq_key_imp_eq_value)+

lemma sweep_pending:
  assumes "hm_wf (pending r)"
  shows "mget (pending (fst (sweep t r))) k =
    (case mget (pending r) k of None \<Rightarrow> None | Some e \<Rightarrow> if pr_deadline e > t then Some e else None)"
  using assms by (simp add: sweep_def Let_def hm.get_retain)

lemma abs_sweep:
  assumes "registry_inv r"
  shows "abs_registry (fst (sweep t r)) = spec_sweep t (abs_registry r)"
proof (rule table_eqI, goal_cases)
  case (1 p)
  show ?case
  proof (cases "mget (ports r) p")
    case (Some slot)
    then show ?thesis
      by (cases "ps_state slot") (auto simp: spec_sweep_def sweep_ports inv_wfD [OF assms])
  qed (simp add: spec_sweep_def sweep_ports inv_wfD [OF assms])
next
  case (2 s rid)
  then show ?case
    by (simp add: spec_sweep_def sweep_pending inv_wfD [OF assms] split: option.splits)
qed

lemma abs_drop_request:
  "abs_registry (r\<lparr>pending := mrem k (pending r)\<rparr>) = spec_cancel k (abs_registry r)"
  by (rule table_eqI) (simp_all add: map_simps spec_cancel_def)

lemma spec_waiting_iff:
  "spec_waiting time k (abs_registry r) \<longleftrightarrow> (\<exists>e. mget (pending r) k = Some e \<and> time < pr_deadline e)"
  by (auto simp: spec_waiting_def)

lemma peek_iff: "peek env sid rid r = spec_waiting (now env) (sid, rid) (abs_registry r)"
  by (auto simp: peek_def spec_waiting_iff split: option.splits)

text \<open>Under the invariant the session and generation checks of \<open>claim\<close> never decide.\<close>

lemma claim_eq:
  assumes "registry_inv r"
  shows "claim env sid rid socket r =
    (case mget (pending r) (sid, rid) of
       Some e \<Rightarrow>
         if now env < pr_deadline e then
           (if deliver_ok env (pr_sender e)
            then (Delivered, r\<lparr>pending := mrem (sid, rid) (pending r)\<rparr>, [SocketHanded (pr_sender e) socket])
            else (Rejected RequestUnavailable (Some socket), r\<lparr>pending := mrem (sid, rid) (pending r)\<rparr>, []))
         else (Rejected RequestUnavailable (Some socket), r, [])
     | None \<Rightarrow> (Rejected RequestUnavailable (Some socket), r, []))"
proof (cases "mget (pending r) (sid, rid)")
  case (Some e)
  then obtain s where "mget (sessions r) sid = Some s" "sr_generation s = pr_generation e"
    using assms unfolding registry_inv_def inv_pending_def by blast
  with Some show ?thesis by (auto simp: claim_def Let_def)
qed (simp add: claim_def Let_def split: option.splits)

lemma abs_claim_step:
  assumes "registry_inv r" and "claim env sid rid socket r = (out, r', es)"
  shows "spec_step c tm (Cmd env (CmdClaimData sid rid socket)) (ClaimReply out)
    (abs_registry r) (abs_registry r')"
proof (cases "spec_waiting (now env) (sid, rid) (abs_registry r)")
  case True
  then have "out \<in> {Delivered, Rejected RequestUnavailable (Some socket)}
    \<and> r' = r\<lparr>pending := mrem (sid, rid) (pending r)\<rparr>"
    using assms by (auto simp: spec_waiting_iff claim_eq split: if_splits)
  then show ?thesis using sp_claim [OF True] by (simp add: abs_drop_request)
next
  case False
  then have "out = Rejected RequestUnavailable (Some socket) \<and> r' = r"
    using assms by (auto simp: spec_waiting_iff claim_eq split: option.splits if_splits)
  then show ?thesis using sp_claim_late [OF False] by simp
qed

lemma abs_add_request:
  "abs_registry (r\<lparr>pending := hm_insert k e (pending r)\<rparr>) =
     (abs_registry r)\<lparr>requests := (requests (abs_registry r))(k \<mapsto> pr_deadline e)\<rparr>"
  by (rule table_eqI) (simp_all add: map_simps)

lemma fresh_request_id_free:
  assumes ret: "fresh_request_id ds taken i = Some (Some rid)"
  shows "\<not> taken rid"
proof -
  have "case out of None \<Rightarrow> True | Some x \<Rightarrow> \<not> taken x"
    if "fresh_request_id ds taken i = Some out" for out
  proof (rule fresh_request_id.raw_induct
      [where P = "\<lambda>d tk i out. tk = taken \<longrightarrow> (case out of None \<Rightarrow> True | Some x \<Rightarrow> \<not> taken x)",
        OF _ that, THEN mp, OF _ refl], goal_cases)
    case (1 f ds' tk i' out')
    then show ?case by (auto split: sum.splits if_splits)
  qed
  from this [OF ret] show ?thesis by simp
qed

lemma accepted_public_cases:
  assumes "accepted_public env lid p socket at r = Some (r', es)"
  obtains (dropped) "r' = r" "es = [SocketDropped socket]"
  | (failed) slot s rid where "mget (ports r) p = Some slot" "ps_listener_id slot = lid"
      "ps_state slot = Active s" "\<not> send_ok env (sr_writer s) (outbound_frame Open rid)"
      "r' = fst (session_lost env (sr_session_id s) (sr_generation s) r)"
      "es = snd (session_lost env (sr_session_id s) (sr_generation s) r) @ [SocketDropped socket]"
  | (opened) slot s rid where "mget (ports r) p = Some slot" "ps_listener_id slot = lid"
      "ps_state slot = Active s" "acquire_ok env (sr_permits s)" "acquire_ok env (global_connections r)"
      "mget (pending r) (sr_session_id s, rid) = None"
      "send_ok env (sr_writer s) (outbound_frame Open rid)"
      "r' = r\<lparr>pending := hm_insert (sr_session_id s, rid)
         \<lparr>pr_generation = sr_generation s, pr_deadline = at + request_wait (reg_timing r),
          pr_sender = fresh_sender env\<rparr> (pending r)\<rparr>"
      "es = [Sent (sr_writer s) (outbound_frame Open rid),
             PublicSpawned (sr_session_id s) rid socket (at + request_wait (reg_timing r))
               (sr_data_cancel s) (fresh_sender env)]"
proof -
  show thesis
    using assms unfolding accepted_public_def Let_def
    by (auto split: option.splits slot_state.splits if_splits prod.splits
        intro: dropped failed opened dest!: fresh_request_id_free simp: mcontains_def)
qed

lemma abs_accept_step:
  assumes inv: "registry_inv r" and acc: "accepted_public env lid p socket at r = Some (r', es)"
  shows "spec_step c (reg_timing r) (Cmd env (CmdAcceptedPublic lid p socket peer at)) NoReply
    (abs_registry r) (abs_registry r')"
  using acc
proof (cases rule: accepted_public_cases)
  case dropped
  then show ?thesis by (simp add: sp_turn_away)
next
  case (failed slot s rid)
  then have "tunnels (abs_registry r) p = Some (Live (sr_session_id s) (sr_instance_id s) (sr_generation s))"
    by simp
  then show ?thesis unfolding failed(5) abs_session_lost [OF inv] by (rule sp_open_fails)
next
  case (opened slot s rid)
  then have "tunnels (abs_registry r) p = Some (Live (sr_session_id s) (sr_instance_id s) (sr_generation s))"
    and "requests (abs_registry r) (sr_session_id s, rid) = None"
    by simp_all
  then show ?thesis unfolding opened(8) abs_add_request pending_request.select_convs by (rule sp_open)
qed

lemma abs_shutdown:
  "abs_registry (fst (shutdown_all env r)) =
     (abs_registry r)\<lparr>tunnels := Map.empty, requests := Map.empty\<rparr>"
  by (rule table_eqI) (simp_all add: shutdown_all_def)

lemma handle_command_simulates:
  assumes inv: "registry_inv r" and ok: "command_ok c r"
    and h: "handle_command env c r = Some (rep, stop, r', es)"
  shows "spec_step (reg_config r) (reg_timing r) (Cmd env c) rep (abs_registry r) (abs_registry r')"
proof (cases c)
  case (CmdRegister req)
  with h obtain out where "register env req r = Some (out, r', es)" "rep = RegisterReply out"
    by (auto split: option.splits)
  with CmdRegister ok show ?thesis using abs_register_step [OF inv] by simp
next
  case (CmdAcceptedPublic lid p socket peer at)
  with h show ?thesis by (auto intro: abs_accept_step [OF inv] split: option.splits)
next
  case (CmdClaimData sid rid socket)
  with h show ?thesis by (auto intro: abs_claim_step [OF inv] split: prod.splits)
next
  case (CmdSessionLost sid g)
  with h show ?thesis
    using sp_lost abs_session_lost [OF inv, of env sid g] by (auto split: prod.splits)
next
  case (CmdGoodbye sid g)
  with h show ?thesis
    using sp_goodbye abs_goodbye [OF inv, of env sid g] by (auto split: prod.splits)
next
  case CmdShutdown
  with h show ?thesis
    using sp_shutdown abs_shutdown [of env r] by (auto split: prod.splits)
qed (use h sp_open_failed sp_finished sp_peek in \<open>auto simp: abs_drop_request peek_iff\<close>)

end
