(* ===== verification/Registry_Props.thy ===== *)
theory Registry_Props
  imports Registry_Spec
begin

text \<open>
  The properties of the registry actor: reachability invariant, refinement of the tunnel table,
  and what a rejected claim may consume. The first section holds the concrete server the witnesses run on.
\<close>

subsection \<open>A concrete server\<close>

definition demo_config :: server_config where
  "demo_config =
     \<lparr>sc_key = ''secret'', sc_listen = \<lparr>sa_ip = V4 0, sa_port = 4000\<rparr>, sc_data_bind = V4 0,
      sc_allowed_ports = (5000, 5002), sc_max_connections = 256, sc_log_level = LevelInfo,
      sc_quiet = False\<rparr>"

definition demo_env :: env where
  "demo_env =
     \<lparr>now = 1000, bind_outcome = (\<lambda>_ _. Inr ()), send_ok = (\<lambda>_ _. True), acquire_ok = (\<lambda>_. True),
      draws = (\<lambda>n. Inr (replicate 16 (of_nat n))), deliver_ok = (\<lambda>_. True), fresh_token = 70,
      fresh_sender = 90\<rparr>"

definition demo_request :: "u8 \<Rightarrow> u8 \<Rightarrow> mode \<Rightarrow> u16 \<Rightarrow> register_request" where
  "demo_request sid inst m p =
     \<lparr>rq_session_id = replicate 16 sid, rq_instance_id = replicate 16 inst, rq_mode = m,
      rq_requested_port = p, rq_writer = 1, rq_data_cancel = 2, rq_control_cancel = 3\<rparr>"

definition demo_start :: registry where
  "demo_start = registry_new demo_config timing_default"

definition demo_session :: session_ref where
  "demo_session =
     \<lparr>sr_session_id = replicate 16 1, sr_instance_id = replicate 16 2, sr_generation = 1,
      sr_port = 4555, sr_writer = 1, sr_data_cancel = 2, sr_control_cancel = 3,
      sr_permits = SessionPermits 1 256\<rparr>"

text \<open>Instance 2 holds port 4555 with session 1, and one connection waits for its data socket.\<close>

definition demo_slot :: port_slot where
  "demo_slot = \<lparr>ps_listener_id = 1, ps_listener_cancel = 70, ps_state = Active demo_session\<rparr>"

definition demo_active :: registry where
  "demo_active =
     \<lparr>reg_config = demo_config, reg_timing = timing_default, ports = [(4555, demo_slot)],
      sessions = [(replicate 16 1, demo_session)], pending = [],
      global_connections = GlobalPermits 8192, next_generation = 2, next_listener_id = 2\<rparr>"

definition demo_waiting :: registry where
  "demo_waiting =
     demo_active\<lparr>pending := [((replicate 16 1, replicate 16 0),
        \<lparr>pr_generation = 1, pr_deadline = 11000, pr_sender = 90\<rparr>)]\<rparr>"

lemmas demo_defs = demo_config_def demo_env_def demo_request_def demo_start_def demo_session_def
  demo_slot_def demo_active_def demo_waiting_def registry_new_def timing_default_def from_secs_def
  from_millis_def MAX_SLOTS_def MAX_GLOBAL_CONNECTIONS_def

lemma demo_config_wf [simp]: "wf_server_config demo_config"
  by (simp add: wf_server_config_def demo_config_def)

lemma demo_register:
  "register demo_env (demo_request 1 2 Fresh 4555) demo_start =
     Some (Inr \<lparr>rn_assigned_port = 4555, rn_max_connections = 256, rn_generation = 1\<rparr>,
       demo_active, [ListenerSpawned 1 4555 70])"
  by (simp add: registry_defs demo_defs mcontains_def hm_insert_def mrem_def Let_def)

lemma demo_accept:
  "accepted_public demo_env 1 4555 42 1000 demo_active =
     Some (demo_waiting, [Sent 1 (outbound_frame Open (replicate 16 0)),
       PublicSpawned (replicate 16 1) (replicate 16 0) 42 11000 2 90])"
  by (simp add: registry_defs demo_defs mcontains_def hm_insert_def mrem_def Let_def
      fresh_request_id.simps)

lemma demo_active_reachable: "registry_reachable demo_config timing_default demo_active"
proof -
  have "registry_step (Cmd demo_env (CmdRegister (demo_request 1 2 Fresh 4555))) demo_start = Some demo_active"
    by (simp add: registry_step_def demo_register)
  moreover have "input_ok (Cmd demo_env (CmdRegister (demo_request 1 2 Fresh 4555))) demo_start"
    by (simp add: demo_defs)
  ultimately show ?thesis
    unfolding registry_reachable_def demo_start_def [symmetric] by (intro reach_one)
qed

lemma demo_waiting_reachable: "registry_reachable demo_config timing_default demo_waiting"
proof -
  have step: "registry_step (Cmd demo_env (CmdAcceptedPublic 1 4555 42 \<lparr>sa_ip = V4 1, sa_port = 9\<rparr> 1000))
      demo_active = Some demo_waiting"
    by (simp add: registry_step_def demo_accept)
  show ?thesis
    unfolding registry_reachable_def
    by (rule reach_step [OF demo_active_reachable [unfolded registry_reachable_def] _ step]) simp
qed

lemma demo_inv [simp]: "registry_inv demo_active" "registry_inv demo_waiting"
  using reachable_inv [OF demo_config_wf] demo_active_reachable demo_waiting_reachable by blast+

subsection \<open>Invariant and refinement\<close>

text \<open>
  C1. In every state the actor reaches, from its start, by sweeps and by commands whose registrations
  carry a fresh session identifier and a decoded port, the tables agree: the sessions are exactly the
  owners of active slots, requests belong to current sessions, generations and listener identifiers
  are below their counters and listener identifiers are unique, at most 1024 ports are held and none
  of them is privileged or the control port.
\<close>

theorem reachable_registry_inv:
  assumes "wf_server_config c" and "registry_reachable c t r"
  shows "registry_inv r"
  using assms by (rule reachable_inv)

theorem reachable_registry_inv_witness:
  "wf_server_config demo_config \<and> registry_reachable demo_config timing_default demo_waiting \<and>
   registry_inv demo_waiting \<and> pending demo_waiting \<noteq> []"
  using reachable_registry_inv [OF demo_config_wf demo_waiting_reachable] demo_waiting_reachable
  by (simp add: demo_waiting_def)

text \<open>
  C2. The actor refines the tunnel table: whatever command it handles in a reachable state, the
  abstract table makes the move with the same label. In particular a registration is granted the port
  it names, or one its instance already owns, or a free one of the range, a resume never takes a port
  another instance owns, and a claim succeeds only for a waiting, unexpired request.
\<close>

theorem registry_refines_table:
  assumes "wf_server_config c" and "registry_reachable c tm r" and "command_ok cmd r"
    and "handle_command env cmd r = Some (rep, stop, r', es)"
  shows "spec_step (reg_config r) (reg_timing r) (Cmd env cmd) rep (abs_registry r) (abs_registry r')"
  using reachable_inv [OF assms(1,2)] assms(3,4) by (rule handle_command_simulates)

theorem registry_refines_table_witness:
  "spec_step demo_config timing_default
     (Cmd demo_env (CmdClaimData (replicate 16 1) (replicate 16 0) 43)) (ClaimReply Delivered)
     (abs_registry demo_waiting) (abs_registry demo_active)"
proof -
  have "handle_command demo_env (CmdClaimData (replicate 16 1) (replicate 16 0) 43) demo_waiting =
      Some (ClaimReply Delivered, False, demo_active, [SocketHanded 90 43])"
    by (simp add: claim_def demo_defs mrem_def)
  from registry_refines_table [OF demo_config_wf demo_waiting_reachable _ this] show ?thesis
    by (simp add: demo_waiting_def demo_active_def)
qed

subsection \<open>Claims\<close>

text \<open>
  A claim that is refused for any other reason than a vanished waiting task leaves the registry
  untouched: no unknown session, no unknown identifier and no expired deadline consumes a request.
\<close>

theorem refused_claim_keeps_request:
  assumes "claim env sid rid socket r = (Rejected c socket', r', es)"
    and "\<And>e. mget (pending r) (sid, rid) = Some e \<Longrightarrow> deliver_ok env (pr_sender e)"
  shows "r' = r \<and> es = [] \<and> c = RequestUnavailable \<and> socket' = Some socket"
  using assms by (auto simp: claim_def Let_def split: option.splits if_splits)

theorem refused_claim_keeps_request_witness:
  "claim (demo_env\<lparr>now := 11000\<rparr>) (replicate 16 1) (replicate 16 0) 43 demo_waiting =
     (Rejected RequestUnavailable (Some 43), demo_waiting, [])"
proof -
  let ?env = "demo_env\<lparr>now := 11000\<rparr>"
  obtain c s r' es where
    c: "claim ?env (replicate 16 1) (replicate 16 0) 43 demo_waiting = (Rejected c s, r', es)"
    by (simp add: claim_def demo_defs)
  have "r' = demo_waiting \<and> es = [] \<and> c = RequestUnavailable \<and> s = Some 43"
    by (rule refused_claim_keeps_request [OF c]) (simp add: demo_env_def)
  with c show ?thesis by simp
qed

text \<open>
  C40. The defect behind the comment of \<open>ClaimOutcome::Rejected\<close> ("the request was not consumed"):
  when the task that waits for the socket is gone, the claim is rejected although its request has
  been removed.
\<close>

theorem rejected_claim_may_consume:
  assumes inv: "registry_inv r" and "mget (pending r) (sid, rid) = Some e"
    and "now env < pr_deadline e" and "\<not> deliver_ok env (pr_sender e)"
  shows "\<exists>r'. claim env sid rid socket r = (Rejected RequestUnavailable (Some socket), r', []) \<and>
    mget (pending r') (sid, rid) = None"
  using assms by (simp add: claim_eq [OF inv] map_simps)

theorem rejected_claim_may_consume_witness:
  "\<exists>r'. claim (demo_env\<lparr>deliver_ok := \<lambda>_. False\<rparr>) (replicate 16 1) (replicate 16 0) 43 demo_waiting =
     (Rejected RequestUnavailable (Some 43), r', []) \<and> mget (pending r') (replicate 16 1, replicate 16 0) = None"
  by (rule rejected_claim_may_consume [where e = "\<lparr>pr_generation = 1, pr_deadline = 11000, pr_sender = 90\<rparr>"])
    (rule demo_inv(2), simp_all add: demo_waiting_def demo_env_def)

end
