(* ===== verification/Registry_Lifecycle.thy ===== *)
theory Registry_Lifecycle
  imports Registry_Props
begin

text \<open>
  The life of a tunnel in the registry: a registration takes a port or is refused, a later one takes
  it over, a lost session leaves a reservation that the same instance resumes or that the sweep
  releases, and the automatic choice of a port.
\<close>

subsection \<open>Replacement\<close>

lemma requested_select:
  assumes "rq_mode req = Fresh" and "rq_requested_port req = p" and "p \<noteq> 0"
    and "mget (ports r) p = Some slot"
  shows "select_port env req r = (Inr p, r, [])"
  using assms by (simp add: select_port_def ensure_slot_def mcontains_def Let_def)

lemma register_held:
  assumes sel: "select_port env req r = (Inr p, r, [])" and slot: "mget (ports r) p = Some slot"
    and port: "rq_requested_port req \<noteq> 0 \<Longrightarrow> rq_requested_port req \<noteq> sa_port (sc_listen (reg_config r))"
    and gen: "next_generation r \<noteq> - 1"
  shows "register env req r =
    Some (Inr \<lparr>rn_assigned_port = p, rn_max_connections = sc_max_connections (reg_config r),
               rn_generation = next_generation r\<rparr>,
      owned req p slot r, evict_effects env (ps_state slot) r)"
proof -
  have "install env req p r =
    Some (\<lparr>rn_assigned_port = p, rn_max_connections = sc_max_connections (reg_config r),
           rn_generation = next_generation r\<rparr>, owned req p slot r, evict_effects env (ps_state slot) r)"
    using gen slot by (simp add: install_Some)
  then show ?thesis using sel port by (auto simp: register_def)
qed

text \<open>
  C8. A fresh registration of a port that another session holds takes it over. The old session and
  all its requests are gone, its data streams are cancelled at once, it is sent REPLACED and asked to
  close, and its control connection is cancelled after the flush delay; the listener and the other
  ports, sessions and requests stay as they are. Late reports of the old session change nothing.
\<close>

theorem takeover:
  assumes inv: "registry_inv r" and ok: "command_ok (CmdRegister req) r"
    and slot: "mget (ports r) p = Some slot" "ps_state slot = Active old"
    and req: "rq_mode req = Fresh" "rq_requested_port req = p"
    and gen: "next_generation r \<noteq> - 1"
  shows "\<exists>r'. register env req r =
      Some (Inr \<lparr>rn_assigned_port = p, rn_max_connections = sc_max_connections (reg_config r),
                 rn_generation = next_generation r\<rparr>, r',
        [CancelToken (sr_data_cancel old)] @ try_send env (sr_writer old) (outbound_error Replaced) @
        try_send env (sr_writer old) CloseAfterFlush @
        [DelayedCancel (takeover_flush (reg_timing r)) (sr_control_cancel old)]) \<and>
    mget (ports r') p = Some (slot\<lparr>ps_state := Active (new_session req p r)\<rparr>) \<and>
    mget (sessions r') (rq_session_id req) = Some (new_session req p r) \<and>
    mget (sessions r') (sr_session_id old) = None \<and>
    (\<forall>rid. mget (pending r') (sr_session_id old, rid) = None) \<and>
    (\<forall>q. q \<noteq> p \<longrightarrow> mget (ports r') q = mget (ports r) q) \<and>
    (\<forall>sid. sid \<noteq> sr_session_id old \<longrightarrow> sid \<noteq> rq_session_id req \<longrightarrow>
       mget (sessions r') sid = mget (sessions r) sid) \<and>
    (\<forall>sid rid. sid \<noteq> sr_session_id old \<longrightarrow> mget (pending r') (sid, rid) = mget (pending r) (sid, rid)) \<and>
    (\<forall>env' g. session_lost env' (sr_session_id old) g r' = (r', []) \<and>
              goodbye env' (sr_session_id old) g r' = (r', []))"
proof -
  have p: "p \<noteq> 0" "p \<noteq> sa_port (sc_listen (reg_config r))"
    using inv slot(1) by (auto simp: registry_inv_def inv_ports_def)
  have old: "mget (sessions r) (sr_session_id old) = Some old"
    using active_session [OF inv slot] by simp
  then have new: "rq_session_id req \<noteq> sr_session_id old" using ok by auto
  let ?r' = "owned req p slot r"
  have reg: "register env req r =
      Some (Inr \<lparr>rn_assigned_port = p, rn_max_connections = sc_max_connections (reg_config r),
                 rn_generation = next_generation r\<rparr>, ?r', evict_effects env (ps_state slot) r)"
    using requested_select [OF req p(1) slot(1)] slot(1) p(2) req(2) gen by (intro register_held) auto
  have gone: "mget (sessions ?r') (sr_session_id old) = None"
    using new slot(2) by (simp add: map_simps evict_sessions)
  have stale: "session_lost env' (sr_session_id old) g ?r' = (?r', [])"
    "goodbye env' (sr_session_id old) g ?r' = (?r', [])" for env' g
    using gone by (auto intro!: session_lost_stale goodbye_stale)
  show ?thesis
    using reg gone stale slot(2) inv_wfD(3) [OF inv] old
    by (intro exI [of _ ?r'])
      (auto simp: map_simps evict_sessions evict_pending evict_effects_def displace_def)
qed

theorem takeover_witness:
  "\<exists>r'. register demo_env (demo_request 7 8 Fresh 4555) demo_active =
      Some (Inr \<lparr>rn_assigned_port = 4555, rn_max_connections = 256, rn_generation = 2\<rparr>, r',
        [CancelToken 2, Sent 1 (outbound_error Replaced), Sent 1 CloseAfterFlush, DelayedCancel 1000 3]) \<and>
    mget (sessions r') (replicate 16 1) = None"
proof -
  have cfg: "sc_max_connections (reg_config demo_active) = 256" "next_generation demo_active = 2"
    "takeover_flush (reg_timing demo_active) = 1000"
    by (simp_all add: demo_active_def demo_config_def timing_default_def from_secs_def from_millis_def)
  have "try_send demo_env w m = [Sent w m]" for w m by (simp add: try_send_def demo_env_def)
  moreover have "sr_data_cancel demo_session = 2" "sr_writer demo_session = 1"
    "sr_control_cancel demo_session = 3" "sr_session_id demo_session = replicate 16 1"
    by (simp_all add: demo_session_def)
  moreover have "mget (ports demo_active) 4555 = Some demo_slot" "ps_state demo_slot = Active demo_session"
    by (simp_all add: demo_active_def demo_slot_def)
  moreover have "command_ok (CmdRegister (demo_request 7 8 Fresh 4555)) demo_active"
    "rq_mode (demo_request 7 8 Fresh 4555) = Fresh" "rq_requested_port (demo_request 7 8 Fresh 4555) = 4555"
    by (simp_all add: demo_active_def demo_request_def)
  ultimately show ?thesis
    using takeover [OF demo_inv(1), of "demo_request 7 8 Fresh 4555" 4555 demo_slot demo_session demo_env]
    by (auto simp: cfg)
qed

text \<open>
  A resume never takes a port from another instance, whether it is active or reserved: it is
  refused with REPLACED and nothing changes.
\<close>

theorem resume_needs_ownership:
  assumes inv: "registry_inv r" and slot: "mget (ports r) (rq_requested_port req) = Some slot"
    and "rq_mode req = Resume" and "slot_owner (ps_state slot) \<noteq> rq_instance_id req"
  shows "register env req r = Some (Inl Replaced, r, [])"
proof -
  have "rq_requested_port req \<noteq> sa_port (sc_listen (reg_config r))"
    using inv slot by (auto simp: registry_inv_def inv_ports_def)
  then show ?thesis using assms by (simp add: register_def select_port_def Let_def)
qed

theorem resume_needs_ownership_witness:
  "register demo_env (demo_request 7 8 Resume 4555) demo_active = Some (Inl Replaced, demo_active, [])"
  by (rule resume_needs_ownership [where slot = demo_slot])
    (rule demo_inv(1), simp_all add: demo_active_def demo_request_def demo_slot_def demo_session_def)

subsection \<open>Losing and resuming a session\<close>

text \<open>
  C11. A lost session can be resumed: losing the current session of a port keeps the port and its
  listener reserved for the instance until \<open>reservation\<close> later, drops the requests and cancels the
  streams; while the slot is there, a resume by the same instance is granted the same port with a new
  generation, without a new listener and without displacing anybody.
\<close>

theorem lost_session_resumes:
  assumes inv: "registry_inv r" and s: "mget (sessions r) sid = Some s"
    and req: "rq_mode req = Resume" "rq_requested_port req = sr_port s" "rq_instance_id req = sr_instance_id s"
    and gen: "next_generation r \<noteq> - 1"
  shows "\<exists>r1 slot. session_lost env sid (sr_generation s) r =
      (r1, [CancelToken (sr_data_cancel s), CancelToken (sr_control_cancel s)]) \<and>
    mget (ports r) (sr_port s) = Some slot \<and>
    mget (ports r1) (sr_port s) = Some (slot\<lparr>ps_state := Reserved (sr_instance_id s) (sr_generation s)
      (now env + reservation (reg_timing r))\<rparr>) \<and>
    (\<forall>rid. mget (pending r1) (sid, rid) = None) \<and>
    (\<exists>r2. register env' req r1 =
       Some (Inr \<lparr>rn_assigned_port = sr_port s, rn_max_connections = sc_max_connections (reg_config r),
                  rn_generation = next_generation r\<rparr>, r2, []) \<and>
     mget (ports r2) (sr_port s) = Some (slot\<lparr>ps_state := Active (new_session req (sr_port s) r)\<rparr>))"
proof -
  obtain slot where slot: "mget (ports r) (sr_port s) = Some slot"
    using current_slot [OF inv s] by metis
  let ?held = "slot\<lparr>ps_state := Reserved (sr_instance_id s) (sr_generation s)
      (now env + reservation (reg_timing r))\<rparr>"
  let ?r1 = "(forget sid r)\<lparr>ports := bt_insert (sr_port s) ?held (ports r)\<rparr>"
  have lost: "session_lost env sid (sr_generation s) r =
      (?r1, [CancelToken (sr_data_cancel s), CancelToken (sr_control_cancel s)])"
    by (rule session_lost_eq [OF inv s refl slot])
  have held: "mget (ports ?r1) (sr_port s) = Some ?held" by (simp add: map_simps)
  have port: "sr_port s \<noteq> sa_port (sc_listen (reg_config r))"
    using inv slot by (auto simp: registry_inv_def inv_ports_def)
  have "select_port env' req ?r1 = (Inr (sr_port s), ?r1, [])"
    using req held by (simp add: select_port_def Let_def)
  then have "register env' req ?r1 =
      Some (Inr \<lparr>rn_assigned_port = sr_port s, rn_max_connections = sc_max_connections (reg_config ?r1),
                 rn_generation = next_generation ?r1\<rparr>,
        owned req (sr_port s) ?held ?r1, evict_effects env' (ps_state ?held) ?r1)"
    using held port req(2) gen by (intro register_held) simp_all
  then show ?thesis
    using lost slot held inv_wfD(3) [OF inv]
    by (intro exI [of _ ?r1] exI [of _ slot])
      (simp add: evict_effects_def forget_pending map_simps new_session_def)
qed

theorem lost_session_resumes_witness:
  "\<exists>r1 r2. session_lost demo_env (replicate 16 1) 1 demo_waiting = (r1, [CancelToken 2, CancelToken 3]) \<and>
     mget (pending r1) (replicate 16 1, replicate 16 0) = None \<and>
     register demo_env (demo_request 9 2 Resume 4555) r1 =
       Some (Inr \<lparr>rn_assigned_port = 4555, rn_max_connections = 256, rn_generation = 2\<rparr>, r2, [])"
proof -
  have facts: "mget (sessions demo_waiting) (replicate 16 1) = Some demo_session"
    "next_generation demo_waiting = 2" "sc_max_connections (reg_config demo_waiting) = 256"
    by (simp_all add: demo_waiting_def demo_active_def demo_config_def)
  have sess: "sr_port demo_session = 4555" "sr_generation demo_session = 1" "sr_data_cancel demo_session = 2"
    "sr_control_cancel demo_session = 3" "sr_instance_id demo_session = replicate 16 2"
    by (simp_all add: demo_session_def)
  have req: "rq_mode (demo_request 9 2 Resume 4555) = Resume"
    "rq_requested_port (demo_request 9 2 Resume 4555) = sr_port demo_session"
    "rq_instance_id (demo_request 9 2 Resume 4555) = sr_instance_id demo_session"
    by (simp_all add: demo_request_def sess)
  show ?thesis
    using lost_session_resumes [OF demo_inv(2) facts(1) req, of demo_env demo_env]
    by (auto simp: facts(2,3) sess)
qed

lemma release_ports_effects:
  assumes "distinct ps" and "\<forall>p \<in> set ps. mget (ports r) p \<noteq> None"
  shows "snd (release_ports ps r) = map (\<lambda>p. CancelToken (ps_listener_cancel (the (mget (ports r) p)))) ps"
  using assms
proof (induction ps arbitrary: r)
  case (Cons p ps)
  then obtain slot where slot: "mget (ports r) p = Some slot" by auto
  let ?r1 = "r\<lparr>ports := mrem p (ports r)\<rparr>"
  have "snd (release_ports ps ?r1) = map (\<lambda>p. CancelToken (ps_listener_cancel (the (mget (ports ?r1) p)))) ps"
    using Cons.prems by (intro Cons.IH) (auto simp: map_simps)
  also have "\<dots> = map (\<lambda>p. CancelToken (ps_listener_cancel (the (mget (ports r) p)))) ps"
    using Cons.prems by (auto simp: map_simps)
  finally show ?case using slot by (simp add: case_prod_beta)
qed simp

lemma sweep_effects:
  assumes wf: "bt_wf (ports r)"
  shows "snd (sweep t r) =
    map (\<lambda>(p, slot). CancelToken (ps_listener_cancel slot))
      (filter (\<lambda>(p, slot). slot_expired t (ps_state slot)) (ports r))"
proof -
  let ?r1 = "r\<lparr>pending := mretain (\<lambda>_ entry. pr_deadline entry > t) (pending r)\<rparr>"
  let ?old = "filter (\<lambda>(p, slot). slot_expired t (ps_state slot)) (ports r)"
  have d: "distinct (map fst (ports r))" using wf by (rule bt_wf_distinct)
  have get: "mget (ports r) p = Some slot" if "(p, slot) \<in> set ?old" for p slot
    using that d by (auto simp: mget_eq_set)
  have "snd (release_ports (map fst ?old) ?r1) =
    map (\<lambda>p. CancelToken (ps_listener_cancel (the (mget (ports ?r1) p)))) (map fst ?old)"
    using d get by (intro release_ports_effects) (auto simp: distinct_map_filter)
  also have "\<dots> = map (\<lambda>(p, slot). CancelToken (ps_listener_cancel slot)) ?old"
    using get by auto
  finally show ?thesis by (simp add: sweep_def Let_def)
qed

text \<open>
  C12. The sweep removes exactly what is overdue: a request stays iff its deadline lies ahead, a port
  stays iff it is active or its reservation lies ahead, the sessions are untouched, and exactly the
  listeners of the released ports are cancelled, in the order of the ports.
\<close>

theorem sweep_exact:
  assumes inv: "registry_inv r"
  shows "(\<forall>k. mget (pending (fst (sweep t r))) k =
      (case mget (pending r) k of None \<Rightarrow> None | Some e \<Rightarrow> if t < pr_deadline e then Some e else None)) \<and>
    (\<forall>p. mget (ports (fst (sweep t r))) p =
      (case mget (ports r) p of
         None \<Rightarrow> None
       | Some slot \<Rightarrow>
           (case ps_state slot of
              Active _ \<Rightarrow> Some slot
            | Reserved _ _ expires_at \<Rightarrow> if t < expires_at then Some slot else None))) \<and>
    sessions (fst (sweep t r)) = sessions r \<and>
    snd (sweep t r) = map (\<lambda>(p, slot). CancelToken (ps_listener_cancel slot))
      (filter (\<lambda>(p, slot). mget (ports (fst (sweep t r))) p = None) (ports r))"
proof -
  have wf: "bt_wf (ports r)" "hm_wf (pending r)" using inv_wfD [OF inv] by simp_all
  have "(case mget (ports r) p of None \<Rightarrow> None
         | Some slot \<Rightarrow> if slot_expired t (ps_state slot) then None else Some slot) =
      (case mget (ports r) p of None \<Rightarrow> None
         | Some slot \<Rightarrow> (case ps_state slot of Active _ \<Rightarrow> Some slot
            | Reserved _ _ expires_at \<Rightarrow> if t < expires_at then Some slot else None))" for p
    by (auto split: option.splits slot_state.splits)
  moreover have "sessions (fst (sweep t r)) = sessions r" by (simp add: sweep_def Let_def)
  moreover have "filter (\<lambda>(p, slot). slot_expired t (ps_state slot)) (ports r) =
      filter (\<lambda>(p, slot). mget (ports (fst (sweep t r))) p = None) (ports r)"
  proof (intro filter_cong refl, clarify)
    fix p slot
    assume "(p, slot) \<in> set (ports r)"
    then have "mget (ports r) p = Some slot" using bt_wf_distinct [OF wf(1)] by (simp add: mget_eq_set)
    then show "slot_expired t (ps_state slot) = (mget (ports (fst (sweep t r))) p = None)"
      by (simp add: sweep_ports [OF wf(1)])
  qed
  ultimately show ?thesis
    using sweep_ports [OF wf(1)] sweep_pending [OF wf(2)] sweep_effects [OF wf(1)] by simp
qed

theorem sweep_exact_witness:
  "mget (ports (fst (sweep 301000 (fst (session_lost demo_env (replicate 16 1) 1 demo_active))))) 4555 = None \<and>
   mget (ports (fst (sweep 300999 (fst (session_lost demo_env (replicate 16 1) 1 demo_active))))) 4555 \<noteq> None"
proof -
  let ?r = "fst (session_lost demo_env (replicate 16 1) 1 demo_active)"
  have inv: "registry_inv ?r" by (rule inv_session_lost [OF demo_inv(1)])
  have slot: "mget (ports ?r) 4555 = Some (demo_slot\<lparr>ps_state := Reserved (replicate 16 2) 1 301000\<rparr>)"
    by (simp add: registry_defs demo_defs mrem_def Let_def)
  show ?thesis
    using sweep_exact [OF inv, of 301000] sweep_exact [OF inv, of 300999] slot by simp
qed

subsection \<open>Automatic allocation\<close>

text \<open>
  The ports that end the scan: neither the control port nor held, and not taken by another program
  (the bind does not fail with \<open>AddrInUse\<close> or \<open>PermissionDenied\<close>; it may fail otherwise).
\<close>

definition port_candidate :: "env \<Rightarrow> registry \<Rightarrow> u16 \<Rightarrow> bool" where
  "port_candidate env r p =
     (p \<noteq> sa_port (sc_listen (reg_config r)) \<and> mget (ports r) p = None \<and>
      (case bind_outcome env (sc_data_bind (reg_config r)) p of Inl e \<Rightarrow> \<not> is_port_taken e | Inr _ \<Rightarrow> True))"

lemma scan_ports_eq:
  "scan_ports env ps r =
     (case find (port_candidate env r) ps of
        None \<Rightarrow> (Inl NoPortAvailable, r, [])
      | Some p \<Rightarrow>
          if bindable env r p
          then (Inr p, bound env p r, [ListenerSpawned (next_listener_id r) p (fresh_token env)])
          else (Inl InternalError, r, []))"
  by (induction ps)
    (auto simp: scan_ports_Cons port_candidate_def mcontains_def simp del: scan_ports.simps(2)
      split: option.splits sum.splits)

lemma find_port_range:
  assumes "find P (port_range (a, b)) = Some p"
  shows "a \<le> p \<and> p \<le> b \<and> P p \<and> (\<forall>q. a \<le> q \<longrightarrow> q < p \<longrightarrow> \<not> P q)"
proof -

  obtain i where i: "i < length (port_range (a, b))" "P (port_range (a, b) ! i)" "p = port_range (a, b) ! i"
    and first: "\<forall>j<i. \<not> P (port_range (a, b) ! j)"
    using assms by (auto simp: find_Some_iff)
  have len: "i < Suc (unat b) - unat a" using i(1) by (simp add: port_range_def del: upt_Suc)
  have nth: "port_range (a, b) ! j = of_nat (unat a + j)" if "j < Suc (unat b) - unat a" for j
    using that by (simp add: port_range_def del: upt_Suc of_nat_add)
  have "unat a + i < 2 ^ LENGTH(16)"
    using len unsigned_less [of b, where 'a = nat] by simp
  then have up: "unat p = unat a + i"
    using i(3) nth [OF len] by (simp add: unat_of_nat take_bit_nat_eq_self del: of_nat_add)
  have "\<not> P q" if q: "a \<le> q" "q < p" for q
  proof -
    have n: "unat a \<le> unat q" "unat q < unat p" using q by (simp_all add: word_le_nat_alt word_less_nat_alt)
    then have j: "unat q - unat a < i" using up by simp
    moreover have "port_range (a, b) ! (unat q - unat a) = q"
      using nth [of "unat q - unat a"] j len n(1) by (simp del: of_nat_add)
    ultimately show ?thesis using first by auto
  qed
  then show ?thesis using i(2,3) up len by (auto simp: word_le_nat_alt)
qed

definition owns :: "registry \<Rightarrow> instance_id \<Rightarrow> u16 \<Rightarrow> bool" where
  "owns r inst p = (\<exists>slot. mget (ports r) p = Some slot \<and> slot_owner (ps_state slot) = inst)"

definition lowest :: "(u16 \<Rightarrow> bool) \<Rightarrow> u16 \<Rightarrow> bool" where
  "lowest P p = (P p \<and> (\<forall>q. P q \<longrightarrow> p \<le> q))"

lemma find_lowest_key:
  assumes "bt_wf m" and "find P m = Some (k, v)" and "(k', v') \<in> set m" and "P (k', v')"
  shows "k \<le> k'"
  using assms
proof (induction m)
  case (Cons x m)
  then show ?case by (cases x) (auto simp: bt_wf_def split: if_splits intro: less_imp_le)
qed simp

lemma find_owned:
  assumes wf: "bt_wf (ports r)"
    and find: "find (\<lambda>(p, slot). slot_owner (ps_state slot) = inst) (ports r) = Some (p, slot)"
  shows "lowest (owns r inst) p"
proof -
  let ?P = "\<lambda>(p, slot). slot_owner (ps_state slot) = inst"
  have "owns r inst p"
    using find_port_Some [of ?P "ports r" p slot] find bt_wf_distinct [OF wf] by (auto simp: owns_def)
  moreover have "p \<le> q" if "owns r inst q" for q
    using that find_lowest_key [OF wf find] by (auto simp: owns_def dest: mget_in_set)
  ultimately show ?thesis by (simp add: lowest_def)
qed

text \<open>
  C21. Automatic allocation, completely. An instance that owns ports gets the lowest of them, without any
  change. Otherwise the answer is SERVER-BUSY if the table is full; it is NO-PORT-AVAILABLE if every port
  of the allowed range is the control port, held or taken by another program; and else the lowest port
  of the range that is none of these decides: it is bound and its listener started, or, if the bind
  fails for another reason, the scan stops there with INTERNAL-ERROR. A refusal changes nothing.
\<close>

theorem automatic_allocation_lowest:
  assumes inv: "registry_inv r" and range: "sc_allowed_ports (reg_config r) = (a, b)"
  shows "if \<exists>p. owns r inst p then \<exists>p. lowest (owns r inst) p \<and> allocate_automatic env inst r = (Inr p, r, [])
    else if length (ports r) \<ge> MAX_SLOTS then allocate_automatic env inst r = (Inl ServerBusy, r, [])
    else if \<forall>p. \<not> (a \<le> p \<and> p \<le> b \<and> port_candidate env r p)
    then allocate_automatic env inst r = (Inl NoPortAvailable, r, [])
    else \<exists>p. lowest (\<lambda>p. a \<le> p \<and> p \<le> b \<and> port_candidate env r p) p \<and>
      allocate_automatic env inst r =
        (if bindable env r p
         then (Inr p, bound env p r, [ListenerSpawned (next_listener_id r) p (fresh_token env)])
         else (Inl InternalError, r, []))"
proof (cases "\<exists>p. owns r inst p")
  case True
  let ?P = "\<lambda>(p, slot). slot_owner (ps_state slot) = inst"
  obtain p slot where f: "find ?P (ports r) = Some (p, slot)"
    using find_owner [OF inv_wfD(1) [OF inv], of inst] True by (auto simp: owns_def)
  then have "allocate_automatic env inst r = (Inr p, r, [])" by (simp add: allocate_automatic_def)
  then show ?thesis using True find_owned [OF inv_wfD(1) [OF inv] f] by auto
next
  case False
  let ?C = "\<lambda>p. a \<le> p \<and> p \<le> b \<and> port_candidate env r p"
  have no_owner: "find (\<lambda>(p, slot). slot_owner (ps_state slot) = inst) (ports r) = None"
    using find_owner [OF inv_wfD(1) [OF inv]] False by (auto simp: owns_def)
  have eq: "allocate_automatic env inst r = (if length (ports r) \<ge> MAX_SLOTS then (Inl ServerBusy, r, [])
      else scan_ports env (port_range (a, b)) r)"
    using no_owner by (simp add: allocate_automatic_def range)
  show ?thesis
  proof (cases "find (port_candidate env r) (port_range (a, b))")
    case None
    then have "\<forall>p. \<not> ?C p" using set_port_range [of _ a b] by (auto simp: find_None_iff)
    then show ?thesis using None False by (simp add: eq scan_ports_eq)
  next
    case (Some p)
    from find_port_range [OF this] have "lowest ?C p" by (auto simp: lowest_def not_less [symmetric])
    moreover from this have "\<not> (\<forall>p. \<not> ?C p)" by (auto simp: lowest_def)
    ultimately show ?thesis using Some False by (auto simp: eq scan_ports_eq)
  qed
qed

theorem automatic_allocation_lowest_witness:
  "\<exists>p. lowest (\<lambda>p. 5000 \<le> p \<and> p \<le> 5002 \<and> port_candidate demo_env demo_active p) p \<and>
     fst (allocate_automatic demo_env (replicate 16 5) demo_active) = Inr p"
proof -
  have range: "sc_allowed_ports (reg_config demo_active) = (5000, 5002)"
    by (simp add: demo_active_def demo_config_def)
  have none: "\<not> (\<exists>p. owns demo_active (replicate 16 5) p)"
    by (simp add: owns_def demo_active_def demo_slot_def demo_session_def)
  have room: "\<not> length (ports demo_active) \<ge> MAX_SLOTS" by (simp add: demo_active_def MAX_SLOTS_def)
  have "(5000 :: u16) \<le> 5000 \<and> (5000 :: u16) \<le> 5002 \<and> port_candidate demo_env demo_active 5000"
    by (simp add: port_candidate_def demo_active_def demo_config_def demo_env_def)
  then have some: "\<not> (\<forall>p. \<not> ((5000 :: u16) \<le> p \<and> p \<le> 5002 \<and> port_candidate demo_env demo_active p))" by blast
  have bind: "bind_outcome demo_env (sc_data_bind (reg_config demo_active)) p = Inr ()" for p by (simp add: demo_env_def)
  show ?thesis
    using automatic_allocation_lowest [OF demo_inv(1) range, of "replicate 16 5" demo_env]
    unfolding if_not_P [OF none] if_not_P [OF room] if_not_P [OF some] by (auto simp: bind)
qed

end
