(* ===== verification/Registry_Progress.thy ===== *)
theory Registry_Progress
  imports Registry_Lifecycle
begin

text \<open>
  Progress and history of the registry actor: where requests come from, that each is claimed
  at most once, when a command is answered,
  that generations are never handed out twice, and what a shutdown leaves behind.
\<close>

subsection \<open>Requests\<close>

lemma forget_pending_sub:
  "hm_wf (pending r) \<Longrightarrow> mget (pending (forget sid r)) k = Some e \<Longrightarrow> mget (pending r) k = Some e"
  by (cases k) (simp add: forget_pending split: if_splits)

lemma evict_pending_sub:
  "hm_wf (pending r) \<Longrightarrow> mget (pending (evict st r)) k = Some e \<Longrightarrow> mget (pending r) k = Some e"
  by (auto simp: evict_def forget_pending_sub split: slot_state.splits)

lemma session_end_pending:
  "pending (fst (session_lost env sid g r)) \<in> {pending r, pending (forget sid r)}"
  "pending (fst (goodbye env sid g r)) \<in> {pending r, pending (forget sid r)}"
  by (auto simp: session_lost_def goodbye_def Let_def forget_def [symmetric] split: option.splits slot_state.splits)

lemma pending_mono:
  assumes inv: "registry_inv r" and h: "handle_command env c r = Some (rep, stop, r', es)"
    and no: "\<forall>lid p socket peer at. c \<noteq> CmdAcceptedPublic lid p socket peer at"
    and k: "mget (pending r') k = Some e"
  shows "mget (pending r) k = Some e"
proof (cases c)
  case (CmdRegister req)
  with h obtain out where "register env req r = Some (out, r', es)" by (auto split: option.splits)
  then show ?thesis
    using inv
  proof (cases rule: register_cases)
    case (installed p rn r1 es1 slot)
    then have "pending r1 = pending r" by (auto simp: chosen_def)
    moreover have "mget (pending (evict (ps_state slot) r1)) k = Some e" using k installed(4) by simp
    ultimately show ?thesis using evict_pending_sub [of r1] inv_wfD(3) [OF inv] by simp
  qed (use k in auto)
next
  case (CmdSessionLost sid g)
  with h k show ?thesis
    using session_end_pending(1) [of env sid g r] forget_pending_sub [OF inv_wfD(3) [OF inv], of sid k e]
    by (auto split: prod.splits)
next
  case (CmdGoodbye sid g)
  with h k show ?thesis
    using session_end_pending(2) [of env sid g r] forget_pending_sub [OF inv_wfD(3) [OF inv], of sid k e]
    by (auto split: prod.splits)
next
  case (CmdClaimData sid rid socket)
  with h k show ?thesis
    by (auto simp: claim_def Let_def hm.rem_Some split: option.splits if_splits)
qed (use h k no in \<open>auto simp: shutdown_all_def hm.rem_Some\<close>)

text \<open>What a request that was not in the table before came from.\<close>

lemma new_request:
  assumes inv: "registry_inv r" and h: "handle_command env c r = Some (rep, stop, r', es)"
    and new: "mget (pending r') (sid, rid) = Some e" "mget (pending r) (sid, rid) = None"
  shows "\<exists>p slot s socket peer at. c = CmdAcceptedPublic (ps_listener_id slot) p socket peer at \<and>
    mget (ports r) p = Some slot \<and> ps_state slot = Active s \<and> sr_session_id s = sid \<and>
    mget (sessions r) sid = Some s \<and>
    acquire_ok env (sr_permits s) \<and> acquire_ok env (global_connections r) \<and>
    pr_generation e = sr_generation s \<and> pr_deadline e = at + request_wait (reg_timing r) \<and>
    es = [Sent (sr_writer s) (outbound_frame Open rid),
          PublicSpawned sid rid socket (pr_deadline e) (sr_data_cancel s) (pr_sender e)]"
proof -
  obtain lid p socket peer at where c: "c = CmdAcceptedPublic lid p socket peer at"
    using pending_mono [OF inv h _ new(1)] new(2) by (metis option.distinct(1))
  then have "accepted_public env lid p socket at r = Some (r', es)" using h by (auto split: option.splits)
  then show ?thesis
  proof (cases rule: accepted_public_cases)
    case dropped
    with new show ?thesis by simp
  next
    case (failed slot s rid')
    then show ?thesis
      using new session_end_pending(1) [of env "sr_session_id s" "sr_generation s" r]
        forget_pending_sub [OF inv_wfD(3) [OF inv]] by fastforce
  next
    case (opened slot s rid')
    have "sid = sr_session_id s \<and> rid = rid'"
      using new opened(8) by (simp add: map_simps split: if_splits)
    then show ?thesis
      using opened new c active_session [OF inv opened(1,3)]
      by (intro exI [of _ p] exI [of _ slot] exI [of _ s] exI [of _ socket] exI [of _ peer] exI [of _ at])
        (auto simp: map_simps)
  qed
qed

text \<open>
  C10. A request appears in the table only because a connection was accepted on the current listener
  of an active port, with a permit of the session and one of the server, and then the owner of that
  port is sent OPEN with the identifier of the request, which was not in use.
\<close>

theorem request_origin:
  assumes inv: "registry_inv r" and h: "handle_command env c r = Some (rep, stop, r', es)"
    and new: "mget (pending r') (sid, rid) = Some e" "mget (pending r) (sid, rid) = None"
  shows "\<exists>p slot s socket peer at. c = CmdAcceptedPublic (ps_listener_id slot) p socket peer at \<and>
    mget (ports r) p = Some slot \<and> ps_state slot = Active s \<and> sr_session_id s = sid \<and>
    mget (sessions r) sid = Some s \<and>
    acquire_ok env (sr_permits s) \<and> acquire_ok env (global_connections r) \<and>
    pr_generation e = sr_generation s \<and> pr_deadline e = at + request_wait (reg_timing r) \<and>
    es = [Sent (sr_writer s) (outbound_frame Open rid),
          PublicSpawned sid rid socket (pr_deadline e) (sr_data_cancel s) (pr_sender e)]"
  using assms by (rule new_request)

theorem request_origin_witness:
  "\<exists>s. mget (sessions demo_active) (replicate 16 1) = Some s \<and>
     acquire_ok demo_env (sr_permits s) \<and> sr_writer s = 1"
proof -
  let ?c = "CmdAcceptedPublic 1 4555 42 \<lparr>sa_ip = V4 1, sa_port = 9\<rparr> 1000"
  have "handle_command demo_env ?c demo_active = Some (NoReply, False, demo_waiting,
      [Sent 1 (outbound_frame Open (replicate 16 0)),
       PublicSpawned (replicate 16 1) (replicate 16 0) 42 11000 2 90])"
    by (simp add: demo_accept)
  from request_origin [OF demo_inv(1) this, of "replicate 16 1" "replicate 16 0"
      "\<lparr>pr_generation = 1, pr_deadline = 11000, pr_sender = 90\<rparr>"]
  show ?thesis by (auto simp: demo_waiting_def demo_active_def)
qed

subsection \<open>Claims\<close>

text \<open>
  Over a run of the actor: how often a claim of a request was delivered, and how often the request was
  opened, that is, OPEN was sent for it and the task of its public connection started.
\<close>

fun delivered :: "session_id \<Rightarrow> request_id \<Rightarrow> command \<Rightarrow> reply \<Rightarrow> bool" where
  "delivered sid rid (CmdClaimData s q socket) rep = (s = sid \<and> q = rid \<and> rep = ClaimReply Delivered)"
| "delivered sid rid _ rep = False"

fun deliveries :: "session_id \<Rightarrow> request_id \<Rightarrow> input list \<Rightarrow> reply list \<Rightarrow> nat" where
  "deliveries sid rid (Tick t # is) reps = deliveries sid rid is reps"
| "deliveries sid rid (Cmd env c # is) (rep # reps) =
     of_bool (delivered sid rid c rep) + deliveries sid rid is reps"
| "deliveries sid rid _ _ = 0"

lemma deliveries_Nil [simp]: "deliveries sid rid is [] = 0"
proof (induction "is")
  case (Cons i "is")
  then show ?case by (cases i) simp_all
qed simp

definition openings :: "session_id \<Rightarrow> request_id \<Rightarrow> effect list \<Rightarrow> nat" where
  "openings sid rid es =
     length (filter (\<lambda>e. case e of PublicSpawned s q _ _ _ _ \<Rightarrow> s = sid \<and> q = rid | _ \<Rightarrow> False) es)"

lemma openings_append [simp]: "openings sid rid (es @ es') = openings sid rid es + openings sid rid es'"
  by (simp add: openings_def)

definition waits :: "session_id \<Rightarrow> request_id \<Rightarrow> registry \<Rightarrow> nat" where
  "waits sid rid r = of_bool (mget (pending r) (sid, rid) \<noteq> None)"

text \<open>One opening makes at most one delivery possible: the balance of one command, and of a run.\<close>

lemma waits_command:
  assumes inv: "registry_inv r" and h: "handle_command env c r = Some (rep, stop, r', es)"
  shows "of_bool (delivered sid rid c rep) + waits sid rid r' \<le> openings sid rid es + waits sid rid r"
proof (cases "delivered sid rid c rep")
  case True
  then obtain socket where c: "c = CmdClaimData sid rid socket" "rep = ClaimReply Delivered"
    by (auto elim: delivered.elims)
  then have "claim env sid rid socket r = (Delivered, r', es)" using h by (simp split: prod.splits)
  then have "waits sid rid r = 1" "waits sid rid r' = 0"
    using claim_eq [OF inv] by (auto simp: waits_def map_simps split: option.splits if_splits)
  then show ?thesis using True by simp
next
  case False
  have "1 \<le> openings sid rid es" if "mget (pending r') (sid, rid) = Some e" "mget (pending r) (sid, rid) = None" for e
    using new_request [OF inv h that] by (auto simp: openings_def)
  then show ?thesis using False by (fastforce simp: waits_def)
qed

lemma waits_sweep: "registry_inv r \<Longrightarrow> waits sid rid (fst (sweep t r)) \<le> waits sid rid r"
  using sweep_pending [OF inv_wfD(3)] by (auto simp: waits_def split: option.splits)

lemma run_balance:
  assumes "run_loop is r = Some (reps, r', es)" and "registry_inv r" and "all_ok registry_step input_ok is r"
  shows "deliveries sid rid is reps + waits sid rid r' \<le> openings sid rid es + waits sid rid r"
  using assms
proof (induction "is" arbitrary: r reps es)
  case (Cons i "is")
  show ?case
  proof (cases i)
    case (Tick t)
    obtain r1 es1 where sw: "sweep t r = (r1, es1)" by fastforce
    obtain es2 where run: "run_loop is r1 = Some (reps, r', es2)" "es = es1 @ es2"
      using Cons.prems(1) Tick sw by auto
    have "registry_step i r = Some r1" using Tick sw by (simp add: registry_step_def)
    then have "registry_inv r1" "all_ok registry_step input_ok is r1"
      using Cons.prems(2,3) registry_step_inv by auto
    from Cons.IH [OF run(1) this] waits_sweep [OF Cons.prems(2), of sid rid t] show ?thesis
      using Tick sw run(2) by simp
  next
    case (Cmd env c)
    obtain rep stop r1 es1 where h: "handle_command env c r = Some (rep, stop, r1, es1)"
      using Cons.prems(1) Cmd by (auto split: option.splits)
    note one = waits_command [OF Cons.prems(2) h, of sid rid]
    show ?thesis
    proof (cases stop)
      case True
      then have "reps = [rep]" "r' = r1" "es = es1" using Cons.prems(1) Cmd h by auto
      then show ?thesis using one Cmd by simp
    next
      case False
      then obtain reps2 es2 where run: "run_loop is r1 = Some (reps2, r', es2)" "reps = rep # reps2" "es = es1 @ es2"
        using Cons.prems(1) Cmd h by auto
      have "registry_step i r = Some r1" using Cmd h by (simp add: registry_step_def)
      then have "registry_inv r1" "all_ok registry_step input_ok is r1"
        using Cons.prems(2,3) registry_step_inv by auto
      from Cons.IH [OF run(1) this] one show ?thesis using Cmd run(2,3) by simp
    qed
  qed
qed simp

text \<open>
  C3. A request is claimed at most once. A claim is delivered exactly when the request is pending, its
  deadline lies ahead and the waiting task is still there, and then its socket goes to that task. From
  then on, in every further run of the actor, whatever sweeps and legal commands it handles, the same
  session and request identifiers are delivered at most as often as a request with them is opened
  anew: until OPEN is sent for a new public connection that happens to draw the identifier again, every
  claim is refused, the first time and ever after.
\<close>

theorem claim_exactly_once:
  assumes inv: "registry_inv r"
  shows "(\<forall>r' es. claim env sid rid socket r = (Delivered, r', es) \<longleftrightarrow>
      (\<exists>e. mget (pending r) (sid, rid) = Some e \<and> now env < pr_deadline e \<and> deliver_ok env (pr_sender e) \<and>
         r' = r\<lparr>pending := mrem (sid, rid) (pending r)\<rparr> \<and> es = [SocketHanded (pr_sender e) socket])) \<and>
    (\<forall>r' es. claim env sid rid socket r = (Delivered, r', es) \<longrightarrow>
      (\<forall>env' socket'. claim env' sid rid socket' r' = (Rejected RequestUnavailable (Some socket'), r', [])) \<and>
      (\<forall>is reps r'' es'. run_loop is r' = Some (reps, r'', es') \<longrightarrow> all_ok registry_step input_ok is r' \<longrightarrow>
         deliveries sid rid is reps \<le> openings sid rid es'))"
proof (intro conjI allI impI)
  show "claim env sid rid socket r = (Delivered, r', es) \<longleftrightarrow>
      (\<exists>e. mget (pending r) (sid, rid) = Some e \<and> now env < pr_deadline e \<and> deliver_ok env (pr_sender e) \<and>
         r' = r\<lparr>pending := mrem (sid, rid) (pending r)\<rparr> \<and> es = [SocketHanded (pr_sender e) socket])" for r' es
    using inv by (auto simp: claim_eq split: option.splits if_splits)
next
  fix r' es
  assume d: "claim env sid rid socket r = (Delivered, r', es)"
  then have gone: "mget (pending r') (sid, rid) = None"
    using inv by (auto simp: claim_eq map_simps split: option.splits if_splits)
  have inv': "registry_inv r'" using inv d by (rule inv_claim)
  show "claim env' sid rid socket' r' = (Rejected RequestUnavailable (Some socket'), r', [])" for env' socket'
    using gone inv' by (simp add: claim_eq)
  show "deliveries sid rid is reps \<le> openings sid rid es'"
    if "run_loop is r' = Some (reps, r'', es')" "all_ok registry_step input_ok is r'" for "is" reps r'' es'
    using run_balance [OF that(1) inv' that(2), of sid rid] gone by (simp add: waits_def)
qed

text \<open>The delivered request is claimed again, in vain.\<close>

theorem claim_exactly_once_witness:
  "\<exists>reps r' es. run_loop [Tick 5, Cmd demo_env (CmdClaimData (replicate 16 1) (replicate 16 0) 44)] demo_active =
     Some (reps, r', es) \<and>
   deliveries (replicate 16 1) (replicate 16 0)
     [Tick 5, Cmd demo_env (CmdClaimData (replicate 16 1) (replicate 16 0) 44)] reps = 0"
proof -
  let ?sid = "replicate 16 1 :: bytes" and ?rid = "replicate 16 0 :: bytes"
  let ?is = "[Tick 5, Cmd demo_env (CmdClaimData ?sid ?rid 44)]"
  have d: "claim demo_env ?sid ?rid 43 demo_waiting = (Delivered, demo_active, [SocketHanded 90 43])"
    by (simp add: claim_def demo_defs mrem_def)
  have "sweep 5 demo_active = (demo_active, [])" by (simp add: sweep_def demo_defs mretain_def)
  moreover have "claim demo_env ?sid ?rid 44 demo_active = (Rejected RequestUnavailable (Some 44), demo_active, [])"
    by (simp add: claim_def demo_defs)
  ultimately have run: "run_loop ?is demo_active =
      Some ([ClaimReply (Rejected RequestUnavailable (Some 44))], demo_active, [])"
    by simp
  have "all_ok registry_step input_ok ?is demo_active" by (simp split: option.splits)
  with claim_exactly_once [OF demo_inv(2)] d run
  have "deliveries ?sid ?rid ?is [ClaimReply (Rejected RequestUnavailable (Some 44))] \<le> openings ?sid ?rid []" by blast
  then have "deliveries ?sid ?rid ?is [ClaimReply (Rejected RequestUnavailable (Some 44))] = 0"
    by (simp add: openings_def)
  with run show ?thesis by blast
qed

subsection \<open>Every command is answered\<close>

lemma fresh_request_id_returns:
  assumes "\<not> (case random (ds (i + n)) of Inl _ \<Rightarrow> False | Inr rid \<Rightarrow> taken rid)"
  shows "\<exists>out. fresh_request_id ds taken i = Some out"
  using assms
proof (induction n arbitrary: i)
  case 0
  then show ?case by (subst fresh_request_id.simps) (auto split: sum.splits)
next
  case (Suc n)
  then have "\<exists>out. fresh_request_id ds taken (Suc i) = Some out" by simp
  then show ?case by (subst fresh_request_id.simps) (auto split: sum.splits)
qed

text \<open>
  Pigeonhole: a session has at most as many pending requests as the table has entries, so among one
  more distinct draws one is free.
\<close>

lemma free_draw:
  assumes dist: "inj_on (\<lambda>i. random (ds i)) {..length m}"
  shows "\<exists>i \<le> length m. \<not> (case random (ds i) of Inl _ \<Rightarrow> False | Inr rid \<Rightarrow> mcontains m (sid, rid))"
proof (rule ccontr)
  assume none: "\<not> ?thesis"
  let ?f = "\<lambda>i. random (ds i)"
  have "?f i \<in> (\<lambda>k. Inr (snd k)) ` fst ` set m" if i: "i \<le> length m" for i
  proof -
    obtain rid where rid: "random (ds i) = Inr rid" "mcontains m (sid, rid)"
      using none i by (cases "random (ds i)") fastforce+
    then have "(sid, rid) \<in> fst ` set m" by (simp add: mcontains_def mget_None_iff)
    then show ?thesis unfolding rid(1) by (rule rev_image_eqI) simp
  qed
  then have "?f ` {..length m} \<subseteq> (\<lambda>k. Inr (snd k)) ` fst ` set m" by auto
  then have "card (?f ` {..length m}) \<le> card ((\<lambda>k. Inr (snd k) :: (app_error, bytes) result) ` fst ` set m)"
    by (intro card_mono) auto
  also have "\<dots> \<le> length m"
    by (metis (no_types, lifting) card_image_le card_length finite_imageI finite_set le_trans)
  finally show False using card_image [OF dist] by simp
qed

lemma register_returns:
  assumes inv: "registry_inv r" and gen: "next_generation r \<noteq> - 1"
  shows "\<exists>out r' es. register env req r = Some (out, r', es)"
proof -
  obtain sel r1 es where sel: "select_port env req r = (sel, r1, es)" by (cases "select_port env req r")
  show ?thesis
  proof (cases sel)
    case (Inr p)
    have ch: "chosen env p r r1 es"
      using select_port_Inr [OF sel [unfolded Inr] inv_wfD(1) [OF inv]] .
    then obtain slot where "mget (ports r1) p = Some slot"
      by (auto simp: chosen_def mcontains_iff bound_def map_simps)
    moreover have "next_generation r1 = next_generation r" using ch by (auto simp: chosen_def)
    ultimately have "\<exists>rn r2 es2. install env req p r1 = Some (rn, r2, es2)"
      using gen by (simp add: install_Some)
    then show ?thesis using sel Inr by (auto simp: register_def)
  qed (use sel in \<open>simp add: register_def\<close>)
qed

lemma accepted_public_returns:
  assumes "inj_on (\<lambda>i. random (draws env i)) {..length (pending r)}"
  shows "\<exists>r' es. accepted_public env lid p socket at r = Some (r', es)"
proof -
  have "\<exists>out. fresh_request_id (draws env) (\<lambda>rid. mcontains (pending r) (sid, rid)) 0 = Some out" for sid
    using free_draw [OF assms, of sid] fresh_request_id_returns [where ds = "draws env" and i = 0] by auto
  then show ?thesis
    by (auto simp: accepted_public_def Let_def split: option.splits slot_state.splits prod.splits)
      (metis option.distinct(1))
qed

text \<open>
  C19. The actor answers every command: if the 64-bit generation counter is not at its end and
  the first draws of the entropy source, one more than there are pending requests, are all different,
  no command panics or loops, in whatever state with the invariant it arrives.
\<close>

theorem command_answered:
  assumes "registry_inv r" and "next_generation r \<noteq> - 1"
    and "inj_on (\<lambda>i. random (draws env i)) {..length (pending r)}"
  shows "\<exists>rep stop r' es. handle_command env c r = Some (rep, stop, r', es)"
proof (cases c)
  case (CmdRegister req)
  then show ?thesis using register_returns [OF assms(1,2), of env req] by auto
next
  case (CmdAcceptedPublic lid p socket peer at)
  then show ?thesis using accepted_public_returns [OF assms(3), of lid p socket at] by auto
qed (auto split: prod.splits)

theorem command_answered_witness:
  "\<exists>rep stop r' es. handle_command demo_env (CmdRegister (demo_request 7 8 Fresh 0)) demo_waiting =
     Some (rep, stop, r', es)"
proof (rule command_answered)
  show "inj_on (\<lambda>i. random (draws demo_env i)) {..length (pending demo_waiting)}"
    by (auto simp: inj_on_def demo_env_def demo_waiting_def le_Suc_eq)
qed (rule demo_inv(2), simp add: demo_waiting_def demo_active_def)

subsection \<open>Generations\<close>

lemma step_generation:
  assumes "registry_inv r" and "input_ok i r" and "registry_step i r = Some r'"
  shows "unat (next_generation r) \<le> unat (next_generation r')"
proof -
  have end': "session_lost env sid g r = (r1, es) \<Longrightarrow> next_generation r1 = next_generation r"
    "goodbye env sid g r = (r1, es) \<Longrightarrow> next_generation r1 = next_generation r" for env sid g r1 es
    by (auto simp: session_lost_def goodbye_def drop_pending_for_def Let_def
        split: option.splits slot_state.splits if_splits)
  have reg: "unat (next_generation r) \<le> unat (next_generation r1)"
    if "register env req r = Some (out, r1, es)" for env req out r1 es
    using that assms(1)
  proof (cases rule: register_cases)
    case (installed p rn r2 es1 slot)
    then have "next_generation r1 = next_generation r + 1" by (auto simp: chosen_def)
    then show ?thesis using unat_next [OF installed(7)] by simp
  qed simp
  have acc: "next_generation r1 = next_generation r"
    if "accepted_public env lid p socket at r = Some (r1, es)" for env lid p socket at r1 es
    using that end' [OF surjective_pairing] by (cases rule: accepted_public_cases) simp_all
  show ?thesis
  proof (cases i)
    case (Tick t)
    then show ?thesis using assms(3) by (auto simp: registry_step_def sweep_def Let_def)
  next
    case (Cmd env c)
    then obtain rep stop es where h: "handle_command env c r = Some (rep, stop, r', es)"
      using assms(3) by (auto simp: registry_step_def)
    then show ?thesis
      by (cases c) (auto simp: claim_def shutdown_all_def Let_def dest: reg acc end'
          split: option.splits prod.splits if_splits)
  qed
qed

interpretation registry_generations:
  monotone_machine registry_step input_ok registry_inv "\<lambda>r. unat (next_generation r)"
  by unfold_locales (rule step_generation)

text \<open>
  Two registrations in the life of a server never get the same generation: whatever happens
  between them, the later one is strictly larger, so that a report about an old session can always be
  told from one about the current session.
\<close>

theorem generations_strictly_increase:
  assumes inv: "registry_inv r" and ok: "command_ok (CmdRegister req) r"
    and first: "register env req r = Some (Inr rn, r1, es)"
    and run: "reach registry_step input_ok r1 r2"
    and later: "register env' req' r2 = Some (Inr rn', r3, es')"
  shows "unat (rn_generation rn) < unat (rn_generation rn')"
proof -
  have inv1: "registry_inv r1" using inv ok first by (rule inv_register)
  then have inv2: "registry_inv r2" using registry_machine.reach_inv [OF run] by simp
  have "rn_generation rn = next_generation r \<and> unat (next_generation r1) = Suc (unat (next_generation r))"
    using first inv
  proof (cases rule: register_cases)
    case (installed p rn r2 es1 slot)
    then have "next_generation r1 = next_generation r + 1" by (auto simp: chosen_def)
    then show ?thesis using unat_next [OF installed(7)] installed(1,6) by simp
  qed simp
  moreover have "rn_generation rn' = next_generation r2"
    using later inv2 by (cases rule: register_cases) simp_all
  ultimately show ?thesis using registry_generations.reach_mono [OF run inv1] by simp
qed

theorem generations_strictly_increase_witness:
  "\<exists>rn' r3 es'. register demo_env (demo_request 7 8 Fresh 4555) demo_waiting = Some (Inr rn', r3, es') \<and>
     unat (1 :: u64) < unat (rn_generation rn')"
proof -
  have inv0: "registry_inv demo_start" unfolding demo_start_def by (rule inv_new) simp
  have ok0: "command_ok (CmdRegister (demo_request 1 2 Fresh 4555)) demo_start"
    by (simp add: demo_defs)
  let ?i = "Cmd demo_env (CmdAcceptedPublic 1 4555 42 \<lparr>sa_ip = V4 1, sa_port = 9\<rparr> 1000)"
  have run: "reach registry_step input_ok demo_active demo_waiting"
    by (rule reach_one [of input_ok ?i]) (simp_all add: registry_step_def demo_accept)
  obtain out r3 es' where later:
    "register demo_env (demo_request 7 8 Fresh 4555) demo_waiting = Some (out, r3, es')"
    using register_returns [OF demo_inv(2), of demo_env "demo_request 7 8 Fresh 4555"]
    by (auto simp: demo_waiting_def demo_active_def)
  have "select_port demo_env (demo_request 7 8 Fresh 4555) demo_waiting = (Inr 4555, demo_waiting, [])"
    by (rule requested_select [where slot = demo_slot])
      (simp_all add: demo_request_def demo_waiting_def demo_active_def)
  then obtain rn' where "out = Inr rn'"
    using later by (auto simp: register_def demo_request_def demo_waiting_def demo_active_def demo_config_def
        split: option.splits if_splits)
  then show ?thesis
    using generations_strictly_increase [OF inv0 ok0 demo_register run] later by fastforce
qed

subsection \<open>Shutdown\<close>

fun is_shutdown :: "input \<Rightarrow> bool" where
  "is_shutdown (Cmd _ CmdShutdown) = True"
| "is_shutdown _ = False"

lemma handle_stop_iff:
  "handle_command env c r = Some (rep, stop, r', es) \<Longrightarrow> stop \<longleftrightarrow> c = CmdShutdown"
  by (cases c) (auto split: option.splits prod.splits)

lemma run_loop_append:
  assumes "run_loop is r = Some (reps, r1, es)" and "\<forall>i \<in> set is. \<not> is_shutdown i"
  shows "run_loop (is @ js) r = map_option (\<lambda>(reps', r2, es'). (reps @ reps', r2, es @ es')) (run_loop js r1)"
  using assms
proof (induction "is" arbitrary: r reps es)
  case Nil
  then show ?case by (simp add: option.map_ident case_prod_beta)
next
  case (Cons i "is")
  show ?case
  proof (cases i)
    case (Tick t)
    obtain ra ea where sw: "sweep t r = (ra, ea)" by (cases "sweep t r")
    then obtain eb where "run_loop is ra = Some (reps, r1, eb)" "es = ea @ eb" using Cons.prems Tick by auto
    then show ?thesis using Cons sw Tick by (simp add: option.map_comp comp_def case_prod_beta)
  next
    case (Cmd env c)
    then have "c \<noteq> CmdShutdown" using Cons.prems by auto
    then obtain rep ra ea where h: "handle_command env c r = Some (rep, False, ra, ea)"
      using Cons.prems Cmd handle_stop_iff [of env c r] by (auto split: option.splits if_splits)
    then obtain rb eb where "run_loop is ra = Some (rb, r1, eb)" "es = ea @ eb" "reps = rep # rb"
      using Cons.prems Cmd by auto
    then show ?thesis using Cons h Cmd by (simp add: option.map_comp comp_def case_prod_beta)
  qed
qed

lemma shutdown_all_silent: "shutdown_all env (fst (shutdown_all env' r)) = (fst (shutdown_all env' r), [])"
  by (simp add: shutdown_all_def mvalues_def)

text \<open>
  C20. A shutdown command ends the actor with everything released: the tables are empty, every
  session's streams and every listener are cancelled, each session is told (as far as its queue has
  room), what was queued behind the command is not handled, and the clean-up after the loop adds
  nothing more.
\<close>

theorem shutdown_releases_everything:
  assumes run: "run_loop is r = Some (reps, r1, es)" and go: "\<forall>i \<in> set is. \<not> is_shutdown i"
  shows "\<exists>r2 es2. registry_run final (is @ Cmd env CmdShutdown # rest) r =
      Some (reps @ [UnitReply], r2, es @ es2) \<and>
    ports r2 = [] \<and> sessions r2 = [] \<and> pending r2 = [] \<and>
    (\<forall>(sid, s) \<in> set (sessions r1). CancelToken (sr_data_cancel s) \<in> set es2 \<and>
       (send_ok env (sr_writer s) (outbound_frame ServerShutdown []) \<longrightarrow>
          Sent (sr_writer s) (outbound_frame ServerShutdown []) \<in> set es2)) \<and>
    (\<forall>(p, slot) \<in> set (ports r1). CancelToken (ps_listener_cancel slot) \<in> set es2)"
proof -
  let ?sd = "shutdown_all env r1"
  have "run_loop (is @ Cmd env CmdShutdown # rest) r = Some (reps @ [UnitReply], fst ?sd, es @ snd ?sd)"
    using run_loop_append [OF run go] by (simp add: case_prod_beta)
  then have "registry_run final (is @ Cmd env CmdShutdown # rest) r =
      Some (reps @ [UnitReply], fst ?sd, es @ snd ?sd)"
    by (simp add: registry_run_def shutdown_all_silent)
  then show ?thesis
    by (intro exI [of _ "fst ?sd"] exI [of _ "snd ?sd"])
      (force simp: shutdown_all_def mvalues_def try_send_def)
qed

theorem shutdown_releases_everything_witness:
  "\<exists>r2 es2. registry_run demo_env [Tick 5, Cmd demo_env CmdShutdown, Tick 7] demo_active =
      Some ([UnitReply], r2, es2) \<and> ports r2 = [] \<and> CancelToken 2 \<in> set es2 \<and> CancelToken 70 \<in> set es2"
proof -
  have "sweep 5 demo_active = (demo_active, [])"
    by (simp add: sweep_def demo_active_def demo_slot_def demo_session_def mretain_def)
  then have run: "run_loop [Tick 5] demo_active = Some ([], demo_active, [])" by simp
  have "(replicate 16 1, demo_session) \<in> set (sessions demo_active)" "(4555, demo_slot) \<in> set (ports demo_active)"
    "sr_data_cancel demo_session = 2" "ps_listener_cancel demo_slot = 70"
    by (simp_all add: demo_active_def demo_session_def demo_slot_def)
  then show ?thesis
    using shutdown_releases_everything [OF run, of demo_env demo_env "[Tick 7]"] by fastforce
qed

end
