(* ===== verification/Server_Props.thy ===== *)
theory Server_Props
  imports Server_Run Session_Props Data_Props Registry_Progress
begin

text \<open>
  Properties of the server as a whole: the supervisor's permits and the interleaving of the registry
  actor with the handler that announces a registration.
\<close>

subsection \<open>Handshake permits\<close>

definition supervisor_inv :: "supervisor \<Rightarrow> bool" where
  "supervisor_inv s =
     (su_permits s + length (su_tasks s) = MAX_HANDSHAKES \<and> distinct (map ct_id (su_tasks s)) \<and>
      (\<forall>t \<in> set (su_tasks s). ct_id t < su_next s))"

lemma filter_one_out:
  assumes "distinct (map f xs)" and "i \<in> f ` set xs"
  shows "Suc (length (filter (\<lambda>x. f x \<noteq> i) xs)) = length xs"
  using assms
proof (induction xs)
  case (Cons x xs)
  show ?case
  proof (cases "f x = i")
    case True
    then have "\<forall>y \<in> set xs. f y \<noteq> i" using Cons.prems by (metis distinct.simps(2) image_eqI list.set_map list.simps(9))
    then have "filter (\<lambda>y. f y \<noteq> i) xs = xs" by (simp add: filter_id_conv)
    then show ?thesis using True by simp
  qed (use Cons in auto)
qed simp

lemma with_poll_id [simp]: "ct_id (with_poll po t) = ct_id t"
  by (simp add: with_poll_def)

lemma server_step_inv:
  assumes "supervisor_inv s" and "server_step hmac key tm e s = Some t"
  shows "supervisor_inv t"
proof (cases e)
  case (ServerAccept w)
  then show ?thesis using assms by (fastforce simp: supervisor_inv_def less_Suc_eq split: if_splits)
next
  case (TaskPoll i po)
  have ids: "ct_id \<circ> (\<lambda>t. if ct_id t = j then with_poll po t else t) = ct_id" for j
    by (auto simp: fun_eq_iff)
  show ?thesis
    using assms TaskPoll unfolding supervisor_inv_def by (auto simp: ids split: if_splits)
next
  case (TaskEnded i)
  then have "i \<in> ct_id ` set (su_tasks s)" using assms(2) by (auto split: if_splits)
  then show ?thesis
    using assms TaskEnded filter_one_out [of ct_id "su_tasks s" i]
    by (auto simp: supervisor_inv_def distinct_map_filter split: if_splits)
qed (use assms in auto)

interpretation supervisor_machine: invariant_machine "server_step hmac key tm" "\<lambda>_ _. True" supervisor_inv
  by unfold_locales (rule server_step_inv)

lemma supervisor_new_inv: "supervisor_inv supervisor_new"
  by (simp add: supervisor_inv_def supervisor_new_def)

text \<open>
  The supervisor never runs more than \<open>MAX_HANDSHAKES\<close> connection tasks: in every reachable state
  the permits left and the running tasks add up to it, and a connection is turned away exactly when
  all permits are taken.
\<close>

lemma connection_tasks_bounded:
  assumes "reach (server_step hmac key tm) (\<lambda>_ _. True) supervisor_new s"
  shows "su_permits s + length (su_tasks s) = MAX_HANDSHAKES \<and>
    (\<forall>t. server_step hmac key tm (ServerAccept w) s = Some t \<longrightarrow>
       (su_refused t = Suc (su_refused s) \<longleftrightarrow> length (su_tasks s) = MAX_HANDSHAKES))"
  using supervisor_machine.reach_inv [OF assms supervisor_new_inv] by (auto simp: supervisor_inv_def)

text \<open>
  A connection whose control handshake is over: it was dispatched to \<open>control::serve\<close>, authenticated in
  time, registered by the registry, and its grant was queued. Its session goes on as long as the loop
  did not end in one of its turns (the session identifier plays no part in that).
\<close>

definition granted :: "hmac \<Rightarrow> string \<Rightarrow> conn_world \<Rightarrow> bool" where
  "granted hmac key w =
     (\<exists>d d' a rn. dispatch (nw_elapsed w) (nw_conn w) = ToControl d \<and> cw_elapsed (nw_control w) = None \<and>
        control_handshake hmac key (cw_nonce (nw_control w)) (cw_session (nw_control w)) d = (Inr a, d') \<and>
        cw_answer (nw_control w) = Inr rn \<and> cw_announce (nw_control w))"

definition goes_on :: "timing \<Rightarrow> conn_world \<Rightarrow> bool" where
  "goes_on tm w = (\<forall>sid. loop_state (session_iteration tm sid) (cw_polls (nw_control w)) heartbeat_initial \<noteq> None)"

lemma select_loop_goes_on:
  "loop_state iter pos hb \<noteq> None \<Longrightarrow> fst (select_loop iter pos hb) = None"
proof (induction pos arbitrary: hb)
  case (Cons po pos)
  then show ?case by (cases "iter po hb") (auto simp: case_prod_beta split: turn.splits)
qed simp

lemma session_not_returned:
  assumes "granted hmac key w" and "goes_on tm w"
  shows "dispatch_run hmac key tm w = None"
proof -
  let ?cw = "nw_control w"
  obtain d d' a rn where w: "dispatch (nw_elapsed w) (nw_conn w) = ToControl d" "cw_elapsed ?cw = None"
    "control_handshake hmac key (cw_nonce ?cw) (cw_session ?cw) d = (Inr a, d')" "cw_answer ?cw = Inr rn" "cw_announce ?cw"
    using assms(1) unfolding granted_def by blast
  have "fst (select_loop (session_iteration tm (au_session_id a)) (cw_polls ?cw) heartbeat_initial) = None"
    using assms(2) unfolding goes_on_def by (intro select_loop_goes_on) blast
  then have "\<exists>as. session_loop tm (au_session_id a) tok (cw_polls ?cw) = (None, as)" for tok
    by (auto simp: session_loop_def split: prod.splits option.splits)
  then show ?thesis
    using w by (cases "cw_handles ?cw")
      (auto simp: dispatch_run_def control_serve_def control_session_def Let_def split: prod.splits option.splits;
       metis Pair_inject option.distinct(1))
qed

text \<open>The supervisor when all its permits are held by granted sessions.\<close>

definition full_of_sessions :: "hmac \<Rightarrow> string \<Rightarrow> supervisor \<Rightarrow> bool" where
  "full_of_sessions hmac key s = (su_permits s = 0 \<and> (\<forall>t \<in> set (su_tasks s). granted hmac key (ct_world t)))"

lemma full_keeps:
  assumes "full_of_sessions hmac key s" and "steps (server_step hmac key tm) (map (\<lambda>(i, po). TaskPoll i po) evs) s = Some t"
  shows "full_of_sessions hmac key t"
  using assms
proof (induction evs arbitrary: s)
  case (Cons e evs)
  obtain i po where e: "e = (i, po)" by (cases e)
  have keep: "granted hmac key (ct_world (with_poll po x)) = granted hmac key (ct_world x)" for x
    by (simp add: granted_def with_poll_def)
  let ?u = "s\<lparr>su_tasks := map (\<lambda>t. if ct_id t = i then with_poll po t else t) (su_tasks s)\<rparr>"
  have "full_of_sessions hmac key ?u" using Cons.prems(1) by (auto simp: full_of_sessions_def keep)
  moreover have "steps (server_step hmac key tm) (map (\<lambda>(i, po). TaskPoll i po) evs) ?u = Some t"
    using Cons.prems(2) e by (auto split: if_splits)
  ultimately show ?case by (rule Cons.IH)
qed simp

lemma full_refuses:
  assumes "full_of_sessions hmac key s" and "\<forall>t \<in> set (su_tasks s). goes_on tm (ct_world t)"
  shows "server_step hmac key tm (TaskEnded i) s = None"
    and "server_step hmac key tm (ServerAccept w) s = Some (s\<lparr>su_refused := Suc (su_refused s)\<rparr>)"
  using assms session_not_returned [of hmac key _ tm] by (auto simp: full_of_sessions_def)

lemma accept_sessions:
  assumes "length ws \<le> su_permits s" and "\<forall>w \<in> set ws. granted hmac key w"
    and "\<forall>t \<in> set (su_tasks s). granted hmac key (ct_world t)"
  shows "\<exists>t. steps (server_step hmac key tm) (map ServerAccept ws) s = Some t \<and>
    su_permits t = su_permits s - length ws \<and> map ct_world (su_tasks t) = rev ws @ map ct_world (su_tasks s) \<and>
    (\<forall>x \<in> set (su_tasks t). granted hmac key (ct_world x))"
  using assms
proof (induction ws arbitrary: s)
  case (Cons w ws)
  let ?u = "s\<lparr>su_permits := su_permits s - 1, su_tasks := \<lparr>ct_id = su_next s, ct_world = w\<rparr> # su_tasks s,
     su_next := Suc (su_next s)\<rparr>"
  have "server_step hmac key tm (ServerAccept w) s = Some ?u" using Cons.prems(1) by auto
  moreover have "\<exists>t. steps (server_step hmac key tm) (map ServerAccept ws) ?u = Some t \<and>
      su_permits t = su_permits ?u - length ws \<and> map ct_world (su_tasks t) = rev ws @ map ct_world (su_tasks ?u) \<and>
      (\<forall>x \<in> set (su_tasks t). granted hmac key (ct_world x))"
    by (rule Cons.IH) (use Cons.prems in auto)
  ultimately show ?case by auto
qed simp

text \<open>
  C39. The handshake limit also counts connections whose handshake is over. Let \<open>MAX_HANDSHAKES\<close> clients
  connect, authenticate and be granted their ports, and let their sessions go on. Then not one of the
  connection tasks can return its permit, since \<open>dispatch\<close> returns only with the session, and every new
  connection is turned away, the data connections of these very sessions included; and that remains so
  over any further turns of the sessions that do not end them. The constant is documented as the limit
  of handshakes that have not finished, and here none is in progress.
\<close>

theorem established_sessions_exhaust_permits:
  assumes "length ws = MAX_HANDSHAKES"
    and "\<forall>w \<in> set ws. granted hmac key w \<and> cw_polls (nw_control w) = []"
  shows "\<exists>s. steps (server_step hmac key tm) (map ServerAccept ws) supervisor_new = Some s \<and>
    map ct_world (su_tasks s) = rev ws \<and>
    (\<forall>turns t. steps (server_step hmac key tm) (map (\<lambda>(i, po). TaskPoll i po) turns) s = Some t \<longrightarrow>
      (\<forall>x \<in> set (su_tasks t). goes_on tm (ct_world x)) \<longrightarrow>
      (\<forall>i. server_step hmac key tm (TaskEnded i) t = None) \<and>
      (\<forall>w. server_step hmac key tm (ServerAccept w) t = Some (t\<lparr>su_refused := Suc (su_refused t)\<rparr>)))"
proof -
  obtain s where s: "steps (server_step hmac key tm) (map ServerAccept ws) supervisor_new = Some s"
    "map ct_world (su_tasks s) = rev ws" "full_of_sessions hmac key s"
    using accept_sessions [of ws supervisor_new hmac key tm] assms
    by (auto simp: supervisor_new_def full_of_sessions_def)
  then show ?thesis using full_refuses full_keeps by blast
qed

text \<open>The clients of the witness send the hello and the proof of the control handshake.\<close>

definition demo_link :: conn_world where
  "demo_link =
     \<lparr>nw_conn = demo_conn (encode_preamble Control @ frame_encode (hello_frame demo_hello) @
        frame_encode (proof_frame demo_hmac ''secret'' demo_hello (replicate 32 1) (replicate 16 2))),
      nw_elapsed = False,
      nw_control = \<lparr>cw_nonce = Inr (replicate 32 1), cw_session = Inr (replicate 16 2), cw_elapsed = None,
        cw_error_stall = None, cw_handles = (1, 2, 3),
        cw_answer = Inr \<lparr>rn_assigned_port = 4555, rn_max_connections = 256, rn_generation = 1\<rparr>,
        cw_announce = True, cw_polls = []\<rparr>,
      nw_ask = (\<lambda>_. None), nw_nonce = Inr (replicate 32 1), nw_socket = 43, nw_data_elapsed = None\<rparr>"

lemma demo_link_granted: "granted demo_hmac ''secret'' demo_link"
proof -
  let ?n = "replicate 32 1 :: bytes" and ?s = "replicate 16 2 :: bytes"
  let ?in = "frame_encode (hello_frame demo_hello) @ frame_encode (proof_frame demo_hmac ''secret'' demo_hello ?n ?s) @ []"
  have "dispatch False (demo_conn (encode_preamble Control @ ?in)) = ToControl (demo_conn ?in)"
    by (simp add: dispatch_def demo_conn_def)
  moreover obtain d' where "control_handshake demo_hmac ''secret'' (Inr ?n) (Inr ?s) (demo_conn ?in) =
      (Inr \<lparr>au_hello = demo_hello, au_session_id = ?s, au_transcript = control_transcript demo_hello ?n ?s\<rparr>, d')"
    using control_handshake_ok [OF demo_hello_wf _ _ demo_hmac_len, of ?n ?s "demo_conn ?in" "''secret''" "[]"]
    by (simp add: demo_conn_def)
  ultimately show ?thesis by (simp add: granted_def demo_link_def)
qed

theorem established_sessions_exhaust_permits_witness:
  "\<exists>s. steps (server_step demo_hmac ''secret'' timing_default) (map ServerAccept (replicate MAX_HANDSHAKES demo_link))
      supervisor_new = Some s \<and>
    (\<forall>i. server_step demo_hmac ''secret'' timing_default (TaskEnded i) s = None) \<and>
    server_step demo_hmac ''secret'' timing_default (ServerAccept demo_link) s = Some (s\<lparr>su_refused := Suc (su_refused s)\<rparr>)"
proof -
  let ?ws = "replicate MAX_HANDSHAKES demo_link"
  have "length ?ws = MAX_HANDSHAKES" "\<forall>w \<in> set ?ws. granted demo_hmac ''secret'' w \<and> cw_polls (nw_control w) = []"
    using demo_link_granted by (simp_all add: demo_link_def)
  from established_sessions_exhaust_permits [OF this, of timing_default] obtain s where
    s: "steps (server_step demo_hmac ''secret'' timing_default) (map ServerAccept ?ws) supervisor_new = Some s"
      "map ct_world (su_tasks s) = rev ?ws"
    and refuses: "\<And>turns t. steps (server_step demo_hmac ''secret'' timing_default) (map (\<lambda>(i, po). TaskPoll i po) turns) s = Some t \<Longrightarrow>
      \<forall>x \<in> set (su_tasks t). goes_on timing_default (ct_world x) \<Longrightarrow>
      (\<forall>i. server_step demo_hmac ''secret'' timing_default (TaskEnded i) t = None) \<and>
      (\<forall>w. server_step demo_hmac ''secret'' timing_default (ServerAccept w) t = Some (t\<lparr>su_refused := Suc (su_refused t)\<rparr>))"
    by blast
  have "goes_on timing_default demo_link" by (simp add: goes_on_def demo_link_def)
  moreover have "ct_world ` set (su_tasks s) \<subseteq> {demo_link}" using s(2) by (metis set_map set_rev set_replicate_conv_if subset_refl empty_subsetI)
  ultimately have "\<forall>x \<in> set (su_tasks s). goes_on timing_default (ct_world x)" by auto
  with refuses [of "[]" s] s(1) show ?thesis by auto
qed

subsection \<open>Announcing a registration\<close>

definition queued :: "writer \<Rightarrow> effect list \<Rightarrow> outbound list" where
  "queued w es = concat (map (\<lambda>e. case e of Sent v m \<Rightarrow> if v = w then [m] else [] | _ \<Rightarrow> []) es)"

text \<open>
  The writer queue of a new session when its handler has queued the announcement. The handler runs
  beside the actor: \<open>inputs\<close> is what the actor handles between answering the registration and the
  moment the handler, woken by the answer, sends REGISTERED.
\<close>

definition announce_queue ::
  "hmac \<Rightarrow> string \<Rightarrow> authenticated \<Rightarrow> env \<Rightarrow> register_request \<Rightarrow> input list \<Rightarrow> registry \<Rightarrow> outbound list option" where
  "announce_queue hmac key a env req inputs r =
     (case register env req r of
        Some (Inr rn, r1, es1) \<Rightarrow>
          (case run_loop inputs r1 of
             Some (_, r2, es2) \<Rightarrow>
               Some (queued (rq_writer req) (es1 @ es2) @ [registered_message hmac key a rn])
           | None \<Rightarrow> None)
      | _ \<Rightarrow> None)"

lemma granted_slot:
  assumes inv: "registry_inv r" and ok: "command_ok (CmdRegister req) r"
    and reg: "register env req r = Some (Inr rn, r1, es)"
  shows "\<exists>slot s. mget (ports r1) (rn_assigned_port rn) = Some slot \<and> ps_state slot = Active s \<and>
    sr_session_id s = rq_session_id req \<and> sr_writer s = rq_writer req \<and>
    (\<forall>rid. mget (pending r1) (rq_session_id req, rid) = None)"
  using reg inv
proof (cases rule: register_cases)
  case (installed p rn' r' es1 slot)
  have pend: "pending r' = pending r" using installed(2) by (auto simp: chosen_def)
  have "mget (sessions r) (rq_session_id req) = None" using ok by simp
  then have "mget (pending r) (rq_session_id req, rid) = None" for rid
    using inv unfolding registry_inv_def inv_pending_def by (metis not_None_eq option.distinct(1))
  then have "mget (pending r1) (rq_session_id req, rid) = None" for rid
    unfolding installed(4)
    using pend inv_wfD(3) [OF inv] by (simp add: evict_pending)
  then show ?thesis
    using installed(1,4,6) by (auto simp: map_simps)
qed simp

definition with_request :: "session_ref \<Rightarrow> request_id \<Rightarrow> instant \<Rightarrow> nat \<Rightarrow> registry \<Rightarrow> registry" where
  "with_request s rid deadline sender r =
     r\<lparr>pending := hm_insert (sr_session_id s, rid)
       \<lparr>pr_generation = sr_generation s, pr_deadline = deadline, pr_sender = sender\<rparr> (pending r)\<rparr>"

lemma open_accepted:
  assumes slot: "mget (ports r) p = Some slot" "ps_state slot = Active s"
    and free: "mget (pending r) (sr_session_id s, rid) = None"
    and draw: "draws env 0 = Inr rid"
    and room: "\<forall>x. acquire_ok env x" "send_ok env (sr_writer s) (outbound_frame Open rid)"
  shows "accepted_public env (ps_listener_id slot) p socket at r =
    Some (with_request s rid (at + request_wait (reg_timing r)) (fresh_sender env) r,
      [Sent (sr_writer s) (outbound_frame Open rid),
       PublicSpawned (sr_session_id s) rid socket (at + request_wait (reg_timing r)) (sr_data_cancel s) (fresh_sender env)])"
proof -
  have "fresh_request_id (draws env) (\<lambda>rid. mcontains (pending r) (sr_session_id s, rid)) 0 = Some (Some rid)"
    using draw free by (subst fresh_request_id.simps) (simp add: mcontains_def)
  then show ?thesis using slot room by (simp add: accepted_public_def Let_def with_request_def)
qed

lemma announce_after_open:
  assumes inv: "registry_inv r" and ok: "command_ok (CmdRegister req) r"
    and reg: "register env req r = Some (Inr rn, r1, es)" and fresh: "queued (rq_writer req) es = []"
    and draw: "draws env' 0 = Inr rid"
    and room: "\<forall>x. acquire_ok env' x" "\<forall>w m. send_ok env' w m"
  shows "\<exists>lid. announce_queue hmac key a env req
      [Cmd env' (CmdAcceptedPublic lid (rn_assigned_port rn) socket peer at)] r =
    Some [outbound_frame Open rid, registered_message hmac key a rn]"
proof -
  obtain slot s where slot: "mget (ports r1) (rn_assigned_port rn) = Some slot" "ps_state slot = Active s"
    and s: "sr_session_id s = rq_session_id req" "sr_writer s = rq_writer req"
      "\<forall>rid. mget (pending r1) (rq_session_id req, rid) = None"
    using granted_slot [OF inv ok reg] by blast
  have "mget (pending r1) (sr_session_id s, rid) = None" using s(1,3) by simp
  from open_accepted [OF slot this draw room(1)] room(2) have "announce_queue hmac key a env req
      [Cmd env' (CmdAcceptedPublic (ps_listener_id slot) (rn_assigned_port rn) socket peer at)] r =
      Some (queued (rq_writer req) es @ [outbound_frame Open rid, registered_message hmac key a rn])"
    using reg s(2) by (simp add: announce_queue_def queued_def)
  then show ?thesis using fresh by auto
qed

text \<open>The client's side: any frame but REGISTERED or ERROR after the challenge is fatal.\<close>

lemma client_rejects_open:
  fixes h config i m p cn n s hmac
  defines "h \<equiv> client_hello i cn m p" and "key \<equiv> ec_key config"
  assumes wf: "wf_control_hello h" "length n = 32" "length s = 16" and len: "hmac_len hmac"
    and wr: "write_fails c = []" and rid: "length rid = 16"
    and inc: "incoming c = frame_encode (challenge_frame hmac key h n s) @ frame_encode (frame_new Open rid) @ rest"
  shows "fst (client_register hmac config i m p (Inr cn) c) =
    Inl (Fatal (app_error_protocol ''unexpected message for this state''))"
proof -
  let ?c0 = "c\<lparr>outgoing := outgoing c @ encode_preamble Control\<rparr>"
  let ?c1 = "?c0\<lparr>outgoing := outgoing ?c0 @ frame_encode (hello_frame h)\<rparr>"
  let ?c2 = "?c1\<lparr>incoming := frame_encode (frame_new Open rid) @ rest\<rparr>"
  let ?c3 = "?c2\<lparr>outgoing := outgoing ?c2 @ frame_encode (proof_frame hmac key h n s)\<rparr>"
  have w0: "io_map_err transport (write_preamble Control) c = (Inr (), ?c0)"
    using wr by (simp add: io_map_err_Inr)
  have w1: "io_map_err transport (write_frame (hello_frame h)) ?c0 = (Inr (), ?c1)"
    using wr wf_frame_small [OF hello_frame_wf [OF wf(1)]] by (simp add: io_map_err_Inr)
  have r1: "await_answer ControlChallenge ?c1 = (Inr (challenge_frame hmac key h n s), ?c2)"
    using await_answer_encode [OF challenge_frame_wf [OF len wf(2,3)], of ?c1] inc
    by (simp add: challenge_frame_def)
  have w2: "io_map_err transport (write_frame (proof_frame hmac key h n s)) ?c2 = (Inr (), ?c3)"
    using wr wf_frame_small [OF proof_frame_wf [OF len]] by (simp add: io_map_err_Inr)
  have "read_frame ?c3 = (Inr (frame_new Open rid), ?c3\<lparr>incoming := rest\<rparr>)"
    using rid by (intro read_frame_encode) simp_all
  then have r2: "await_answer Registered ?c3 =
      (Inl (Fatal (app_error_protocol ''unexpected message for this state'')), ?c3\<lparr>incoming := rest\<rparr>)"
    by (simp add: await_answer_def io_bind_eq io_map_err_eq require_kind_def is_control_def require_type_def
        app_error_protocol_def)
  have dec: "control_challenge_decode (payload (challenge_frame hmac key h n s)) = Inr (challenge_of hmac key h n s)"
    using challenge_wf [OF len wf(2,3)] by (simp add: challenge_frame_def control_challenge.dec_enc)
  show ?thesis
    unfolding client_register_def
    using w0 w1 r1 w2 r2 dec
    by (simp add: io_bind_eq Let_def h_def client_hello_def [symmetric] hello_frame_def [symmetric] key_def
        challenge_of_def proof_frame_def [symmetric])
qed

text \<open>
  C38. The order of REGISTERED and OPEN is not guaranteed, against the comment in \<open>serve\<close> that OPEN
  messages cannot precede REGISTERED. The registry makes the session current before it answers; if it
  then handles a connection accepted on the port before the handler has queued the announcement, OPEN
  is first in the queue and first on the wire, and the client takes it for a violation of the
  protocol, which ends its process with exit code 3.
\<close>

theorem open_can_precede_registered:
  assumes inv: "registry_inv r" and ok: "command_ok (CmdRegister req) r"
    and reg: "register env req r = Some (Inr rn, r1, es)" and fresh: "queued (rq_writer req) es = []"
    and draw: "draws env' 0 = Inr rid" "length rid = 16"
    and room: "\<forall>x. acquire_ok env' x" "\<forall>w m. send_ok env' w m"
    and hello: "wf_control_hello (client_hello i cn m p)" "length n = 32" "length s = 16" and len: "hmac_len hmac"
    and sock: "write_fails sc = []" "outgoing sc = []" "write_fails cc = []"
  shows "\<exists>lid q. announce_queue hmac (ec_key config)
      \<lparr>au_hello = client_hello i cn m p, au_session_id = s,
       au_transcript = control_transcript (client_hello i cn m p) n s\<rparr> env req
      [Cmd env' (CmdAcceptedPublic lid (rn_assigned_port rn) socket peer at)] r = Some q \<and>
    (\<exists>e. fst (client_register hmac config i m p (Inr cn)
        (cc\<lparr>incoming := frame_encode (challenge_frame hmac (ec_key config) (client_hello i cn m p) n s) @
           outgoing (fst (writer_loop (rq_control_cancel req) [] q sc))\<rparr>)) = Inl (Fatal e) \<and> exit_code e = 3)"
proof -
  let ?h = "client_hello i cn m p"
  let ?a = "\<lparr>au_hello = ?h, au_session_id = s, au_transcript = control_transcript ?h n s\<rparr>"
  let ?q = "[outbound_frame Open rid, registered_message hmac (ec_key config) ?a rn]"
  obtain lid where q: "announce_queue hmac (ec_key config) ?a env req
      [Cmd env' (CmdAcceptedPublic lid (rn_assigned_port rn) socket peer at)] r = Some ?q"
    using announce_after_open [OF inv ok reg fresh draw(1) room] by blast
  let ?g = "registered_frame hmac (ec_key config) ?h n s (rn_assigned_port rn) (rn_max_connections rn)"
  have frames: "frames_until_close ?q = [frame_new Open rid, ?g]"
    by (simp add: outbound_frame_def registered_message_frame)
  have small: "length (payload (frame_new Open rid)) \<le> MAX_PAYLOAD" "length (payload ?g) \<le> MAX_PAYLOAD"
    using draw(2) len
    by (simp_all add: MAX_PAYLOAD_def registered_frame_def registered_encode_def)
  have "write_queue [] ?q sc = sc\<lparr>outgoing := outgoing sc @ concat (map frame_encode (frames_until_close ?q))\<rparr>"
    by (rule write_queue_complete) (use frames small sock in auto)
  then have wire: "outgoing (fst (writer_loop (rq_control_cancel req) [] ?q sc)) = frame_encode (frame_new Open rid) @ frame_encode ?g"
    using sock(2) unfolding frames by (simp add: writer_loop_def)
  have "fst (client_register hmac config i m p (Inr cn)
      (cc\<lparr>incoming := frame_encode (challenge_frame hmac (ec_key config) ?h n s) @ outgoing (fst (writer_loop (rq_control_cancel req) [] ?q sc))\<rparr>)) =
      Inl (Fatal (app_error_protocol ''unexpected message for this state''))"
    unfolding wire by (rule client_rejects_open [OF hello len _ draw(2)]) (simp_all add: sock)
  then show ?thesis using q by (intro exI conjI) (assumption, assumption, simp add: app_error_protocol_def)
qed

theorem open_can_precede_registered_witness:
  "\<exists>lid q. announce_queue demo_hmac ''secret''
      \<lparr>au_hello = demo_hello, au_session_id = replicate 16 1,
       au_transcript = control_transcript demo_hello (replicate 32 1) (replicate 16 1)\<rparr>
      demo_env (demo_request 1 2 Fresh 4555)
      [Cmd demo_env (CmdAcceptedPublic lid 4555 42 \<lparr>sa_ip = V4 1, sa_port = 9\<rparr> 1000)] demo_start = Some q"
proof -
  have inv0: "registry_inv demo_start" unfolding demo_start_def by (rule inv_new) simp
  have ok0: "command_ok (CmdRegister (demo_request 1 2 Fresh 4555)) demo_start"
    by (simp add: demo_defs)
  have fresh: "queued (rq_writer (demo_request 1 2 Fresh 4555)) [ListenerSpawned 1 4555 70] = []"
    by (simp add: queued_def)
  have draw: "draws demo_env 0 = Inr (replicate 16 0)" "length (replicate 16 0 :: bytes) = 16"
    and room: "\<forall>x. acquire_ok demo_env x" "\<forall>w m. send_ok demo_env w m"
    by (simp_all add: demo_env_def)
  have hello: "wf_control_hello (client_hello (replicate 16 2) (replicate 32 5) Fresh 4555)"
    "length (replicate 32 1 :: bytes) = 32" "length (replicate 16 1 :: bytes) = 16"
    using demo_hello_wf by (simp_all only: demo_hello_client length_replicate)
  have sock: "write_fails (demo_conn []) = []" "outgoing (demo_conn []) = []" by (simp_all add: demo_conn_def)
  show ?thesis
    using open_can_precede_registered [OF inv0 ok0 demo_register fresh draw room hello demo_hmac_len
        sock(1,2,1), where config = demo_expose and socket = 42 and at = 1000
        and peer = "\<lparr>sa_ip = V4 1, sa_port = 9\<rparr>"]
    by (simp add: demo_expose_def demo_hello_client) blast
qed

end
