(* ===== verification/Tunnel_Path.thy ===== *)
theory Tunnel_Path
  imports Server_Props
begin

text \<open>
  One public connection on its whole way: accepted on a tunnel's port, announced to the client, dialled
  to the local target, authenticated on a data connection, claimed from the registry and forwarded.
\<close>

subsection \<open>The registry's part\<close>

text \<open>
  What \<open>RegistryHandle\<close> gets back for a command that finds the actor in state \<open>r\<close>; \<open>envs\<close> is what
  the actor meets while handling it.
\<close>

definition ask_registry :: "(command \<Rightarrow> env) \<Rightarrow> registry \<Rightarrow> command \<Rightarrow> reply option" where
  "ask_registry envs r c = map_option fst (handle_command (envs c) c r)"

lemma with_request_get:
  "hm_wf (pending r) \<Longrightarrow> mget (pending (with_request s rid d q r)) (sr_session_id s, rid) =
     Some \<lparr>pr_generation = sr_generation s, pr_deadline = d, pr_sender = q\<rparr>"
  by (simp add: with_request_def map_simps)

lemma request_waits:
  assumes "hm_wf (pending r)" and "now env < d"
  shows "handle_command env (CmdPeekData (sr_session_id s) rid) (with_request s rid d q r) =
    Some (PeekReply True, False, with_request s rid d q r, [])"
  using assms by (simp add: peek_def with_request_get)

lemma request_claimed:
  assumes "hm_wf (pending r)" and "mget (sessions r) (sr_session_id s) = Some s"
    and "now env < d" and "deliver_ok env q"
  shows "handle_command env (CmdClaimData (sr_session_id s) rid socket) (with_request s rid d q r) =
    Some (ClaimReply Delivered, False,
      (with_request s rid d q r)\<lparr>pending := mrem (sr_session_id s, rid) (pending (with_request s rid d q r))\<rparr>,
      [SocketHanded q socket])"
proof -
  have "mget (sessions (with_request s rid d q r)) (sr_session_id s) = Some s"
    using assms(2) by (simp add: with_request_def)
  then show ?thesis
    using assms by (simp add: claim_def with_request_get Let_def)
qed

subsection \<open>The client's part\<close>

text \<open>OPEN, put into the session's queue, arrives at the client's loop.\<close>

lemma open_crosses:
  assumes "length rid = 16" and "write_fails sc = []" and "outgoing sc = []"
  shows "fst (client_read_frames 1 (cc\<lparr>incoming := outgoing (fst (writer_loop tok [] [outbound_frame Open rid] sc))\<rparr>)) =
    [Inr (frame_new Open rid)]"
proof -
  let ?f = "frame_new Open rid"
  have wf: "wf_frame ?f" using assms(1) by simp
  have "write_queue [] [outbound_frame Open rid] sc = sc\<lparr>outgoing := frame_encode ?f\<rparr>"
    using write_queue_complete [of "[outbound_frame Open rid]" sc "[]"] wf_frame_small [OF wf] assms(2,3)
    by (simp add: outbound_frame_def)
  then have wire: "outgoing (fst (writer_loop tok [] [outbound_frame Open rid] sc)) = frame_encode ?f"
    by (simp add: writer_loop_def)
  have "read_frame (cc\<lparr>incoming := frame_encode ?f\<rparr>) = (Inr ?f, cc\<lparr>incoming := []\<rparr>)"
    using read_frame_encode [OF wf, of "cc\<lparr>incoming := frame_encode ?f\<rparr>" "[]"] by simp
  then show ?thesis
    unfolding wire by (simp add: client_read_frames_def check_control_def require_kind_def is_control_def)
qed

text \<open>A turn of the client's loop in which nothing but the frame channel is ready.\<close>

definition only_frames :: "client_poll \<Rightarrow> heartbeat \<Rightarrow> bool" where
  "only_frames po hb = (\<not> po_quit po \<and> \<not> po_cancelled po \<and> \<not> pong_due po hb \<and> \<not> po_tick po)"

lemma open_spawns:
  assumes "only_frames po hb" and "po_permit po" and "length rid = 16"
  shows "client_iteration tm ctx (po\<lparr>po_incoming := Some (Some (Inr (frame_new Open rid)))\<rparr>) hb =
    (Continue hb, [SpawnOpen (ctx rid)])"
proof -
  have "pong_due (po\<lparr>po_incoming := x\<rparr>) hb = pong_due po hb" for x
    by (auto simp: pong_due_def split: option.splits)
  then show ?thesis
    using assms by (simp add: only_frames_def client_iteration_def client_frame_def decode_request_id_def)
qed

text \<open>
  Both diallings of the task succeed within its budget: \<open>target\<close> and \<open>stream\<close> are the streams.
\<close>

definition dials_in_time :: "open_context \<Rightarrow> open_env \<Rightarrow> nat \<Rightarrow> nat \<Rightarrow> bool" where
  "dials_in_time ctx oe target stream =
     (let deadline = oe_start oe + request_wait (oc_timing ctx);
          (t1, t2, t3) = oe_clock oe in
      \<not> oe_cancelled oe \<and> \<not> oe_elapsed oe \<and> t1 < deadline \<and> t2 < deadline \<and> t3 < deadline \<and>
      dial (oe_target_net oe) (oc_target ctx) (min (target_connect (oc_timing ctx)) (deadline - t1)) = Inr target \<and>
      connect_addr (oe_data_net oe) (oc_server_addr ctx) (deadline - t2) = Inr stream)"

lemma handle_open_ok:
  assumes "dials_in_time ctx oe target stream"
    and "client_data_handshake hmac ctx (oe_nonce oe) (oe_socket oe stream) = (Inr (), d)"
  shows "handle_open hmac ctx oe = (Forwarded target d, [])"
  using assms
  by (auto simp: dials_in_time_def handle_open_def open_setup_def remaining_def Let_def)

lemma dials_in_time_socket [simp]: "dials_in_time ctx (oe\<lparr>oe_socket := f\<rparr>) t s = dials_in_time ctx oe t s"
  by (simp add: dials_in_time_def)

subsection \<open>End to end\<close>

lemma dispatch_data: "dispatch False (c\<lparr>incoming := encode_preamble Data @ rest\<rparr>) = ToData (c\<lparr>incoming := rest\<rparr>)"
  by (simp add: dispatch_def)

text \<open>The two handshakes of the data connection, with the registry in between.\<close>

lemma request_served:
  fixes s rid d q r
  defines "r1 \<equiv> with_request s rid d q r"
  assumes wf: "hm_wf (pending r)" and session: "mget (sessions r) (sr_session_id s) = Some s"
    and time: "\<forall>cmd. now (envs cmd) < d" "\<forall>cmd x. deliver_ok (envs cmd) x"
    and ids: "oc_session_id ctx = sr_session_id s" "oc_request_id ctx = rid" "oc_key ctx = key"
      "length (sr_session_id s) = 16" "length rid = 16"
    and random: "length cn = 32" "length n = 32" "hmac_len hmac"
    and io: "write_fails cd = []" "write_fails sd = []" "outgoing cd = []" "outgoing sd = []"
  obtains to_server sd' sd'' where
    "data_handshake hmac key (ask_registry envs r1) (Inr n) data (sd\<lparr>incoming := to_server\<rparr>) =
      ((Inr (), sd'), [CmdPeekData (sr_session_id s) rid, CmdClaimData (sr_session_id s) rid data])"
    "serve_public (sr_session_id s) rid False False (Some sd') False False sent =
      (Some sd'', [ForwardBoth, Finished (CmdRequestFinished (sr_session_id s) rid)])"
    "client_data_handshake hmac ctx (Inr cn) (cd\<lparr>incoming := outgoing sd'' @ application\<rparr>) =
      (Inr (), cd\<lparr>incoming := application, outgoing := encode_preamble Data @ to_server\<rparr>)"
proof -
  have hello: "wf_data_hello (context_hello ctx cn)"
    using ids random(1) by (simp add: wf_data_hello_def context_hello_def)
  have pk: "ask_registry envs r1 (CmdPeekData (oc_session_id ctx) (oc_request_id ctx)) = Some (PeekReply True)"
    using request_waits [OF wf] time(1) ids by (simp add: ask_registry_def r1_def del: handle_command.simps)
  have cl: "ask_registry envs r1 (CmdClaimData (oc_session_id ctx) (oc_request_id ctx) data) = Some (ClaimReply Delivered)"
    using request_claimed [OF wf session] time ids by (simp add: ask_registry_def r1_def del: handle_command.simps)
  show thesis
    using data_path_completes [OF random(3) hello random(2) pk cl io] that unfolding ids by blast
qed

text \<open>
  C4. A connection to a tunnel's port reaches the client's target. Let a session own the port in a
  reachable state, and let no queue, permit, timer or network call refuse. Then the registry queues
  OPEN with a fresh request identifier and starts the connection's task; the client's loop receives
  exactly this frame and starts the task of the request; the bytes that task sends on its data
  connection are dispatched to the data handler, which learns from the registry that the request waits
  and claims it; the claim is delivered to the very task of the public connection and consumes the
  request; that task writes DATA-READY and forwards, and the client's task, given the bytes of the two
  server tasks and whatever application bytes follow, forwards to its target with exactly the
  application bytes left to read.
\<close>

theorem public_connection_reaches_target:
  assumes server: "wf_server_config c" "registry_reachable c rt r" "sc_key c = ec_key config"
    and slot: "mget (ports r) p = Some slot" "ps_state slot = Active s" "length (sr_session_id s) = 16"
    and accept: "draws env 0 = Inr rid" "length rid = 16" "mget (pending r) (sr_session_id s, rid) = None"
      "\<forall>x. acquire_ok env x" "\<forall>w m. send_ok env w m"
    and claim: "\<forall>cmd. now (envs cmd) < at + request_wait (reg_timing r)" "\<forall>cmd q. deliver_ok (envs cmd) q"
    and client: "cs_session_id session = sr_session_id s" "ctx = open_context_for config session w tm tok"
      "only_frames po hb" "po_permit po" "dials_in_time (ctx rid) oe target stream"
    and random: "oe_nonce oe = Inr cn" "length cn = 32" "length n = 32" "hmac_len hmac"
    and io: "\<forall>x \<in> {sc, sd, cd}. write_fails x = [] \<and> outgoing x = []"
  shows "\<exists>r1 r2 m f to_server sd' sd''.
    handle_command env (CmdAcceptedPublic (ps_listener_id slot) p public peer at) r =
      Some (NoReply, False, r1, [Sent (sr_writer s) m, PublicSpawned (sr_session_id s) rid public
        (at + request_wait (reg_timing r)) (sr_data_cancel s) (fresh_sender env)]) \<and>
    fst (client_read_frames 1 (cc\<lparr>incoming := outgoing (fst (writer_loop (sr_control_cancel s) [] [m] sc))\<rparr>)) = [Inr f] \<and>
    client_iteration tm ctx (po\<lparr>po_incoming := Some (Some (Inr f))\<rparr>) hb = (Continue hb, [SpawnOpen (ctx rid)]) \<and>
    dispatch False (sd\<lparr>incoming := encode_preamble Data @ to_server\<rparr>) = ToData (sd\<lparr>incoming := to_server\<rparr>) \<and>
    data_handshake hmac (sc_key c) (ask_registry envs r1) (Inr n) data (sd\<lparr>incoming := to_server\<rparr>) =
      ((Inr (), sd'), [CmdPeekData (sr_session_id s) rid, CmdClaimData (sr_session_id s) rid data]) \<and>
    handle_command (envs (CmdClaimData (sr_session_id s) rid data)) (CmdClaimData (sr_session_id s) rid data) r1 =
      Some (ClaimReply Delivered, False, r2, [SocketHanded (fresh_sender env) data]) \<and>
    mget (pending r2) (sr_session_id s, rid) = None \<and>
    serve_public (sr_session_id s) rid False False (Some sd') False False sent =
      (Some sd'', [ForwardBoth, Finished (CmdRequestFinished (sr_session_id s) rid)]) \<and>
    handle_open hmac (ctx rid) (oe\<lparr>oe_socket := \<lambda>_. cd\<lparr>incoming := outgoing sd'' @ application\<rparr>\<rparr>) =
      (Forwarded target (cd\<lparr>incoming := application, outgoing := encode_preamble Data @ to_server\<rparr>), [])"
proof -
  let ?sid = "sr_session_id s" and ?q = "fresh_sender env" and ?d = "at + request_wait (reg_timing r)"
  let ?r1 = "with_request s rid ?d ?q r" and ?m = "outbound_frame Open rid" and ?f = "frame_new Open rid"
  let ?peek = "CmdPeekData ?sid rid" and ?claim = "CmdClaimData ?sid rid data"
  let ?r2 = "?r1\<lparr>pending := mrem (?sid, rid) (pending ?r1)\<rparr>"
  have inv: "registry_inv r" using server(1,2) by (rule reachable_inv)
  have wf: "hm_wf (pending r)" using inv by (rule inv_wfD(3))
  have session: "mget (sessions r) ?sid = Some s" using inv slot(1,2) by (auto simp: registry_inv_def inv_active_def)
  have accepted: "handle_command env (CmdAcceptedPublic (ps_listener_id slot) p public peer at) r =
      Some (NoReply, False, ?r1, [Sent (sr_writer s) ?m, PublicSpawned ?sid rid public ?d (sr_data_cancel s) ?q])"
    using open_accepted [OF slot(1,2) accept(3,1,4)] accept(5) by simp
  have claimed: "handle_command (envs ?claim) ?claim ?r1 = Some (ClaimReply Delivered, False, ?r2, [SocketHanded ?q data])"
    by (rule request_claimed [OF wf session]) (use claim in simp_all)
  have gone: "mget (pending ?r2) (?sid, rid) = None" by (simp add: map_simps)
  have ids: "oc_session_id (ctx rid) = ?sid" "oc_request_id (ctx rid) = rid" "oc_key (ctx rid) = sc_key c"
    using client(1,2) server(3) by (simp_all add: open_context_for_def)
  have socks: "write_fails cd = []" "write_fails sd = []" "outgoing cd = []" "outgoing sd = []" using io by simp_all
  obtain to_server sd' sd'' where path:
    "data_handshake hmac (sc_key c) (ask_registry envs ?r1) (Inr n) data (sd\<lparr>incoming := to_server\<rparr>) =
      ((Inr (), sd'), [?peek, ?claim])"
    "serve_public ?sid rid False False (Some sd') False False sent =
      (Some sd'', [ForwardBoth, Finished (CmdRequestFinished ?sid rid)])"
    "client_data_handshake hmac (ctx rid) (Inr cn) (cd\<lparr>incoming := outgoing sd'' @ application\<rparr>) =
      (Inr (), cd\<lparr>incoming := application, outgoing := encode_preamble Data @ to_server\<rparr>)"
    by (rule request_served [OF wf session claim ids slot(3) accept(2) random(2-4) socks])
  have forwarded: "handle_open hmac (ctx rid) (oe\<lparr>oe_socket := \<lambda>_. cd\<lparr>incoming := outgoing sd'' @ application\<rparr>\<rparr>) =
      (Forwarded target (cd\<lparr>incoming := application, outgoing := encode_preamble Data @ to_server\<rparr>), [])"
    by (rule handle_open_ok [where stream = stream]) (use client(5) random(1) path(3) in simp_all)
  have crosses: "fst (client_read_frames 1 (cc\<lparr>incoming := outgoing (fst (writer_loop (sr_control_cancel s) [] [?m] sc))\<rparr>)) = [Inr ?f]"
    by (rule open_crosses) (use accept(2) io in simp_all)
  have spawns: "client_iteration tm ctx (po\<lparr>po_incoming := Some (Some (Inr ?f))\<rparr>) hb = (Continue hb, [SpawnOpen (ctx rid)])"
    using client(3,4) accept(2) by (rule open_spawns)
  show ?thesis
    by (intro exI conjI, rule accepted, rule crosses, rule spawns, rule dispatch_data, rule path(1), rule claimed,
        rule gone, rule path(2), rule forwarded)
qed

definition demo_owner :: client_session where
  "demo_owner = demo_granted\<lparr>cs_session_id := replicate 16 1\<rparr>"

definition demo_task :: open_env where
  "demo_task = demo_open\<lparr>oe_target_net := demo_up, oe_data_net := demo_up\<rparr>"

lemma demo_dials:
  "dials_in_time (open_context_for demo_expose demo_owner 7 timing_default 4 (replicate 16 0)) demo_task 1 1"
  by (simp add: dials_in_time_def demo_task_def demo_open_def open_context_for_def demo_up_def demo_net_def
      dial_def connect_addr_def net_remaining_def timing_default_def from_secs_def from_millis_def Let_def)

theorem public_connection_reaches_target_witness:
  "\<exists>r1 r2 m. handle_command demo_env (CmdAcceptedPublic 1 4555 42 \<lparr>sa_ip = V4 1, sa_port = 9\<rparr> 1000) demo_active =
      Some (NoReply, False, r1, [Sent 1 m, PublicSpawned (replicate 16 1) (replicate 16 0) 42 11000 2 90]) \<and>
    handle_command demo_env (CmdClaimData (replicate 16 1) (replicate 16 0) 43) r1 =
      Some (ClaimReply Delivered, False, r2, [SocketHanded 90 43])"
proof -
  have slot: "mget (ports demo_active) 4555 = Some demo_slot" "ps_state demo_slot = Active demo_session"
    by (simp_all add: demo_active_def demo_slot_def)
  have s: "sr_session_id demo_session = replicate 16 1" "ps_listener_id demo_slot = 1" "sr_writer demo_session = 1"
    "sr_data_cancel demo_session = 2" "fresh_sender demo_env = 90"
    "1000 + request_wait (reg_timing demo_active) = (11000 :: nat)" "now demo_env = 1000"
    by (simp_all add: demo_defs)
  have accept: "draws demo_env 0 = Inr (replicate 16 0)" "mget (pending demo_active) (sr_session_id demo_session, replicate 16 0) = None"
    "\<forall>x. acquire_ok demo_env x" "\<forall>w m. send_ok demo_env w m" "\<forall>q. deliver_ok demo_env q"
    by (simp_all add: demo_env_def demo_active_def)
  have turn: "only_frames (demo_idle 5 False) heartbeat_initial" "po_permit (demo_idle 5 False)"
    by (simp_all add: only_frames_def demo_idle_def pong_due_def heartbeat_initial_def)
  have keys: "sc_key demo_config = ec_key demo_expose" "cs_session_id demo_owner = replicate 16 1"
    "oe_nonce demo_task = Inr (replicate 32 5)"
    by (simp_all add: demo_config_def demo_expose_def demo_owner_def demo_task_def demo_open_def)
  have io: "\<forall>x \<in> {demo_conn [], demo_conn [], demo_conn []}. write_fails x = [] \<and> outgoing x = []"
    by (simp add: demo_conn_def)
  show ?thesis
    using public_connection_reaches_target [OF demo_config_wf demo_active_reachable keys(1) slot _ accept(1) _ accept(2-4) _ _ _
        refl turn demo_dials keys(3) _ _ demo_hmac_len io, where envs = "\<lambda>_. demo_env" and n = "replicate 32 1"
        and at = 1000 and data = 43 and public = 42 and peer = "\<lparr>sa_ip = V4 1, sa_port = 9\<rparr>"]
      accept(5) keys(2)
    unfolding s by (simp del: handle_command.simps) blast
qed

end
