(* ===== verification/Spec2Isabelle.thy ===== *)
theory Spec2Isabelle
  imports Program_Entry Cli_Props Tunnel_Path Protocol_Props
begin

text \<open>
  \<^bold>\<open>Tunlet, a reverse TCP tunnel.\<close> A server with a public address and a client behind a firewall share a
  key. The client (\<open>tunlet expose\<close>) keeps one control connection to the server (\<open>tunlet server\<close>) and owns a
  public port there. For every connection to that port the server sends OPEN; the client dials its
  local target and, on a second connection to the server, proves that it knows the key and names the
  request; the server hands that data connection to the task of the public connection, and both ends
  copy bytes. This development models the implementation under \<open>src/src\<close> and proves what the parts
  promise each other.

  \<^bold>\<open>How the program is modelled.\<close> Structures are records, enumerations datatypes, integers words of their
  width, strings and arrays byte lists, \<open>Result\<close> a sum with the error on the left, and every early
  return a branch. Each asynchronous task is a function of its own state and of what it meets. What
  belongs to tokio, the operating system or another package is an argument: the clock readings, the
  answers of socket calls, of the resolver and of the file system, whether a queue has room and a
  semaphore a permit, the entropy drawn, which timer fired and how many bytes were out by then, and
  HMAC-SHA-256 itself (\<open>hmac\<close>, of which some theorems assume that it returns 32 bytes). A statement
  about all values of these arguments is a statement about every peer, network and schedule they
  describe. Tasks interact through commands to the registry, messages on queues, cancelled tokens and
  bytes on sockets; these appear as lists of commands, effects and actions in the results.

  \<^bold>\<open>Shared foundations.\<close>
  \<^item> \<open>Tunlet_Prelude\<close>: integers, big-endian bytes, the \<open>?\<close> operator, slices, rewrite collections.
  \<^item> \<open>Assoc_Maps\<close>: \<open>BTreeMap\<close> and \<open>HashMap\<close> as association lists, both instances of the locale
    \<open>finite_map\<close>.
  \<^item> \<open>State_Machines_Lib\<close>: reachability and the locale \<open>invariant_machine\<close>, interpreted by the registry
    actor and by the supervisor.
  \<^item> \<open>Decimal_Text\<close>, \<open>Ip_Text\<close>, \<open>Text_Ops\<close>: the parts of the Rust standard library that read and print
    numbers, IP addresses and text.

  \<^bold>\<open>Wire protocol\<close> (\<open>protocol.rs\<close>, \<open>auth.rs\<close>, \<open>error.rs\<close>). \<open>Error_Codes\<close> has the error types and exit
  codes, \<open>Wire_Protocol\<close> frames and payloads with the locale \<open>payload_codec\<close> that every payload
  interprets, \<open>Frame_IO\<close> the readers and writers over a socket, \<open>Handshake_Auth\<close> transcripts and codes.
  \<open>Protocol_Props\<close>: frames written are the frames read, the reader takes exactly one frame and refuses
  before reading what is too long, decoders accept exactly the encodings of legal values, codes under
  one label bind every field.

  \<^bold>\<open>Server.\<close>
  \<^item> \<open>Server_Registry\<close> (\<open>server/registry.rs\<close>): the actor that owns ports, sessions and pending requests,
    every command, the sweep and the run loop. \<open>Registry_Inv\<close> proves its invariant for every step;
    \<open>Registry_Spec\<close> states the tunnel table it implements and the simulation; \<open>Registry_Props\<close>,
    \<open>Registry_Lifecycle\<close> and \<open>Registry_Progress\<close> prove exactly-once claims, replacement, loss and
    resumption, expiry, allocation, origin of requests, answers and shutdown.
  \<^item> \<open>Registry_Handle\<close>: the methods of \<open>RegistryHandle\<close>, through which tasks talk to the actor.
  \<^item> \<open>Heartbeat\<close>: what the session loops of both ends share, with the locale \<open>heartbeat_loop\<close> that both
    loops interpret: writer task, reader task, pings.
  \<^item> \<open>Server_Control\<close> (\<open>server/control.rs\<close>), \<open>Server_Data\<close> (\<open>server/data.rs\<close>), \<open>Server_Run\<close>
    (\<open>server/listener.rs\<close>, \<open>server/mod.rs\<close>, \<open>forward.rs\<close>): control connections, data connections,
    public ports and connections, dispatch and the supervisor with its permits.

  \<^bold>\<open>Client.\<close> \<open>Client_Control\<close> (\<open>client/control.rs\<close>, \<open>client/mod.rs\<close>): connecting, registering, the session
  loop, reconnecting. \<open>Client_Data\<close> (\<open>client/data.rs\<close>): answering one OPEN. \<open>Net_Addr\<close> (\<open>net.rs\<close>):
  addresses, binding and dialling.

  \<^bold>\<open>Both ends together.\<close> \<open>Control_Props\<close>: the server admits exactly the peers that prove the key, the client
  accepts only a server that does, honest sides agree, and a session ends with one report.
  \<open>Session_Props\<close>: a dead peer is noticed, pings, order of the writer, one port for the client's life,
  what ends it. \<open>Data_Props\<close>: a claim needs a proof, honest data handshakes complete, failures are
  reported, every public connection ends with a notice. \<open>Server_Props\<close>: the supervisor's permits and the
  interleaving of a registration with its announcement. \<open>Tunnel_Path\<close>: a connection to a tunnel's port
  passes through all of these parts and reaches the client's target.

  \<^bold>\<open>Starting.\<close> \<open>Settings\<close> (\<open>timing.rs\<close>, \<open>logging.rs\<close> and the structures of \<open>config.rs\<close>), \<open>Config_Layers\<close>
  (\<open>config.rs\<close>), \<open>Command_Line\<close> (\<open>cli.rs\<close>), \<open>Program_Entry\<close> (\<open>main.rs\<close>, \<open>shutdown.rs\<close>). \<open>Config_Props\<close> and
  \<open>Cli_Props\<close>: precedence of the layers, files and command lines are read back, settings are
  validated, errors do not show values. The theorems below are about the exit status and about what is
  started.

  \<^bold>\<open>Loops and bounds.\<close> A loop over events (the actor, the session loops, accept loops, reconnection) is
  structural recursion over the list of what it meets, so a result \<open>None\<close> says that it still runs when
  the list ends; the theorems speak of all lists. The actor's loop that draws request identifiers until
  one is free (\<open>fresh_request_id\<close>) may go on forever when the entropy source repeats itself: it is a
  \<open>partial_function (option)\<close>, and a theorem of \<open>Registry_Progress\<close> shows that every command is answered
  as long as the first draws, one more than there are pending requests, differ. Counters have the width of the
  code; \<open>take_generation\<close> has no result where the addition would panic, and the invariant bounds the
  listener identifiers by the generations. No other fuel or bound is needed.

  \<^bold>\<open>Findings.\<close> Three places where the code does not do what a comment says are proved as theorems: a rejected
  claim may have consumed its request (\<open>Registry_Props\<close>), established sessions hold the permits meant
  for handshakes, and OPEN can be queued before REGISTERED (both \<open>Server_Props\<close>).

  \<^bold>\<open>Not modelled.\<close> The scheduler of tokio and the copying of bytes by \<open>copy_bidirectional\<close> (its outcome is
  an argument of \<open>forward\<close>); socket options such as \<open>set_nodelay\<close> beyond their success; installing
  signal handlers, and signals on systems other than Unix; where log lines are written (their text and
  whether they are shown is modelled), and a
  standard output that cannot be written to; \<open>MapEnv\<close>, a source of variables used by tests only; module
  declarations (\<open>lib.rs\<close>).
\<close>

subsection \<open>Starting the program\<close>

lemma start_run:
  assumes "cli_parse args = Inr (CliRun mode path explicit raw)"
  shows "start version args os_env fs =
    and_then (resolve path explicit raw (process_env os_env) fs) (\<lambda>merged.
      if mode = ServerMode
      then and_then (server_settings merged) (\<lambda>c. Inr (RunServer c (log_init (sc_log_level c) (sc_quiet c) log_initial)))
      else and_then (expose_settings merged) (\<lambda>c. Inr (RunExpose c (log_init (ec_log_level c) (ec_quiet c) log_initial))))"
  using assms by (cases mode) (simp_all add: start_def)

lemma start_settings:
  assumes "start version args os_env fs = Inr prog"
  obtains t where "prog = PrintText t"
  | merged c l where "server_settings merged = Inr c" "prog = RunServer c l"
  | merged c l where "expose_settings merged = Inr c" "prog = RunExpose c l"
proof -
  obtain cmd where cmd: "cli_parse args = Inr cmd" using assms by (auto simp: start_def and_then_eq_Inr)
  show thesis
  proof (cases cmd)
    case (CliRun mode path explicit raw)
    then show thesis
      using assms that(2,3) unfolding start_run [OF cmd [unfolded CliRun]]
      by (auto simp: and_then_eq_Inr split: if_splits)
  qed (use assms cmd that(1) in \<open>auto simp: start_def\<close>)
qed

lemma start_text:
  assumes "start version args os_env fs = Inr (PrintText t)"
  shows "start version args os_env' fs' = Inr (PrintText t)"
proof -
  obtain cmd where cmd: "cli_parse args = Inr cmd" using assms by (auto simp: start_def and_then_eq_Inr)
  show ?thesis
  proof (cases cmd)
    case (CliRun mode path explicit raw)
    then show ?thesis
      using assms unfolding start_run [OF cmd [unfolded CliRun]] by (auto simp: and_then_eq_Inr split: if_splits)
  qed (use assms cmd in \<open>simp_all add: start_def\<close>)
qed

lemma settings_errors:
  "server_settings raw = Inl e \<Longrightarrow> \<exists>m. e = Config m" "expose_settings raw = Inl e \<Longrightarrow> \<exists>m. e = Config m"
  by (auto simp: server_settings_def expose_settings_def and_then_eq_Inl fixed_error_def dest!: settings_fixed)

lemma start_errors:
  assumes "start version args os_env fs = Inl e"
  shows "exit_code e = 2"
proof (cases "cli_parse args")
  case (Inl f)
  then show ?thesis using assms by (auto simp: start_def cli_parse_def dest: parse_args_errors)
next
  case (Inr cmd)
  show ?thesis
  proof (cases cmd)
    case (CliRun mode path explicit raw)
    then show ?thesis
      using assms unfolding start_run [OF Inr [unfolded CliRun]]
      by (auto simp: resolve_def and_then_eq_Inl dest!: parse_file_errors settings_errors split: if_splits)
  qed (use assms Inr in \<open>auto simp: start_def\<close>)
qed

lemma server_run_errors: "server_run hmac os local c tm evs f inputs final = Inl e \<Longrightarrow> exit_code e = 1"
  by (auto simp: server_run_def server_listen_def and_then_eq_Inl map_err_eq_Inl Let_def)

text \<open>
  C28. The exit status tells what happened, as documented: 2 exactly if the command line or the
  configuration is at fault, and then nothing was started; 3 only for a client, on a failed
  authentication, a protocol violation or a refused registration; 1 for a failure at run time; 0
  otherwise; and a message on standard error exactly if it is not 0.
\<close>

theorem exit_status:
  assumes "main (Inr ()) version args os_env fs w = Some (status, msg)"
  shows "status \<in> {0, 1, 2, 3} \<and> (msg = None \<longleftrightarrow> status = 0) \<and>
    (status = 2 \<longleftrightarrow> (\<exists>e. start version args os_env fs = Inl e)) \<and>
    (status = 3 \<longrightarrow> (\<exists>c l e. start version args os_env fs = Inr (RunExpose c l) \<and>
       ends_client (client_draws (wo_draw w) (wo_rounds w)) e \<and>
       fst (client_run (wo_hmac w) c timing_default (wo_draw w) (wo_rounds w)) = Some (Inl e)))"
proof (cases "start version args os_env fs")
  case (Inl e)
  then show ?thesis using assms start_errors [OF Inl] by (auto simp: main_def main_run_def)
next
  case (Inr prog)
  show ?thesis
  proof (cases prog)
    case (PrintText t)
    then show ?thesis using assms Inr by (auto simp: main_def main_run_def)
  next
    case (RunServer c l)
    then show ?thesis
      using assms Inr by (auto simp: main_def main_run_def and_then_def dest: server_run_errors split: sum.splits)
  next
    case (RunExpose c l)
    let ?r = "fst (client_run (wo_hmac w) c timing_default (wo_draw w) (wo_rounds w))"
    have run: "main_run version args os_env fs w = ?r" using Inr RunExpose by (simp add: main_run_def)
    then consider "?r = Some (Inr ())" "status = 0" "msg = None"
      | e where "?r = Some (Inl e)" "status = of_int (exit_code e)" "msg \<noteq> None"
      using assms by (cases ?r) (auto simp: main_def split: sum.splits)
    then show ?thesis
    proof cases
      case 1
      then show ?thesis using Inr by simp
    next
      case (2 e)
      have "ends_client (client_draws (wo_draw w) (wo_rounds w)) e" using 2(1) by (rule client_run_ends)
      then show ?thesis using 2 Inr RunExpose by (cases e) auto
    qed
  qed
qed

definition demo_world :: world where
  "demo_world =
     \<lparr>wo_os = (\<lambda>_. Inr ()), wo_local = Inr \<lparr>sa_ip = V4 0, sa_port = 4000\<rparr>, wo_events = [], wo_in_time = (\<lambda>_. True),
      wo_inputs = [], wo_final = demo_env,
      wo_hmac = demo_hmac, wo_draw = Inr (replicate 16 2), wo_rounds = []\<rparr>"

definition no_files :: "string \<Rightarrow> (io_error, string) result" where
  "no_files path = Inl \<lparr>kind = NotFound, io_text = ''not found''\<rparr>"

theorem exit_status_witness:
  "\<exists>msg. main (Inr ()) ''1.0'' [''tunlet''] (\<lambda>_. None) no_files demo_world = Some (2, Some msg) \<and>
     (\<exists>e. start ''1.0'' [''tunlet''] (\<lambda>_. None) no_files = Inl e)"
proof -
  have "start ''1.0'' [''tunlet''] (\<lambda>_. None) no_files =
      Inl (Cli ''expected a subcommand: `server` or `expose`. Try --help'')"
    by (simp add: start_def cli_parse_def cli_initial_def)
  then obtain msg where run: "main (Inr ()) ''1.0'' [''tunlet''] (\<lambda>_. None) no_files demo_world = Some (2, Some msg)"
    by (simp add: main_def main_run_def)
  with exit_status [OF run] show ?thesis by auto
qed

text \<open>
  C29. What is started is sound: help and version are printed whatever the environment and the files
  hold; a server starts only with valid settings and a key, and then its registry keeps its invariant
  for as long as it runs; a client starts only with valid settings and a key.
\<close>

theorem started_programs_sound:
  assumes "start version args os_env fs = Inr prog"
  shows "case prog of
      PrintText t \<Rightarrow> \<forall>os_env' fs'. start version args os_env' fs' = Inr (PrintText t)
    | RunServer c l \<Rightarrow> wf_server_config c \<and> sc_key c \<noteq> [] \<and>
        (\<forall>r. registry_reachable c timing_default r \<longrightarrow> registry_inv r)
    | RunExpose c l \<Rightarrow> wf_expose_config c \<and> ec_key c \<noteq> []"
  using assms
proof (cases rule: start_settings)
  case (1 t)
  then show ?thesis using start_text [OF assms [unfolded 1]] by simp
next
  case (2 merged c l)
  have "wf_server_config c" "sc_key c \<noteq> []" using 2(1) by (rule server_settings_wf server_settings_key)+
  then show ?thesis using 2(2) reachable_inv by simp
next
  case (3 merged c l)
  have "wf_expose_config c" "ec_key c \<noteq> []" using 3(1) by (rule expose_settings_wf expose_settings_key)+
  then show ?thesis using 3(2) by simp
qed

theorem started_programs_sound_witness:
  "\<exists>c l. start ''1.0'' [''tunlet'', ''server'', ''--key'', ''k''] (\<lambda>_. None)
      no_files = Inr (RunServer c l) \<and> wf_server_config c \<and> sc_key c \<noteq> []"
proof -
  let ?args = "[''tunlet'', ''server'', ''--key'', ''k'']"
  have key: "value_flag ''--key'' = Some ''KEY''" by (simp add: value_flag_def VALUE_FLAGS_def)
  have "cli_parse ?args = Inr (CliRun ServerMode ''tunlet.cfg'' False \<lparr>rc_values = [(''KEY'', ''k'')]\<rparr>)"
    by (simp add: cli_parse_def ascii_valid cli_initial_def parse_option_def split_flag_def key put_def raw_default_def
        hm_insert_def mrem_def DEFAULT_CONFIG_def)
  moreover have "resolve ''tunlet.cfg'' False \<lparr>rc_values = [(''KEY'', ''k'')]\<rparr> (process_env (\<lambda>_. None)) no_files =
      Inr \<lparr>rc_values = [(''KEY'', ''k'')]\<rparr>"
    by (simp add: resolve_def parse_file_def no_files_def raw_default_def merge_def env_config_def env_values_def NAMES_def
        process_env_def hm_extend_def hm_insert_def mrem_def)
  moreover have "\<exists>c. server_settings \<lparr>rc_values = [(''KEY'', ''k'')]\<rparr> = Inr c"
    by (simp add: server_settings_def required_def get_or_def raw_get_def default_settings default_numbers default_ip
        max_connections_setting_def parse_bind_ip_def log_level_def quiet_def level_parse_def)
  ultimately obtain c l where run: "start ''1.0'' ?args (\<lambda>_. None) no_files = Inr (RunServer c l)"
    by (auto simp: start_def)
  with started_programs_sound [OF run] show ?thesis by auto
qed

end
